(* ===== verification/Prelude.thy ===== *)
theory Prelude
  imports Main "HOL-Library.Multiset"
begin

text \<open>
  Shared vocabulary of the RippleDEX development: the names of the model's basic types,
  the collections of facts the component theories feed to the simplifier, and the
  generic list lemmas the components share.  The one list operation defined here,
  \<open>remove_first\<close>, is the removal of one object from an ordered collection the way a
  JavaScript widget removes an event object (the first entry with a given key); the
  calendar theory uses it for \<open>event.remove()\<close> and
  \<open>getEventById(id).remove()\<close>.
\<close>

named_theorems js_simps "evaluation rules of the JavaScript built-ins the code calls"
named_theorems store_simps "characteristic equations of the remote document store"

type_synonym doc_id = string

text \<open>A key projection and the first entry that has a key, as an option.\<close>

fun find_key :: "('a \<Rightarrow> 'k) \<Rightarrow> 'k \<Rightarrow> 'a list \<Rightarrow> 'a option" where
  "find_key key k [] = None"
| "find_key key k (x # xs) = (if key x = k then Some x else find_key key k xs)"

fun remove_first :: "('a \<Rightarrow> 'k) \<Rightarrow> 'k \<Rightarrow> 'a list \<Rightarrow> 'a list" where
  "remove_first key k [] = []"
| "remove_first key k (x # xs) = (if key x = k then xs else x # remove_first key k xs)"

lemma find_key_None_iff [simp]: "find_key key k xs = None \<longleftrightarrow> k \<notin> key ` set xs"
  by (induction xs) auto

lemma find_key_Some: "find_key key k xs = Some x \<Longrightarrow> x \<in> set xs \<and> key x = k"
  by (induction xs) (auto split: if_splits)

lemma remove_first_notin [simp]: "k \<notin> key ` set xs \<Longrightarrow> remove_first key k xs = xs"
  by (induction xs) auto

lemma mset_remove_first:
  "find_key key k xs = Some x \<Longrightarrow> mset (remove_first key k xs) = mset xs - {#x#}"
  by (induction xs) (auto split: if_splits dest!: find_key_Some)

lemma remove_first_map_key:
  "map key (remove_first key k xs) = remove1 k (map key xs)"
  by (induction xs) auto

lemma remove_first_distinct:
  "distinct (map key xs) \<Longrightarrow> remove_first key k xs = filter (\<lambda>x. key x \<noteq> k) xs"
  by (induction xs) (auto simp: filter_id_conv image_iff)

lemma find_key_unique:
  "distinct (map key xs) \<Longrightarrow> x \<in> set xs \<Longrightarrow> find_key key (key x) xs = Some x"
  by (induction xs) (auto simp: image_iff)

lemma length_remove_first:
  "length (remove_first key k xs) = (if k \<in> key ` set xs then length xs - 1 else length xs)"
proof -
  have "length (remove_first key k xs) = length (remove1 k (map key xs))"
    by (metis length_map remove_first_map_key)
  then show ?thesis by (simp add: length_remove1)
qed

text \<open>Filtering commutes with a projection that keeps the filtered field.\<close>

lemma mset_filter_map:
  "mset (map f (filter P xs)) = image_mset f (filter_mset P (mset xs))"
  by (induction xs) auto

end
