(* ===== verification/JsRuntime.thy ===== *)
theory JsRuntime
  imports Prelude
begin

text \<open>
  The JavaScript built-ins the calendar's time parsing relies on
  (\<open>src/src/components/calendar/calendarComponent.js\<close>, lines 133 to 142):
  \<open>String.prototype.split\<close> with a one-character separator, \<open>parseInt\<close> without a
  radix, reading an array past its end (\<open>undefined\<close>, which \<open>ToNumber\<close> makes
  \<open>NaN\<close>) and \<open>Date.prototype.setHours(h, m, 0, 0)\<close>.  A JS number that is
  \<open>NaN\<close> is \<open>None\<close> of an \<open>int option\<close>; a \<open>Date\<close> is a time value in
  milliseconds or the invalid date.  Local time is taken to be UTC (the code never
  reads a time zone) and the integers met here are exact (below \<open>2^53\<close>).
\<close>

subsection \<open>Dates\<close>

datatype js_date = JsDate int | InvalidDate

definition ms_per_day :: int where
  "ms_per_day = 86400000"

text \<open>\<open>TimeClip\<close>: a time value outside \<open>\<plusminus>8.64e15\<close> ms is the invalid date.\<close>

definition time_clip :: "int \<Rightarrow> js_date" where
  "time_clip t = (if \<bar>t\<bar> \<le> 8640000000000000 then JsDate t else InvalidDate)"

text \<open>
  \<open>d.setHours(h, m, 0, 0)\<close>: keep the day of \<open>d\<close>, replace the time of day by
  \<open>h\<close> hours and \<open>m\<close> minutes (hours and minutes out of range carry over into other
  days, as \<open>MakeTime\<close> and \<open>MakeDate\<close> do); \<open>NaN\<close> anywhere gives the invalid date.
\<close>

fun set_hours :: "js_date \<Rightarrow> int option \<Rightarrow> int option \<Rightarrow> js_date" where
  "set_hours (JsDate t) (Some h) (Some m) =
     time_clip ((t div ms_per_day) * ms_per_day + h * 3600000 + m * 60000)"
| "set_hours _ _ _ = InvalidDate"

definition day_start :: "int \<Rightarrow> int" where
  "day_start t = (t div ms_per_day) * ms_per_day"

subsection \<open>split\<close>

text \<open>\<open>s.split(c)\<close> for a one-character separator: \<open>"" \<mapsto> [""]\<close>.\<close>

fun split_on :: "char \<Rightarrow> string \<Rightarrow> string list" where
  "split_on c [] = [[]]"
| "split_on c (x # xs) =
     (if x = c then [] # split_on c xs
      else (case split_on c xs of w # ws \<Rightarrow> (x # w) # ws | [] \<Rightarrow> [[x]]))"

fun join_on :: "char \<Rightarrow> string list \<Rightarrow> string" where
  "join_on c [] = []"
| "join_on c [w] = w"
| "join_on c (w # ws) = w @ c # join_on c ws"

subsection \<open>parseInt\<close>

text \<open>The white space \<open>parseInt\<close> skips, restricted to its one-byte members.\<close>

definition js_whitespace :: "char \<Rightarrow> bool" where
  "js_whitespace c \<longleftrightarrow> of_char c \<in> {9, 10, 11, 12, 13, 32 :: nat}"

text \<open>The value of a character as a digit of radix \<open>r\<close> (\<open>r \<le> 36\<close>).\<close>

definition digit_value :: "nat \<Rightarrow> char \<Rightarrow> nat option" where
  "digit_value r c =
     (let n = of_char c :: nat;
          v = (if 48 \<le> n \<and> n \<le> 57 then Some (n - 48)
               else if 97 \<le> n \<and> n \<le> 122 then Some (n - 87)
               else if 65 \<le> n \<and> n \<le> 90 then Some (n - 55)
               else None)
      in case v of Some d \<Rightarrow> if d < r then Some d else None | None \<Rightarrow> None)"

fun take_digits :: "nat \<Rightarrow> string \<Rightarrow> nat list" where
  "take_digits r [] = []"
| "take_digits r (c # cs) =
     (case digit_value r c of None \<Rightarrow> [] | Some d \<Rightarrow> d # take_digits r cs)"

definition digits_value :: "nat \<Rightarrow> nat list \<Rightarrow> nat" where
  "digits_value r ds = foldl (\<lambda>acc d. acc * r + d) 0 ds"

text \<open>
  \<open>parseInt(s)\<close>: skip leading white space, read an optional sign, a \<open>0x\<close> or
  \<open>0X\<close> prefix selects radix 16, then the longest prefix of digits; no digit is
  \<open>NaN\<close>.  (\<open>-0\<close> is \<open>0\<close> here; \<open>setHours\<close> does not tell them apart.)
\<close>

definition js_parseInt :: "string \<Rightarrow> int option" where
  "js_parseInt str =
     (let s = dropWhile js_whitespace str;
          (sign, s1) = (case s of
                          c # t \<Rightarrow> if c = CHR ''-'' then (-1 :: int, t)
                                   else if c = CHR ''+'' then (1, t) else (1, s)
                        | [] \<Rightarrow> (1, s));
          (r, s2) = (case s1 of
                       c # x # t \<Rightarrow> if c = CHR ''0'' \<and> (x = CHR ''x'' \<or> x = CHR ''X'')
                                   then (16, t) else (10, s1)
                     | _ \<Rightarrow> (10, s1));
          ds = take_digits r s2
      in if ds = [] then None else Some (sign * int (digits_value r ds)))"

text \<open>\<open>arr[i]\<close> of an array of numbers: past the end it is \<open>undefined\<close>, i.e.\ \<open>NaN\<close>.\<close>

definition js_index :: "int option list \<Rightarrow> nat \<Rightarrow> int option" where
  "js_index xs i = (if i < length xs then xs ! i else None)"

subsection \<open>Decimal printing\<close>

text \<open>
  The decimal digits of a number and its printed form (\<open>String(n)\<close>), used for the
  \<open>HH:MM\<close> strings a time input produces and for the store's generated ids.
\<close>

fun digits10 :: "nat \<Rightarrow> nat list" where
  "digits10 n = (if n < 10 then [n] else digits10 (n div 10) @ [n mod 10])"

declare digits10.simps [simp del]

definition string_of_nat :: "nat \<Rightarrow> string" where
  "string_of_nat n = map (\<lambda>d. char_of (48 + d)) (digits10 n)"

definition pad2 :: "nat \<Rightarrow> string" where
  "pad2 n = (if n < 10 then CHR ''0'' # string_of_nat n else string_of_nat n)"

definition format_hhmm :: "nat \<Rightarrow> nat \<Rightarrow> string" where
  "format_hhmm h m = pad2 h @ CHR '':'' # pad2 m"

subsection \<open>Lemmas: split and join\<close>

lemma join_split_on: "join_on c (split_on c s) = s"
proof (induction s)
  case Nil then show ?case by simp
next
  case (Cons x xs)
  then show ?case
    by (cases "split_on c xs" rule: remdups_adj.cases) (auto split: list.splits)
qed

lemma split_on_parts: "w \<in> set (split_on c s) \<Longrightarrow> c \<notin> set w"
  by (induction s arbitrary: w) (auto split: if_splits list.splits)

lemma split_on_nonempty: "split_on c s \<noteq> []"
  by (induction s) (auto split: list.splits)

lemma split_on_append:
  "c \<notin> set w \<Longrightarrow> split_on c (w @ c # s) = w # split_on c s"
  by (induction w) (auto split: list.splits)

lemma split_on_free: "c \<notin> set w \<Longrightarrow> split_on c w = [w]"
  by (induction w) auto

lemma split_join_on:
  "ws \<noteq> [] \<Longrightarrow> (\<forall>w\<in>set ws. c \<notin> set w) \<Longrightarrow> split_on c (join_on c ws) = ws"
  by (induction ws rule: join_on.induct) (auto simp: split_on_append split_on_free)

lemma digits10_lt: "d \<in> set (digits10 n) \<Longrightarrow> d < 10"
  by (induction n rule: digits10.induct) (subst (asm) digits10.simps, auto split: if_splits)

lemma digits10_value: "digits_value 10 (digits10 n) = n"
  by (induction n rule: digits10.induct) (subst digits10.simps, simp add: digits_value_def)

lemma digit_value_char: "d < 10 \<Longrightarrow> digit_value 10 (char_of (48 + d)) = Some d"
  by (simp add: digit_value_def Let_def of_char_of)

lemma take_digits_chars:
  "\<forall>d\<in>set ds. d < 10 \<Longrightarrow> take_digits 10 (map (\<lambda>d. char_of (48 + d)) ds) = ds"
  by (induction ds) (simp_all add: digit_value_char)

subsection \<open>Lemmas: parseInt reads back what decimal printing writes\<close>

lemma digit_char_code: "(d::nat) < 10 \<Longrightarrow> char_of (48 + d) = c \<Longrightarrow> of_char c = (48 + d :: nat)"
  by (auto simp: of_char_of)

lemma digit_char_not_ws: "(d::nat) < 10 \<Longrightarrow> \<not> js_whitespace (char_of (48 + d))"
  unfolding js_whitespace_def of_char_of by simp

lemma digit_char_neq:
  assumes "(d::nat) < 10"
  shows "char_of (48 + d) \<noteq> CHR ''-''" "char_of (48 + d) \<noteq> CHR ''+''"
    "char_of (48 + d) \<noteq> CHR ''x''" "char_of (48 + d) \<noteq> CHR ''X''"
proof -
  have "of_char c \<noteq> (48 + d :: nat) \<Longrightarrow> char_of (48 + d) \<noteq> c" for c
    using digit_char_code [OF assms] by blast
  then show "char_of (48 + d) \<noteq> CHR ''-''" "char_of (48 + d) \<noteq> CHR ''+''"
    "char_of (48 + d) \<noteq> CHR ''x''" "char_of (48 + d) \<noteq> CHR ''X''"
    using assms by simp_all
qed

lemma js_parseInt_digit_string:
  assumes "ds \<noteq> []" and "\<forall>d\<in>set ds. d < 10"
  shows "js_parseInt (map (\<lambda>d. char_of (48 + d)) ds) = Some (int (digits_value 10 ds))"
proof -
  obtain d ds' where ds: "ds = d # ds'" using assms(1) by (cases ds) auto
  have d: "d < 10" using assms(2) ds by simp
  have tk: "take_digits 10 (map (\<lambda>d. char_of (48 + d)) ds) = ds"
    using assms(2) by (rule take_digits_chars)
  have rest: "\<forall>e\<in>set ds'. e < 10" using assms(2) ds by simp
  show ?thesis
  proof (cases ds')
    case Nil
    then show ?thesis using ds d tk
      by (simp add: js_parseInt_def Let_def digit_char_not_ws digit_char_neq)
  next
    case (Cons e es)
    then have "e < 10" using rest by simp
    then show ?thesis using ds d tk Cons
      by (simp add: js_parseInt_def Let_def digit_char_not_ws digit_char_neq)
  qed
qed

lemma digits10_nonempty: "digits10 n \<noteq> []"
  by (subst digits10.simps) simp

lemma js_parseInt_string_of_nat: "js_parseInt (string_of_nat n) = Some (int n)"
  using js_parseInt_digit_string [OF digits10_nonempty, of n] digits10_lt digits10_value
  by (simp add: string_of_nat_def)

lemma zero_char: "CHR ''0'' = char_of (48::nat)"
  by code_simp

lemma string_of_nat_codes:
  "c \<in> set (string_of_nat m) \<Longrightarrow> (48::nat) \<le> of_char c \<and> of_char c \<le> (57::nat)"
  using digits10_lt by (fastforce simp: string_of_nat_def of_char_of)

lemma digits_value_zero_cons: "digits_value r (0 # ds) = digits_value r ds"
  by (simp add: digits_value_def)

lemma digits10_small: "n < 10 \<Longrightarrow> digits10 n = [n]"
  by (subst digits10.simps) simp

lemma js_parseInt_pad2: "js_parseInt (pad2 n) = Some (int n)"
proof (cases "n < 10")
  case True
  have "pad2 n = map (\<lambda>d. char_of (48 + d)) [0, n]"
    using True by (simp add: pad2_def string_of_nat_def digits10_small zero_char)
  moreover have "digits_value 10 [0, n] = n" by (simp add: digits_value_def)
  ultimately show ?thesis using True js_parseInt_digit_string [of "[0, n]"] by simp
next
  case False
  then show ?thesis by (simp add: pad2_def js_parseInt_string_of_nat)
qed

lemma pad2_no_colon: "CHR '':'' \<notin> set (pad2 n)"
proof -
  have "CHR '':'' \<notin> set (string_of_nat m)" for m
    using string_of_nat_codes [of "CHR '':''" m] by auto
  then show ?thesis by (auto simp: pad2_def)
qed

lemma split_format_hhmm: "split_on CHR '':'' (format_hhmm h m) = [pad2 h, pad2 m]"
  by (simp add: format_hhmm_def split_on_append pad2_no_colon split_on_free)

lemma parse_format_hhmm:
  "map js_parseInt (split_on CHR '':'' (format_hhmm h m)) = [Some (int h), Some (int m)]"
  by (simp add: split_format_hhmm js_parseInt_pad2)

lemma day_start_eq: "day_start t = t - t mod ms_per_day"
  by (simp add: day_start_def minus_mod_eq_div_mult [symmetric])

lemma day_start_bounds: "day_start t \<le> t \<and> t < day_start t + ms_per_day"
  by (simp add: day_start_eq ms_per_day_def)

lemma day_start_shift:
  "0 \<le> x \<Longrightarrow> x < ms_per_day \<Longrightarrow> day_start (day_start t + x) = day_start t"
  by (simp add: day_start_def ms_per_day_def)

end
