(* ===== verification/RemoteStore.thy ===== *)
theory RemoteStore
  imports JsRuntime
begin

text \<open>
  The remote document store both pages talk to: the organisation-scoped collections of
  Interaction and Contact documents behind \<open>src/models/Interaction\<close> and
  \<open>src/models/Contact\<close>.  Those modules are not part of the sources under \<open>src/\<close>;
  they are modelled from the spec (section 6, External interfaces) as a list of documents
  per collection, in insertion order, with the CRUD calls the pages make.  A document
  store assigns every new document an id no other document of the collection has; the
  model takes the id one character longer than every id present, which is fresh by
  construction.  Failures of the store are values of \<open>store_error\<close>: an update of a
  missing document is rejected (Firestore's \<open>updateDoc\<close> does so) and a call with an
  \<open>undefined\<close> id is rejected.  The Deal and Task collections (\<open>src/models/Deal\<close>,
  \<open>src/models/Task\<close>) are read only, by organisation.
\<close>

datatype store_error = NotFound doc_id | UndefinedId

text \<open>An Interaction document (spec, section 3); the code reads \<open>id\<close>, \<open>name\<close>,
  \<open>contact\<close>, \<open>meetingStart\<close>, \<open>meetingEnd\<close> and \<open>remindMe\<close>.\<close>

record interaction =
  i_id :: doc_id
  i_org :: string
  i_contact :: doc_id
  i_owner :: string
  i_deal :: doc_id
  i_task :: doc_id
  meetingStart :: js_date
  meetingEnd :: "js_date option"
  i_type :: string
  i_notes :: string
  i_name :: string
  remindMe :: bool
  i_participants :: "string list"

text \<open>A Contact document; the contacts table shows \<open>name\<close>, \<open>company\<close>,
  \<open>position\<close>, \<open>id\<close>, \<open>email\<close>, \<open>phoneNumber\<close> and \<open>notes\<close>.\<close>

record contact =
  c_id :: doc_id
  c_org :: string
  c_name :: string
  c_company :: string
  c_position :: string
  c_email :: string
  c_phoneNumber :: string
  c_notes :: string

type_synonym 'a collection = "'a list"

subsection \<open>Generic collection operations\<close>

definition fresh_id :: "doc_id list \<Rightarrow> doc_id" where
  "fresh_id ids = replicate (Suc (foldr (\<lambda>k m. max (length k) m) ids 0)) CHR ''k''"

definition coll_get :: "('a \<Rightarrow> doc_id) \<Rightarrow> 'a collection \<Rightarrow> doc_id \<Rightarrow> 'a option" where
  "coll_get key c k = find_key key k c"

definition coll_add :: "('a \<Rightarrow> doc_id) \<Rightarrow> (doc_id \<Rightarrow> 'a) \<Rightarrow> 'a collection \<Rightarrow> doc_id \<times> 'a collection" where
  "coll_add key mk c = (let k = fresh_id (map key c) in (k, c @ [mk k]))"

definition coll_update ::
  "('a \<Rightarrow> doc_id) \<Rightarrow> doc_id \<Rightarrow> ('a \<Rightarrow> 'a) \<Rightarrow> 'a collection \<Rightarrow> store_error + 'a collection" where
  "coll_update key k f c =
     (if k \<in> key ` set c then Inr (map (\<lambda>d. if key d = k then f d else d) c) else Inl (NotFound k))"

definition coll_delete :: "('a \<Rightarrow> doc_id) \<Rightarrow> doc_id option \<Rightarrow> 'a collection \<Rightarrow> store_error + 'a collection" where
  "coll_delete key k c =
     (case k of None \<Rightarrow> Inl UndefinedId | Some k' \<Rightarrow> Inr (filter (\<lambda>d. key d \<noteq> k') c))"

subsection \<open>The Interaction model\<close>

text \<open>\<open>createNewInteraction(orgID, contactID, userID, dealID, start, type, notes, taskID,
  remindMe, title, end, participants)\<close>: the argument order of the call in the calendar.\<close>

definition createNewInteraction ::
  "interaction collection \<Rightarrow> string \<Rightarrow> doc_id \<Rightarrow> string \<Rightarrow> doc_id \<Rightarrow> js_date \<Rightarrow> string \<Rightarrow>
   string \<Rightarrow> doc_id \<Rightarrow> bool \<Rightarrow> string \<Rightarrow> js_date option \<Rightarrow> string list \<Rightarrow>
   doc_id \<times> interaction collection" where
  "createNewInteraction c org contactID userID dealID start ty notes taskID remind title end parts =
     coll_add i_id (\<lambda>k. \<lparr>i_id = k, i_org = org, i_contact = contactID, i_owner = userID,
        i_deal = dealID, i_task = taskID, meetingStart = start, meetingEnd = end, i_type = ty,
        i_notes = notes, i_name = title, remindMe = remind, i_participants = parts\<rparr>) c"

definition getInteraction :: "interaction collection \<Rightarrow> doc_id \<Rightarrow> interaction option" where
  "getInteraction c k = coll_get i_id c k"

definition getInteractionsByOrg :: "interaction collection \<Rightarrow> string \<Rightarrow> interaction list" where
  "getInteractionsByOrg c org = filter (\<lambda>d. i_org d = org) c"

text \<open>The partial updates the code sends with \<open>updateInteraction(id, {...})\<close>, and the
  whole-document edit the interaction pop-up (an external component) submits.\<close>

datatype interaction_patch =
    SetMeeting js_date "js_date option"
  | SetRemindMe bool
  | EditDocument interaction

fun apply_patch :: "interaction_patch \<Rightarrow> interaction \<Rightarrow> interaction" where
  "apply_patch (SetMeeting s e) d = d\<lparr>meetingStart := s, meetingEnd := e\<rparr>"
| "apply_patch (SetRemindMe b) d = d\<lparr>remindMe := b\<rparr>"
| "apply_patch (EditDocument d') d = d'\<lparr>i_id := i_id d\<rparr>"

definition updateInteraction ::
  "interaction collection \<Rightarrow> doc_id \<Rightarrow> interaction_patch \<Rightarrow> store_error + interaction collection" where
  "updateInteraction c k p = coll_update i_id k (apply_patch p) c"

subsection \<open>The Contact model\<close>

text \<open>\<open>createNewContact(orgID, name, company, email, phone, position)\<close> answers an id or
  a falsy value (spec, section 6); \<open>accepted\<close> is the backend's answer.  Notes are not
  among the arguments, so a new contact is stored with empty notes.\<close>

definition createNewContact ::
  "bool \<Rightarrow> contact collection \<Rightarrow> string \<Rightarrow> string \<Rightarrow> string \<Rightarrow> string \<Rightarrow> string \<Rightarrow> string \<Rightarrow>
   doc_id option \<times> contact collection" where
  "createNewContact accepted c org nm company email phone position =
     (if accepted then
        (let (k, c') = coll_add c_id (\<lambda>k. \<lparr>c_id = k, c_org = org, c_name = nm, c_company = company,
            c_position = position, c_email = email, c_phoneNumber = phone, c_notes = []\<rparr>) c
         in (Some k, c'))
      else (None, c))"

definition getContact :: "contact collection \<Rightarrow> doc_id \<Rightarrow> contact option" where
  "getContact c k = coll_get c_id c k"

definition getContactsByOrg :: "contact collection \<Rightarrow> string \<Rightarrow> contact list" where
  "getContactsByOrg c org = filter (\<lambda>d. c_org d = org) c"

definition deleteContact :: "contact collection \<Rightarrow> doc_id option \<Rightarrow> store_error + contact collection" where
  "deleteContact c k = coll_delete c_id k c"

subsection \<open>The Deal and Task models\<close>

text \<open>Deals and tasks have the organisation-scoped shape of the other documents (spec,
  section 2); the calendar only lists them by organisation and reads their \<open>name\<close>, so the
  records keep the id, the organisation and the name.  Both stores are read-only here.\<close>

record deal =
  d_id :: doc_id
  d_org :: string
  d_name :: string

record crm_task =
  t_id :: doc_id
  t_org :: string
  t_name :: string

definition getDealsByOrg :: "deal collection \<Rightarrow> string \<Rightarrow> deal list" where
  "getDealsByOrg c org = filter (\<lambda>d. d_org d = org) c"

definition getTasksByOrg :: "crm_task collection \<Rightarrow> string \<Rightarrow> crm_task list" where
  "getTasksByOrg c org = filter (\<lambda>d. t_org d = org) c"

subsection \<open>Lemmas: freshness, insert/lookup, update, delete\<close>

lemma foldr_max_length: "k \<in> set ids \<Longrightarrow> length k \<le> foldr (\<lambda>k m. max (length k) m) ids 0"
  by (induction ids) auto

lemma fresh_id_fresh [store_simps]: "fresh_id ids \<notin> set ids"
  using foldr_max_length [of "fresh_id ids" ids] by (auto simp: fresh_id_def)

lemma coll_add_fst [store_simps]: "fst (coll_add key mk c) = fresh_id (map key c)"
  by (simp add: coll_add_def Let_def)

lemma coll_add_snd [store_simps]: "snd (coll_add key mk c) = c @ [mk (fresh_id (map key c))]"
  by (simp add: coll_add_def Let_def)

lemma coll_add_distinct:
  assumes "distinct (map key c)" and "\<And>k. key (mk k) = k"
  shows "distinct (map key (snd (coll_add key mk c)))"
  using assms fresh_id_fresh [of "map key c"] by (simp add: store_simps)

lemma find_key_append_notin:
  "k \<notin> key ` set c \<Longrightarrow> find_key key k (c @ [x]) = (if key x = k then Some x else None)"
  by (induction c) auto

lemma find_key_append_in:
  "k \<in> key ` set c \<Longrightarrow> find_key key k (c @ ys) = find_key key k c"
  by (induction c) auto

lemma coll_add_get:
  assumes "\<And>k. key (mk k) = k" and "coll_add key mk c = (k, c')"
  shows "coll_get key c' k' = (if k' = k then Some (mk k) else coll_get key c k')"
proof -
  have k: "k = fresh_id (map key c)" and c': "c' = c @ [mk k]"
    using assms(2) by (auto simp: coll_add_def Let_def)
  have "find_key key k' (c @ [mk k]) = (if k' = k then Some (mk k) else find_key key k' c)"
  proof (cases "k' \<in> key ` set c")
    case True
    then have "k' \<noteq> k" using k fresh_id_fresh [of "map key c"] by force
    with True show ?thesis by (simp add: find_key_append_in)
  next
    case False
    then have "find_key key k' c = None" by simp
    with False show ?thesis by (simp add: find_key_append_notin assms(1) del: find_key_None_iff)
  qed
  then show ?thesis by (simp add: coll_get_def c')
qed

lemma coll_update_keys:
  assumes "coll_update key k f c = Inr c'" and "\<And>d. key (f d) = key d"
  shows "map key c' = map key c"
  using assms by (auto simp: coll_update_def split: if_splits)

lemma coll_update_get:
  assumes "distinct (map key c)" and "coll_update key k f c = Inr c'"
    and "\<And>d. key (f d) = key d"
  shows "coll_get key c' k' = (if k' = k then map_option f (coll_get key c k) else coll_get key c k')"
  using assms(1,2)
proof (induction c arbitrary: c')
  case Nil
  then show ?case by (simp add: coll_update_def)
next
  case (Cons d c)
  show ?case
  proof (cases "key d = k")
    case True
    then have "c' = f d # map (\<lambda>d. if key d = k then f d else d) c"
      using Cons.prems by (simp add: coll_update_def split: if_splits)
    moreover have "map (\<lambda>d. if key d = k then f d else d) c = c"
    proof (rule map_idI)
      fix x assume "x \<in> set c"
      then have "key x \<in> set (map key c)" by simp
      then have "key x \<noteq> k" using Cons.prems(1) True by auto
      then show "(if key x = k then f x else x) = x" by simp
    qed
    ultimately show ?thesis using True assms(3) by (simp add: coll_get_def)
  next
    case False
    then have "coll_update key k f c = Inr (tl c')" and "c' = d # tl c'"
      using Cons.prems by (auto simp: coll_update_def split: if_splits)
    then show ?thesis using Cons.IH [of "tl c'"] Cons.prems(1) False assms(3)
      by (metis coll_get_def distinct.simps(2) find_key.simps(2) list.simps(9))
  qed
qed

lemma coll_delete_get:
  assumes "coll_delete key (Some k) c = Inr c'"
  shows "coll_get key c' k' = (if k' = k then None else coll_get key c k')"
  using assms by (induction c arbitrary: c') (auto simp: coll_delete_def coll_get_def)

lemma coll_delete_distinct:
  "distinct (map key c) \<Longrightarrow> coll_delete key k c = Inr c' \<Longrightarrow> distinct (map key c')"
  by (auto simp: coll_delete_def distinct_map_filter split: option.splits)

end
