(* ===== verification/Calendar.thy ===== *)
theory Calendar
  imports RemoteStore
begin

text \<open>
  The calendar reconciliation controller, \<open>CalendarComponent\<close> in
  \<open>src/src/components/calendar/calendarComponent.js\<close>.  Its state is the FullCalendar
  widget's event list (the widget owns it; the code mutates it through the calendar API),
  the React state of the component (\<open>date\<close>, \<open>editDoc\<close>, the two pop-up flags), the
  remote Interaction and Contact collections, and the asynchronous continuations in
  flight: every \<open>await\<close> and every \<open>.then\<close> of the component is a task of
  \<open>cal_task\<close> that the event loop resolves later, in an order the model leaves open.  An
  exception or a rejected promise that nobody catches is recorded in \<open>errors\<close>; the
  continuation it interrupts does nothing more.  Notifications (\<open>toast\<close>) are recorded
  by their title.
\<close>

subsection \<open>State\<close>

text \<open>An event object of the widget, as \<open>calendarApi.addEvent({...})\<close> receives it.\<close>

record cal_event =
  ev_id :: doc_id
  ev_title :: string
  ev_start :: js_date
  ev_end :: "js_date option"
  ev_allDay :: bool

datatype js_error = TypeError string | StoreRejected store_error

text \<open>The continuations awaiting a remote answer.\<close>

datatype cal_task =
    LoadEvents
  | AddEvent interaction
  | CreateThen string js_date "js_date option" bool doc_id doc_id doc_id string string
  | UpdateCall doc_id interaction_patch
  | EditFetch doc_id
  | AfterUpdateFetch doc_id

text \<open>The continuations of the three autocomplete fetches of the mount effect
  (\<open>fetchContacts\<close>, \<open>fetchDeals\<close>, \<open>fetchTasks\<close>, lines 52 to 69), each after
  its \<open>await\<close>, with the organisation id it was called with.\<close>

datatype fetch_task = FetchContacts string | FetchDeals string | FetchTasks string

text \<open>An autocomplete option: the fetched document with the \<open>label\<close> the loop
  \<open>for (const x of list) x.label = x.name\<close> adds to it.\<close>

type_synonym 'a labelled = "'a \<times> string"

record cal_state =
  interactions :: "interaction collection"
  contacts_db :: "contact collection"
  events :: "cal_event list"
  tasks :: "cal_task list"
  errors :: "js_error list"
  toasts :: "string list"
  date :: js_date
  isOpen :: bool
  editDoc :: "interaction option"
  isOpenEdit :: bool
  org_id :: string
  user_id :: string
  deals_db :: "deal collection"
  tasks_db :: "crm_task collection"
  contactOpts :: "contact labelled list"
  dealOpts :: "deal labelled list"
  taskOpts :: "crm_task labelled list"
  fetches :: "fetch_task list"

subsection \<open>Projection of a document into an event (\<open>addEvent\<close>, lines 79 to 89)\<close>

text \<open>
  \<open>title: doc?.name ? doc.name : "Meeting with " + contact.name\<close>: the contact is read
  only when the document has no name, and reading \<open>.name\<close> of a missing contact throws;
  \<open>allDay\<close> is \<open>meetingEnd == null\<close>.
\<close>

definition event_of_doc :: "interaction \<Rightarrow> contact option \<Rightarrow> js_error + cal_event" where
  "event_of_doc doc contact =
     (let t = (if i_name doc \<noteq> [] then Inr (i_name doc)
               else case contact of
                      None \<Rightarrow> Inl (TypeError ''contact is undefined'')
                    | Some c \<Rightarrow> Inr (''Meeting with '' @ c_name c))
      in case t of
           Inl e \<Rightarrow> Inl e
         | Inr title \<Rightarrow> Inr \<lparr>ev_id = i_id doc, ev_title = title, ev_start = meetingStart doc,
                            ev_end = meetingEnd doc, ev_allDay = (meetingEnd doc = None)\<rparr>)"

definition project_doc :: "contact collection \<Rightarrow> interaction \<Rightarrow> js_error + cal_event" where
  "project_doc cdb doc = event_of_doc doc (getContact cdb (i_contact doc))"

text \<open>The continuation of \<open>addEvent(doc)\<close> after \<open>await getContact(doc.contact)\<close>.\<close>

definition addEvent_then :: "interaction \<Rightarrow> cal_state \<Rightarrow> cal_state" where
  "addEvent_then doc s =
     (case project_doc (contacts_db s) doc of
        Inl e \<Rightarrow> s\<lparr>errors := errors s @ [e]\<rparr>
      | Inr ev \<Rightarrow> s\<lparr>events := events s @ [ev]\<rparr>)"

subsection \<open>Loading (\<open>loadEvents\<close>, \<open>clearEvents\<close>, the mount effect)\<close>

text \<open>After \<open>await getInteractionsByOrg(org.id)\<close>: keep the \<open>remindMe\<close> documents and
  call \<open>addEvent\<close> on each, in order; each call runs up to its own \<open>await\<close>.\<close>

definition loadEvents_then :: "cal_state \<Rightarrow> cal_state" where
  "loadEvents_then s =
     (let docs = filter remindMe (getInteractionsByOrg (interactions s) (org_id s))
      in s\<lparr>tasks := tasks s @ map AddEvent docs\<rparr>)"

definition clearEvents :: "cal_state \<Rightarrow> cal_state" where
  "clearEvents s = s\<lparr>events := []\<rparr>"

text \<open>The autocomplete fetches: \<open>const list = await getXByOrg(orgID)\<close>, the label
  loop, and \<open>setX(list)\<close>.\<close>

definition label_all :: "('a \<Rightarrow> string) \<Rightarrow> 'a list \<Rightarrow> 'a labelled list" where
  "label_all name xs = map (\<lambda>x. (x, name x)) xs"

fun fetch_then :: "fetch_task \<Rightarrow> cal_state \<Rightarrow> cal_state" where
  "fetch_then (FetchContacts og) s = s\<lparr>contactOpts := label_all c_name (getContactsByOrg (contacts_db s) og)\<rparr>"
| "fetch_then (FetchDeals og) s = s\<lparr>dealOpts := label_all d_name (getDealsByOrg (deals_db s) og)\<rparr>"
| "fetch_then (FetchTasks og) s = s\<lparr>taskOpts := label_all t_name (getTasksByOrg (tasks_db s) og)\<rparr>"

text \<open>The mount effect: \<open>fetchContacts(org.id)\<close>, \<open>fetchDeals(org.id)\<close>,
  \<open>fetchTasks(org.id)\<close>, each running up to its \<open>await\<close>, then \<open>clearEvents()\<close> and
  \<open>loadEvents()\<close>.  The fetch continuations write only the three option lists, which no
  other continuation reads; they are kept in their own queue \<open>fetches\<close>, and
  the theory \<open>CalendarFetch\<close> shows that settling one commutes with every other step.\<close>

definition mount :: "cal_state \<Rightarrow> cal_state" where
  "mount s =
     (let s0 = s\<lparr>fetches := fetches s @ [FetchContacts (org_id s), FetchDeals (org_id s),
                                          FetchTasks (org_id s)]\<rparr>;
          s1 = clearEvents s0
      in s1\<lparr>tasks := tasks s1 @ [LoadEvents]\<rparr>)"

subsection \<open>Creating an interaction (\<open>handleDateSelected\<close>, \<open>createNewEventDate\<close>)\<close>

definition handleDateSelected :: "js_date \<Rightarrow> cal_state \<Rightarrow> cal_state" where
  "handleDateSelected d s = s\<lparr>date := d, isOpen := True\<rparr>"

text \<open>\<open>let t = new Date(startDate); const f = time.split(":").map(x => parseInt(x));
  t.setHours(f[0], f[1], 0, 0)\<close>.\<close>

definition clock_time :: "js_date \<Rightarrow> string \<Rightarrow> js_date" where
  "clock_time startDate time =
     (let f = map js_parseInt (split_on CHR '':'' time)
      in set_hours startDate (js_index f 0) (js_index f 1))"

text \<open>
  The synchronous part of \<open>createNewEventDate\<close>: the start instant, the end instant when
  an end time is given (a non-empty string) and the event is not all-day, and the call of
  \<open>createNewInteraction\<close>, whose \<open>.then\<close> is left in flight.
\<close>

definition createNewEventDate ::
  "string \<Rightarrow> js_date \<Rightarrow> string \<Rightarrow> string \<Rightarrow> bool \<Rightarrow> doc_id \<Rightarrow> doc_id \<Rightarrow> doc_id \<Rightarrow> string \<Rightarrow>
   string \<Rightarrow> cal_state \<Rightarrow> cal_state" where
  "createNewEventDate title startDate startTime endTime isAllDay contactID dealID taskID ty notes s =
     (let start = clock_time startDate startTime;
          end = (if endTime \<noteq> [] \<and> \<not> isAllDay then Some (clock_time startDate endTime) else None)
      in s\<lparr>tasks := tasks s @ [CreateThen title start end isAllDay contactID dealID taskID ty notes]\<rparr>)"

text \<open>\<open>createNewInteraction(...).then(docID => {...})\<close>: the document is written with
  \<open>remindMe = true\<close>, owner and sole participant the current user; then the event is
  added to the widget as given (not re-projected) and a notification is shown.\<close>

definition createThen ::
  "string \<Rightarrow> js_date \<Rightarrow> js_date option \<Rightarrow> bool \<Rightarrow> doc_id \<Rightarrow> doc_id \<Rightarrow> doc_id \<Rightarrow> string \<Rightarrow>
   string \<Rightarrow> cal_state \<Rightarrow> cal_state" where
  "createThen title start end isAllDay contactID dealID taskID ty notes s =
     (let (docID, db) = createNewInteraction (interactions s) (org_id s) contactID (user_id s)
                          dealID start ty notes taskID True title end [user_id s]
      in s\<lparr>interactions := db,
           events := events s @ [\<lparr>ev_id = docID, ev_title = title, ev_start = start,
                                  ev_end = end, ev_allDay = isAllDay\<rparr>],
           toasts := toasts s @ [''Interaction Successfully Added'']\<rparr>)"

subsection \<open>Deleting, moving and editing events\<close>

text \<open>The creation form's button, \<open><CreateEventButton onOpen={onOpen} />\<close>.\<close>

definition openCreate :: "cal_state \<Rightarrow> cal_state" where
  "openCreate s = s\<lparr>isOpen := True\<rparr>"

text \<open>The \<open>onClose\<close> callbacks of the two \<open>useDisclosure\<close> hooks, handed to the creation
  form and to the interaction pop-up.\<close>

definition closeCreate :: "cal_state \<Rightarrow> cal_state" where
  "closeCreate s = s\<lparr>isOpen := False\<rparr>"

definition closeEdit :: "cal_state \<Rightarrow> cal_state" where
  "closeEdit s = s\<lparr>isOpenEdit := False\<rparr>"

text \<open>The state setter \<open>setDate\<close> handed to the creation form with \<open>date={date}\<close>: the
  form changes the day it is seeded with.\<close>

definition setDate :: "js_date \<Rightarrow> cal_state \<Rightarrow> cal_state" where
  "setDate d s = s\<lparr>date := d\<rparr>"

text \<open>\<open>deleteEvent\<close> of \<open>renderEventContent\<close>: \<open>eventInfo.event.remove()\<close>, then
  \<open>updateInteraction(id, {remindMe: false})\<close>, not awaited.\<close>

definition deleteEvent :: "doc_id \<Rightarrow> cal_state \<Rightarrow> cal_state" where
  "deleteEvent k s =
     s\<lparr>events := remove_first ev_id k (events s),
       tasks := tasks s @ [UpdateCall k (SetRemindMe False)]\<rparr>"

text \<open>\<open>eventChange\<close>: the widget has already moved the event (its new start, end and
  all-day flag are in \<open>changeInfo.event\<close>); \<open>updateEvent\<close> sends exactly the new start
  and end.\<close>

definition widget_move :: "doc_id \<Rightarrow> js_date \<Rightarrow> js_date option \<Rightarrow> bool \<Rightarrow> cal_event list \<Rightarrow> cal_event list" where
  "widget_move k st en ad evs =
     map (\<lambda>e. if ev_id e = k then e\<lparr>ev_start := st, ev_end := en, ev_allDay := ad\<rparr> else e) evs"

definition updateEvent :: "doc_id \<Rightarrow> js_date \<Rightarrow> js_date option \<Rightarrow> bool \<Rightarrow> cal_state \<Rightarrow> cal_state" where
  "updateEvent k st en ad s =
     s\<lparr>events := widget_move k st en ad (events s),
       tasks := tasks s @ [UpdateCall k (SetMeeting st en)]\<rparr>"

text \<open>The settlement of an \<open>updateInteraction\<close> call: the store applies the patch, or
  rejects it and the rejection is unhandled.\<close>

definition update_then :: "doc_id \<Rightarrow> interaction_patch \<Rightarrow> cal_state \<Rightarrow> cal_state" where
  "update_then k p s =
     (case updateInteraction (interactions s) k p of
        Inl e \<Rightarrow> s\<lparr>errors := errors s @ [StoreRejected e]\<rparr>
      | Inr db \<Rightarrow> s\<lparr>interactions := db\<rparr>)"

text \<open>\<open>handleEdit(id)\<close>: \<open>getInteraction(id).then(doc => {setEditDoc(doc); onOpenEdit()})\<close>.\<close>

definition handleEdit :: "doc_id \<Rightarrow> cal_state \<Rightarrow> cal_state" where
  "handleEdit k s = s\<lparr>tasks := tasks s @ [EditFetch k]\<rparr>"

text \<open>\<open>renderEventContent(eventInfo)\<close>: the detail renderer of a displayed event gets
  the two callbacks \<open>deleteEvent\<close> and \<open>editEvent\<close>, both bound to that event's id.\<close>

definition renderEventContent :: "cal_event \<Rightarrow> (cal_state \<Rightarrow> cal_state) \<times> (cal_state \<Rightarrow> cal_state)" where
  "renderEventContent ev = (deleteEvent (ev_id ev), handleEdit (ev_id ev))"

definition editFetch_then :: "doc_id \<Rightarrow> cal_state \<Rightarrow> cal_state" where
  "editFetch_then k s = s\<lparr>editDoc := getInteraction (interactions s) k, isOpenEdit := True\<rparr>"

text \<open>
  The interaction pop-up (an external component) writes the edited document and then
  calls \<open>afterUpdate\<close>: \<open>calendarApi.getEventById(editDoc.id).remove()\<close> (a
  \<open>TypeError\<close> when \<open>editDoc\<close> is null or no event has that id), then
  \<open>await getInteraction(editDoc.id)\<close> and \<open>addEvent(doc)\<close>.
\<close>

definition afterUpdate :: "cal_state \<Rightarrow> cal_state" where
  "afterUpdate s =
     (case editDoc s of
        None \<Rightarrow> s\<lparr>errors := errors s @ [TypeError ''editDoc is null'']\<rparr>
      | Some d \<Rightarrow>
          if i_id d \<in> ev_id ` set (events s)
          then s\<lparr>events := remove_first ev_id (i_id d) (events s),
                 tasks := tasks s @ [AfterUpdateFetch (i_id d)]\<rparr>
          else s\<lparr>errors := errors s @ [TypeError ''getEventById returned null'']\<rparr>)"

definition popupSave :: "interaction \<Rightarrow> cal_state \<Rightarrow> cal_state" where
  "popupSave d' s =
     (case editDoc s of
        None \<Rightarrow> s\<lparr>errors := errors s @ [TypeError ''editDoc is null'']\<rparr>
      | Some d \<Rightarrow>
          (case updateInteraction (interactions s) (i_id d) (EditDocument d') of
             Inl e \<Rightarrow> s\<lparr>errors := errors s @ [StoreRejected e]\<rparr>
           | Inr db \<Rightarrow> afterUpdate (s\<lparr>interactions := db\<rparr>)))"

definition afterUpdate_then :: "doc_id \<Rightarrow> cal_state \<Rightarrow> cal_state" where
  "afterUpdate_then k s =
     (case getInteraction (interactions s) k of
        None \<Rightarrow> s\<lparr>errors := errors s @ [TypeError ''doc is undefined'']\<rparr>
      | Some doc \<Rightarrow> s\<lparr>tasks := tasks s @ [AddEvent doc]\<rparr>)"

subsection \<open>The event loop\<close>

text \<open>Settling one task: it leaves the queue and its continuation runs.\<close>

fun run_task :: "cal_task \<Rightarrow> cal_state \<Rightarrow> cal_state" where
  "run_task LoadEvents s = loadEvents_then s"
| "run_task (AddEvent doc) s = addEvent_then doc s"
| "run_task (CreateThen title st en ad c dl tk ty nt) s = createThen title st en ad c dl tk ty nt s"
| "run_task (UpdateCall k p) s = update_then k p s"
| "run_task (EditFetch k) s = editFetch_then k s"
| "run_task (AfterUpdateFetch k) s = afterUpdate_then k s"

definition resolve :: "nat \<Rightarrow> cal_state \<Rightarrow> cal_state" where
  "resolve n s =
     (if n < length (tasks s)
      then run_task (tasks s ! n) (s\<lparr>tasks := take n (tasks s) @ drop (Suc n) (tasks s)\<rparr>)
      else s)"

definition resolve_fetch :: "nat \<Rightarrow> cal_state \<Rightarrow> cal_state" where
  "resolve_fetch n s =
     (if n < length (fetches s)
      then fetch_then (fetches s ! n) (s\<lparr>fetches := take n (fetches s) @ drop (Suc n) (fetches s)\<rparr>)
      else s)"

datatype cal_input =
    Mount
  | DateClick js_date
  | SubmitCreate string js_date string string bool doc_id doc_id doc_id string string
  | EventChange doc_id js_date "js_date option" bool
  | DeleteClick doc_id
  | EditClick doc_id
  | PopupSave interaction
  | CreateButton
  | FormDate js_date
  | CloseCreate
  | CloseEdit
  | Resolve nat
  | ResolveFetch nat

fun cal_step :: "cal_state \<Rightarrow> cal_input \<Rightarrow> cal_state" where
  "cal_step s Mount = mount s"
| "cal_step s (DateClick d) = handleDateSelected d s"
| "cal_step s (SubmitCreate title sd st et ad c dl tk ty nt) =
     createNewEventDate title sd st et ad c dl tk ty nt s"
| "cal_step s (EventChange k st en ad) = updateEvent k st en ad s"
| "cal_step s (DeleteClick k) = deleteEvent k s"
| "cal_step s (EditClick k) = handleEdit k s"
| "cal_step s (PopupSave d) = popupSave d s"
| "cal_step s CreateButton = openCreate s"
| "cal_step s (FormDate d) = setDate d s"
| "cal_step s CloseCreate = closeCreate s"
| "cal_step s CloseEdit = closeEdit s"
| "cal_step s (Resolve n) = resolve n s"
| "cal_step s (ResolveFetch n) = resolve_fetch n s"

definition cal_run :: "cal_state \<Rightarrow> cal_input list \<Rightarrow> cal_state" where
  "cal_run s inputs = foldl cal_step s inputs"

subsection \<open>The projection contract (spec, section 3 and 4.1)\<close>

text \<open>The displayed events the store calls for: one per \<open>remindMe\<close> interaction of the
  organisation, projected as \<open>addEvent\<close> projects it; \<open>None\<close> when some such
  document cannot be projected.\<close>

fun all_ok :: "('e + 'a) list \<Rightarrow> 'a list option" where
  "all_ok [] = Some []"
| "all_ok (Inl e # xs) = None"
| "all_ok (Inr x # xs) = map_option (Cons x) (all_ok xs)"

definition shown_docs :: "cal_state \<Rightarrow> interaction list" where
  "shown_docs s = filter remindMe (getInteractionsByOrg (interactions s) (org_id s))"

definition projection :: "cal_state \<Rightarrow> cal_event list option" where
  "projection s = all_ok (map (project_doc (contacts_db s)) (shown_docs s))"

definition synced :: "cal_state \<Rightarrow> bool" where
  "synced s \<longleftrightarrow>
     (case projection s of None \<Rightarrow> False | Some evs \<Rightarrow> mset (events s) = mset evs)"

text \<open>Proof devices for the loading phase: the pending \<open>addEvent\<close> calls, and the
  invariant that what the widget shows plus what those calls will add is the projection.\<close>

fun adds_of :: "cal_task list \<Rightarrow> interaction list option" where
  "adds_of [] = Some []"
| "adds_of (AddEvent d # ts) = map_option (Cons d) (adds_of ts)"
| "adds_of (_ # ts) = None"

definition load_inv :: "cal_event list \<Rightarrow> cal_state \<Rightarrow> bool" where
  "load_inv evs s \<longleftrightarrow>
     (if tasks s = [LoadEvents] then events s = []
      else case adds_of (tasks s) of
             None \<Rightarrow> False
           | Some ds \<Rightarrow> (case all_ok (map (project_doc (contacts_db s)) ds) of
                          None \<Rightarrow> False
                        | Some pe \<Rightarrow> mset (events s) + mset pe = mset evs))"

text \<open>The document \<open>createThen\<close> writes, named for the statements about creation.\<close>

definition new_doc ::
  "cal_state \<Rightarrow> string \<Rightarrow> js_date \<Rightarrow> js_date option \<Rightarrow> doc_id \<Rightarrow> doc_id \<Rightarrow> doc_id \<Rightarrow> string \<Rightarrow> string \<Rightarrow> interaction" where
  "new_doc s title start end c dl tk ty nt =
     \<lparr>i_id = fresh_id (map i_id (interactions s)), i_org = org_id s, i_contact = c,
      i_owner = user_id s, i_deal = dl, i_task = tk, meetingStart = start, meetingEnd = end,
      i_type = ty, i_notes = nt, i_name = title, remindMe = True, i_participants = [user_id s]\<rparr>"

subsection \<open>A small organisation used by the witnesses\<close>

text \<open>Three interactions of organisation \<open>o\<close>: one without a name whose contact is
  Ann, one dismissed (\<open>remindMe\<close> false), one named and timed.\<close>

definition demo_doc :: interaction where
  "demo_doc = \<lparr>i_id = ''a'', i_org = ''o'', i_contact = ''c1'', i_owner = ''u'', i_deal = [],
     i_task = [], meetingStart = JsDate 0, meetingEnd = None, i_type = [], i_notes = [],
     i_name = [], remindMe = True, i_participants = [''u'']\<rparr>"

definition demo_cal :: cal_state where
  "demo_cal = \<lparr>interactions = [demo_doc, demo_doc\<lparr>i_id := ''b'', remindMe := False\<rparr>,
       demo_doc\<lparr>i_id := ''c'', i_name := ''Sync'', meetingEnd := Some (JsDate 3600000)\<rparr>],
     contacts_db = [\<lparr>c_id = ''c1'', c_org = ''o'', c_name = ''Ann'', c_company = [],
       c_position = [], c_email = [], c_phoneNumber = [], c_notes = []\<rparr>],
     events = [], tasks = [], errors = [], toasts = [], date = JsDate 0, isOpen = False,
     editDoc = None, isOpenEdit = False, org_id = ''o'', user_id = ''u'',
     deals_db = [\<lparr>d_id = ''d1'', d_org = ''o'', d_name = ''Renewal''\<rparr>],
     tasks_db = [\<lparr>t_id = ''t1'', t_org = ''p'', t_name = ''Call back''\<rparr>],
     contactOpts = [], dealOpts = [], taskOpts = [], fetches = []\<rparr>"

text \<open>The same organisation after the mount and its three settlements.\<close>

definition demo_synced :: cal_state where
  "demo_synced = cal_run (mount demo_cal) (map Resolve [0, 1, 0])"

subsection \<open>Loading: the invariant and its preservation\<close>

lemma all_ok_Some_iff: "all_ok xs = Some ys \<longleftrightarrow> xs = map Inr ys"
proof (induction xs arbitrary: ys)
  case Nil then show ?case by auto
next
  case (Cons x xs)
  then show ?case by (cases x) auto
qed

lemma all_ok_map_Inr [simp]: "all_ok (map Inr xs) = Some xs"
  by (induction xs) auto

lemma adds_of_Some_iff: "adds_of ts = Some ds \<longleftrightarrow> ts = map AddEvent ds"
proof (induction ts arbitrary: ds)
  case Nil then show ?case by auto
next
  case (Cons t ts)
  then show ?case by (cases t) auto
qed

lemma adds_of_map [simp]: "adds_of (map AddEvent ds) = Some ds"
  by (simp add: adds_of_Some_iff)

lemma map_AddEvent_ne_load: "map AddEvent ds \<noteq> [LoadEvents]"
  by (cases ds) auto

lemma map_take_drop_nth:
  "take n (map f xs) @ drop (Suc n) (map f xs) = map f (take n xs @ drop (Suc n) xs)"
  by (simp add: take_map drop_map)

lemma mset_take_drop_nth:
  shows "n < length xs \<Longrightarrow> mset (take n xs @ drop (Suc n) xs) = mset xs - {#xs ! n#}"
proof -
  assume n: "n < length xs"
  have "mset xs = mset (take n xs @ xs ! n # drop (Suc n) xs)"
    using id_take_nth_drop [OF n] by simp
  then show ?thesis by simp
qed

lemma projection_cong:
  "interactions s' = interactions s \<Longrightarrow> contacts_db s' = contacts_db s \<Longrightarrow> org_id s' = org_id s \<Longrightarrow>
   projection s' = projection s"
  by (simp add: projection_def shown_docs_def)

lemma addEvent_then_store [simp]:
  "interactions (addEvent_then d s) = interactions s" "contacts_db (addEvent_then d s) = contacts_db s"
  "org_id (addEvent_then d s) = org_id s" "tasks (addEvent_then d s) = tasks s"
  by (simp_all add: addEvent_then_def split: sum.splits)

lemma addEvent_then_Inr:
  "project_doc (contacts_db s) d = Inr ev \<Longrightarrow> events (addEvent_then d s) = events s @ [ev]"
  by (simp add: addEvent_then_def)

lemma resolve_beyond [simp]: "length (tasks s) \<le> n \<Longrightarrow> resolve n s = s"
  by (simp add: resolve_def)

lemma resolve_load_step:
  assumes inv: "load_inv evs s" and pr: "projection s = Some evs"
  shows "load_inv evs (resolve n s) \<and> projection (resolve n s) = Some evs"
proof (cases "n < length (tasks s)")
  case False
  then show ?thesis using assms by simp
next
  case True
  show ?thesis
  proof (cases "tasks s = [LoadEvents]")
    case load: True
    then have n: "n = 0" using True by simp
    have "resolve n s = loadEvents_then (s\<lparr>tasks := []\<rparr>)"
      using load n by (simp add: resolve_def)
    moreover have "events s = []" using inv load by (simp add: load_inv_def)
    ultimately show ?thesis using pr
      by (auto simp: load_inv_def loadEvents_then_def adds_of_Some_iff projection_def
          shown_docs_def)
  next
    case adds: False
    then obtain ds pe where ts: "tasks s = map AddEvent ds"
      and pe: "map (project_doc (contacts_db s)) ds = map Inr pe"
      and ms: "mset (events s) + mset pe = mset evs"
      using inv by (auto simp: load_inv_def adds_of_Some_iff all_ok_Some_iff
          split: option.splits)
    have n: "n < length ds" and len: "length pe = length ds"
      using True ts pe map_eq_imp_length_eq by fastforce+
    have pd: "project_doc (contacts_db s) (ds ! n) = Inr (pe ! n)"
      using pe n by (metis nth_map len)
    define ds' where "ds' = take n ds @ drop (Suc n) ds"
    define pe' where "pe' = take n pe @ drop (Suc n) pe"
    have r: "resolve n s = addEvent_then (ds ! n) (s\<lparr>tasks := map AddEvent ds'\<rparr>)"
      using ts n by (simp add: resolve_def map_take_drop_nth ds'_def)
    have ev: "events (resolve n s) = events s @ [pe ! n]"
      using r pd by (simp add: addEvent_then_Inr)
    have ts': "tasks (resolve n s) = map AddEvent ds'"
      using r by simp
    have pe': "map (project_doc (contacts_db s)) ds' = map Inr pe'"
      using pe unfolding ds'_def pe'_def by (metis map_take_drop_nth)
    have m: "mset pe' = mset pe - {#pe ! n#}"
      unfolding pe'_def using n len by (intro mset_take_drop_nth) simp
    have inpe: "pe ! n \<in># mset pe" using n len by simp
    have "mset (events (resolve n s)) + mset pe' = mset (events s @ [pe ! n]) + (mset pe - {#pe ! n#})"
      by (simp only: ev m)
    also have "\<dots> = mset (events s) + add_mset (pe ! n) (mset pe - {#pe ! n#})" by simp
    also have "\<dots> = mset evs" using inpe ms by (simp add: insert_DiffM)
    finally have ms': "mset (events (resolve n s)) + mset pe' = mset evs" .
    have nl: "tasks (resolve n s) \<noteq> [LoadEvents]"
      unfolding ts' by (rule map_AddEvent_ne_load)
    have "contacts_db (resolve n s) = contacts_db s" using r by simp
    moreover have "projection (resolve n s) = projection s"
      using r by (intro projection_cong) simp_all
    ultimately show ?thesis using ts' pe' pr ms' nl
      by (simp add: load_inv_def all_ok_Some_iff)
  qed
qed

lemma cal_run_Cons [simp]: "cal_run s (x # xs) = cal_run (cal_step s x) xs"
  by (simp add: cal_run_def)

lemma cal_run_Nil [simp]: "cal_run s [] = s"
  by (simp add: cal_run_def)

lemma resolve_run_load_inv:
  "load_inv evs s \<Longrightarrow> projection s = Some evs \<Longrightarrow>
   load_inv evs (cal_run s (map Resolve ns)) \<and> projection (cal_run s (map Resolve ns)) = Some evs"
  by (induction ns arbitrary: s) (auto dest: resolve_load_step)

lemma mount_load_inv:
  "tasks s = [] \<Longrightarrow> projection s = Some evs \<Longrightarrow> load_inv evs (mount s) \<and> projection (mount s) = Some evs"
  by (simp add: load_inv_def mount_def clearEvents_def projection_def shown_docs_def)

text \<open>C1. Whatever order the event loop settles the mount's asynchronous calls in, once
  none is left in flight the widget shows exactly the projection of the organisation's
  \<open>remindMe\<close> interactions (as a multiset: the order is completion order), provided
  every such interaction can be projected.\<close>

theorem load_synced:
  assumes "projection s \<noteq> None" and "tasks s = []"
    and "tasks (cal_run (mount s) (map Resolve ns)) = []"
  shows "synced (cal_run (mount s) (map Resolve ns))"
proof -
  obtain evs where pr: "projection s = Some evs" using assms(1) by auto
  let ?s' = "cal_run (mount s) (map Resolve ns)"
  have "load_inv evs ?s' \<and> projection ?s' = Some evs"
    using mount_load_inv [OF assms(2) pr] resolve_run_load_inv [of evs "mount s" ns] by simp
  then show ?thesis using assms(3)
    by (simp add: load_inv_def synced_def)
qed

lemma resolve_add_head:
  "tasks s = AddEvent d # ts \<Longrightarrow> resolve 0 s = addEvent_then d (s\<lparr>tasks := ts\<rparr>)"
  by (simp add: resolve_def)

lemma adds_drain:
  "tasks s = map AddEvent ds \<Longrightarrow> tasks (cal_run s (replicate (length ds) (Resolve 0))) = []"
proof (induction ds arbitrary: s)
  case Nil
  then show ?case by simp
next
  case (Cons d ds)
  then have "tasks (resolve 0 s) = map AddEvent ds" by (simp add: resolve_add_head)
  then show ?case using Cons.IH by simp
qed

text \<open>C2. The mount's loading terminates: settling the first pending call one more time than
  there are \<open>remindMe\<close> interactions leaves nothing in flight.\<close>

theorem load_drains:
  assumes "tasks s = []"
  shows "tasks (cal_run (mount s) (replicate (Suc (length (shown_docs s))) (Resolve 0))) = []"
proof -
  have "tasks (mount s) = [LoadEvents]" using assms by (simp add: mount_def clearEvents_def)
  then have "tasks (resolve 0 (mount s)) = map AddEvent (shown_docs (mount s))"
    by (simp add: resolve_def loadEvents_then_def shown_docs_def)
  moreover have "shown_docs (mount s) = shown_docs s"
    by (simp add: mount_def clearEvents_def shown_docs_def)
  ultimately show ?thesis using adds_drain by simp
qed

lemma project_doc_shape:
  "project_doc cdb d = Inr e \<Longrightarrow> ev_id e = i_id d \<and> ev_allDay e = (ev_end e = None)"
  by (auto simp: project_doc_def event_of_doc_def split: if_splits option.splits)

lemma map_Inr_shape:
  "map (project_doc cdb) ds = map Inr evs \<Longrightarrow>
   map ev_id evs = map i_id ds \<and> (\<forall>e\<in>set evs. ev_allDay e = (ev_end e = None))"
proof (induction ds arbitrary: evs)
  case Nil then show ?case by simp
next
  case (Cons d ds)
  then obtain e evs' where "evs = e # evs'" by (cases evs) auto
  with Cons show ?case by (auto dest: project_doc_shape)
qed

lemma synced_errors [simp]: "synced (s\<lparr>errors := e\<rparr>) = synced s"
  by (simp add: synced_def projection_def shown_docs_def split: option.splits)

lemma synced_projection:
  "synced s \<Longrightarrow> \<exists>evs. map (project_doc (contacts_db s)) (shown_docs s) = map Inr evs \<and> mset (events s) = mset evs"
  by (auto simp: synced_def projection_def all_ok_Some_iff split: option.splits)

lemma synced_intro:
  "map (project_doc (contacts_db s)) (shown_docs s) = map Inr evs \<Longrightarrow> mset (events s) = mset evs \<Longrightarrow> synced s"
  by (simp add: synced_def projection_def)

lemma synced_ids: "synced s \<Longrightarrow> ev_id ` set (events s) = i_id ` set (shown_docs s)"
proof -
  assume "synced s"
  then obtain evs where pr: "map (project_doc (contacts_db s)) (shown_docs s) = map Inr evs"
    and ms: "mset (events s) = mset evs" using synced_projection by blast
  have "map ev_id evs = map i_id (shown_docs s)" using map_Inr_shape [OF pr] by simp
  moreover have "set (events s) = set evs" using ms by (metis set_mset_mset)
  ultimately show ?thesis by (metis list.set_map)
qed

lemma synced_distinct_events:
  assumes "synced s" and "distinct (map i_id (interactions s))"
  shows "distinct (map ev_id (events s))"
proof -
  obtain evs where pr: "map (project_doc (contacts_db s)) (shown_docs s) = map Inr evs"
    and ms: "mset (events s) = mset evs" using synced_projection [OF assms(1)] by blast
  have "distinct (map i_id (shown_docs s))"
    using assms(2) by (simp add: shown_docs_def getInteractionsByOrg_def distinct_map_filter)
  then have "distinct (map ev_id evs)" using map_Inr_shape [OF pr] by simp
  moreover have "mset (map ev_id (events s)) = mset (map ev_id evs)" using ms by simp
  ultimately show ?thesis by (metis mset_eq_imp_distinct_iff)
qed

lemma synced_allDay:
  "synced s \<Longrightarrow> \<forall>e\<in>set (events s). ev_allDay e = (ev_end e = None)"
proof -
  assume "synced s"
  then obtain evs where pr: "map (project_doc (contacts_db s)) (shown_docs s) = map Inr evs"
    and ms: "mset (events s) = mset evs" using synced_projection by blast
  have "set (events s) = set evs" using ms by (metis set_mset_mset)
  then show ?thesis using map_Inr_shape [OF pr] by simp
qed

text \<open>C3. In a synchronised widget (ids unique in the store) there is exactly one event per
  \<open>remindMe\<close> interaction of the organisation, and an event is all-day exactly when it
  has no end.\<close>

theorem synced_events_shape:
  assumes "synced s" and "distinct (map i_id (interactions s))"
  shows "distinct (map ev_id (events s)) \<and> ev_id ` set (events s) = i_id ` set (shown_docs s)
     \<and> (\<forall>e\<in>set (events s). ev_allDay e = (ev_end e = None))"
  using synced_distinct_events [OF assms] synced_ids [OF assms(1)] synced_allDay [OF assms(1)]
  by blast

subsection \<open>Deleting, moving, creating: functional behaviour and synchronisation\<close>

lemma resolve_last:
  "resolve (length (tasks s)) (s\<lparr>tasks := tasks s @ [t]\<rparr>) = run_task t s"
  by (simp add: resolve_def)

lemma resolve_last_gen:
  "tasks s' = tasks s @ [t] \<Longrightarrow> resolve (length (tasks s)) s' = run_task t (s'\<lparr>tasks := tasks s\<rparr>)"
  by (simp add: resolve_def)

lemma apply_patch_id [simp]: "i_id (apply_patch p d) = i_id d"
  by (cases p) simp_all

lemma updateInteraction_get:
  assumes "distinct (map i_id c)" and "updateInteraction c k p = Inr c'"
  shows "getInteraction c' k' = (if k' = k then map_option (apply_patch p) (getInteraction c k) else getInteraction c k')"
  using coll_update_get [OF assms(1) assms(2) [unfolded updateInteraction_def]]
  by (simp add: getInteraction_def)

lemma updateInteraction_ok:
  "k \<in> i_id ` set c \<Longrightarrow> updateInteraction c k p = Inr (map (\<lambda>d. if i_id d = k then apply_patch p d else d) c)"
  by (simp add: updateInteraction_def coll_update_def)

lemma getInteraction_in: "getInteraction c k = Some d \<Longrightarrow> k \<in> i_id ` set c"
  by (auto simp: getInteraction_def coll_get_def dest: find_key_Some)

text \<open>C4. Deleting an event is a soft delete: the event leaves the widget at once, and once
  the update settles the interaction is still in the store, with \<open>remindMe\<close> false.\<close>
theorem delete_event_soft:
  assumes "distinct (map ev_id (events s))" and "distinct (map i_id (interactions s))"
    and "getInteraction (interactions s) k = Some d"
  shows "ev_id ` set (events (deleteEvent k s)) = ev_id ` set (events s) - {k}
    \<and> getInteraction (interactions (resolve (length (tasks s)) (deleteEvent k s))) k
        = Some (d\<lparr>remindMe := False\<rparr>)"
proof -
  have ev: "events (deleteEvent k s) = filter (\<lambda>e. ev_id e \<noteq> k) (events s)"
    using assms(1) by (simp add: deleteEvent_def remove_first_distinct)
  have r: "resolve (length (tasks s)) (deleteEvent k s)
           = update_then k (SetRemindMe False) (s\<lparr>events := remove_first ev_id k (events s)\<rparr>)"
    by (simp add: deleteEvent_def resolve_def)
  obtain c' where up: "updateInteraction (interactions s) k (SetRemindMe False) = Inr c'"
    using updateInteraction_ok [OF getInteraction_in [OF assms(3)]] by blast
  have "getInteraction c' k = Some (d\<lparr>remindMe := False\<rparr>)"
    using updateInteraction_get [OF assms(2) up, of k] assms(3) by simp
  then show ?thesis using ev r up by (auto simp: update_then_def)
qed

lemma project_filter_id:
  "map (project_doc cdb) ds = map Inr evs \<Longrightarrow>
   map (project_doc cdb) (filter (\<lambda>d. i_id d \<noteq> k) ds) = map Inr (filter (\<lambda>e. ev_id e \<noteq> k) evs)"
proof (induction ds arbitrary: evs)
  case Nil then show ?case by simp
next
  case (Cons d ds)
  then obtain e evs' where "evs = e # evs'" by (cases evs) auto
  with Cons show ?case by (auto dest: project_doc_shape)
qed

lemma shown_after_dismiss:
  "filter (\<lambda>d. i_org d = og \<and> remindMe d)
      (map (\<lambda>d. if i_id d = k then apply_patch (SetRemindMe False) d else d) c)
   = filter (\<lambda>d. i_org d = og \<and> remindMe d \<and> i_id d \<noteq> k) c"
  by (induction c) auto

lemma synced_after_delete:
  assumes "synced s" and "distinct (map i_id (interactions s))"
  shows "synced (resolve (length (tasks s)) (deleteEvent k s))"
proof -
  have dist: "distinct (map ev_id (events s))"
    using synced_distinct_events [OF assms] .
  obtain evs where pr: "map (project_doc (contacts_db s)) (shown_docs s) = map Inr evs"
    and ms: "mset (events s) = mset evs" using synced_projection [OF assms(1)] by blast
  have r: "resolve (length (tasks s)) (deleteEvent k s)
           = update_then k (SetRemindMe False) (s\<lparr>events := filter (\<lambda>e. ev_id e \<noteq> k) (events s)\<rparr>)"
    using dist by (simp add: deleteEvent_def resolve_def remove_first_distinct)
  show ?thesis
  proof (cases "k \<in> i_id ` set (interactions s)")
    case True
    let ?s' = "s\<lparr>events := filter (\<lambda>e. ev_id e \<noteq> k) (events s),
       interactions := map (\<lambda>d. if i_id d = k then apply_patch (SetRemindMe False) d else d) (interactions s)\<rparr>"
    have eq: "resolve (length (tasks s)) (deleteEvent k s) = ?s'"
      using r updateInteraction_ok [OF True] by (simp add: update_then_def)
    have "shown_docs ?s' = filter (\<lambda>d. i_id d \<noteq> k) (shown_docs s)"
      by (simp add: shown_docs_def getInteractionsByOrg_def shown_after_dismiss del: apply_patch.simps)
    then have "map (project_doc (contacts_db ?s')) (shown_docs ?s') = map Inr (filter (\<lambda>e. ev_id e \<noteq> k) evs)"
      using project_filter_id [OF pr] by simp
    moreover have "mset (events ?s') = mset (filter (\<lambda>e. ev_id e \<noteq> k) evs)"
      using ms by (simp add: mset_filter)
    ultimately show ?thesis using eq synced_intro by metis
  next
    case False
    then have "k \<notin> ev_id ` set (events s)"
      using synced_ids [OF assms(1)] by (auto simp: shown_docs_def getInteractionsByOrg_def)
    then have "filter (\<lambda>e. ev_id e \<noteq> k) (events s) = events s" by (auto intro: filter_True)
    moreover have "updateInteraction (interactions s) k (SetRemindMe False) = Inl (NotFound k)"
      using False by (simp add: updateInteraction_def coll_update_def)
    ultimately have "resolve (length (tasks s)) (deleteEvent k s) = s\<lparr>errors := errors s @ [StoreRejected (NotFound k)]\<rparr>"
      using r by (simp add: update_then_def)
    then show ?thesis using assms(1) by (simp add: synced_errors)
  qed
qed

text \<open>C5. Deleting an event keeps a synchronised widget synchronised once the update settles
  (also when the document is gone from the store and the update is rejected).\<close>
theorem delete_keeps_synced:
  assumes "synced s" and "distinct (map i_id (interactions s))"
  shows "synced (resolve (length (tasks s)) (deleteEvent k s))"
  using assms by (rule synced_after_delete)

text \<open>C6. Dragging an event updates only the interaction's start and end; every other field
  and every other interaction is left as it was.\<close>
theorem drag_updates_only_times:
  assumes "distinct (map i_id (interactions s))" and "getInteraction (interactions s) k = Some d"
  shows "getInteraction (interactions (resolve (length (tasks s)) (updateEvent k st en ad s))) k
           = Some (d\<lparr>meetingStart := st, meetingEnd := en\<rparr>)
    \<and> (\<forall>k'. k' \<noteq> k \<longrightarrow>
          getInteraction (interactions (resolve (length (tasks s)) (updateEvent k st en ad s))) k'
          = getInteraction (interactions s) k')"
proof -
  obtain c' where up: "updateInteraction (interactions s) k (SetMeeting st en) = Inr c'"
    using updateInteraction_ok [OF getInteraction_in [OF assms(2)]] by blast
  have r: "interactions (resolve (length (tasks s)) (updateEvent k st en ad s)) = c'"
    using up by (simp add: updateEvent_def resolve_def update_then_def)
  show ?thesis using updateInteraction_get [OF assms(1) up] assms(2) r by simp
qed

lemma updateInteraction_ids:
  "updateInteraction c k p = Inr c' \<Longrightarrow> map i_id c' = map i_id c"
  unfolding updateInteraction_def by (erule coll_update_keys) simp

lemma createNewInteraction_ids:
  "distinct (map i_id c) \<Longrightarrow>
   distinct (map i_id (snd (createNewInteraction c og ct u dl st ty nt tk r ti en ps)))"
  unfolding createNewInteraction_def by (rule coll_add_distinct) simp_all

lemma run_task_ids:
  "distinct (map i_id (interactions s)) \<Longrightarrow> distinct (map i_id (interactions (run_task t s)))"
proof (cases t)
  case (CreateThen title st en ad c dl tk ty nt)
  assume d: "distinct (map i_id (interactions s))"
  then show ?thesis using CreateThen createNewInteraction_ids [OF d]
    by (simp add: createThen_def split: prod.splits) (metis snd_conv)
qed (auto simp: loadEvents_then_def addEvent_then_def update_then_def editFetch_then_def
    afterUpdate_then_def dest: updateInteraction_ids split: sum.splits option.splits)

lemma afterUpdate_ids [simp]: "interactions (afterUpdate s) = interactions s"
  by (simp add: afterUpdate_def split: option.splits)

lemma fetch_then_state [simp]:
  "interactions (fetch_then f s) = interactions s" "contacts_db (fetch_then f s) = contacts_db s"
  "events (fetch_then f s) = events s" "tasks (fetch_then f s) = tasks s"
  "errors (fetch_then f s) = errors s" "toasts (fetch_then f s) = toasts s"
  "editDoc (fetch_then f s) = editDoc s" "isOpenEdit (fetch_then f s) = isOpenEdit s"
  "org_id (fetch_then f s) = org_id s" "user_id (fetch_then f s) = user_id s"
  "deals_db (fetch_then f s) = deals_db s" "tasks_db (fetch_then f s) = tasks_db s"
  "fetches (fetch_then f s) = fetches s" "date (fetch_then f s) = date s"
  "isOpen (fetch_then f s) = isOpen s"
  by (cases f; simp)+

lemma resolve_fetch_state [simp]:
  "interactions (resolve_fetch n s) = interactions s" "contacts_db (resolve_fetch n s) = contacts_db s"
  "events (resolve_fetch n s) = events s" "tasks (resolve_fetch n s) = tasks s"
  "errors (resolve_fetch n s) = errors s" "toasts (resolve_fetch n s) = toasts s"
  "editDoc (resolve_fetch n s) = editDoc s" "isOpenEdit (resolve_fetch n s) = isOpenEdit s"
  "org_id (resolve_fetch n s) = org_id s" "user_id (resolve_fetch n s) = user_id s"
  "deals_db (resolve_fetch n s) = deals_db s" "tasks_db (resolve_fetch n s) = tasks_db s"
  by (simp_all add: resolve_fetch_def)

lemma cal_step_ids:
  "distinct (map i_id (interactions s)) \<Longrightarrow> distinct (map i_id (interactions (cal_step s x)))"
proof (cases x)
  case (Resolve n)
  assume "distinct (map i_id (interactions s))"
  then show ?thesis using Resolve run_task_ids by (simp add: resolve_def)
next
  case (PopupSave d')
  assume "distinct (map i_id (interactions s))"
  then show ?thesis using PopupSave
    by (auto simp: popupSave_def dest: updateInteraction_ids split: option.splits sum.splits)
qed (simp_all add: mount_def clearEvents_def handleDateSelected_def createNewEventDate_def
    updateEvent_def deleteEvent_def handleEdit_def openCreate_def closeCreate_def closeEdit_def setDate_def Let_def)

lemma create_settled_state:
  "resolve (length (tasks s)) (createNewEventDate title sd st et ad c dl tk ty nt s) =
   (let start = clock_time sd st;
        end = (if et \<noteq> [] \<and> \<not> ad then Some (clock_time sd et) else None);
        nd = new_doc s title start end c dl tk ty nt
    in s\<lparr>interactions := interactions s @ [nd],
         events := events s @ [\<lparr>ev_id = i_id nd, ev_title = title, ev_start = start,
                                ev_end = end, ev_allDay = ad\<rparr>],
         toasts := toasts s @ [''Interaction Successfully Added'']\<rparr>)"
  by (simp add: createNewEventDate_def resolve_def createThen_def createNewInteraction_def
      coll_add_def new_doc_def Let_def)

text \<open>C7. Creating an interaction, once its call settles, appends exactly one document (fresh
  id, \<open>remindMe\<close> true, the given fields, the user as owner and participant) and one
  widget event with that id and the parsed times, and shows a success notification.\<close>
theorem create_settles:
  "interactions (resolve (length (tasks s)) (createNewEventDate title sd st et ad c dl tk ty nt s))
     = interactions s @ [new_doc s title (clock_time sd st)
         (if et \<noteq> [] \<and> \<not> ad then Some (clock_time sd et) else None) c dl tk ty nt]
   \<and> fresh_id (map i_id (interactions s)) \<notin> i_id ` set (interactions s)
   \<and> events (resolve (length (tasks s)) (createNewEventDate title sd st et ad c dl tk ty nt s))
     = events s @ [\<lparr>ev_id = fresh_id (map i_id (interactions s)), ev_title = title,
         ev_start = clock_time sd st,
         ev_end = (if et \<noteq> [] \<and> \<not> ad then Some (clock_time sd et) else None), ev_allDay = ad\<rparr>]
   \<and> toasts (resolve (length (tasks s)) (createNewEventDate title sd st et ad c dl tk ty nt s))
     = toasts s @ [''Interaction Successfully Added'']"
  using fresh_id_fresh [of "map i_id (interactions s)"]
  by (simp add: createNewEventDate_def resolve_def createThen_def createNewInteraction_def
      coll_add_def new_doc_def Let_def image_iff)

lemma project_new_doc:
  "project_doc cdb (new_doc s title start end c dl tk ty nt) = Inr e \<Longrightarrow> title \<noteq> [] \<Longrightarrow>
   e = \<lparr>ev_id = fresh_id (map i_id (interactions s)), ev_title = title, ev_start = start,
        ev_end = end, ev_allDay = (end = None)\<rparr>"
  by (simp add: project_doc_def event_of_doc_def new_doc_def)

lemma project_new_doc_untitled:
  "project_doc cdb (new_doc s [] start end c dl tk ty nt) = Inr e \<Longrightarrow> ev_title e \<noteq> []"
  by (auto simp: project_doc_def event_of_doc_def new_doc_def split: option.splits)

lemma synced_after_create_iff:
  assumes "synced s"
  shows "synced (resolve (length (tasks s)) (createNewEventDate title sd st et ad c dl tk ty nt s))
         \<longleftrightarrow> title \<noteq> [] \<and> (ad \<or> et \<noteq> [])"
proof -
  obtain evs where pr: "map (project_doc (contacts_db s)) (shown_docs s) = map Inr evs"
    and ms: "mset (events s) = mset evs" using synced_projection [OF assms] by blast
  define start where "start = clock_time sd st"
  define en where "en = (if et \<noteq> [] \<and> \<not> ad then Some (clock_time sd et) else None)"
  define nd where "nd = new_doc s title start en c dl tk ty nt"
  define ce where "ce = \<lparr>ev_id = i_id nd, ev_title = title, ev_start = start, ev_end = en, ev_allDay = ad\<rparr>"
  let ?s' = "resolve (length (tasks s)) (createNewEventDate title sd st et ad c dl tk ty nt s)"
  have st': "?s' = s\<lparr>interactions := interactions s @ [nd], events := events s @ [ce],
        toasts := toasts s @ [''Interaction Successfully Added'']\<rparr>"
    by (simp add: create_settled_state start_def en_def nd_def ce_def Let_def)
  have sh: "shown_docs ?s' = shown_docs s @ [nd]"
    by (simp add: st' shown_docs_def getInteractionsByOrg_def nd_def new_doc_def)
  have cdb: "contacts_db ?s' = contacts_db s" by (simp add: st')
  have "synced ?s' \<longleftrightarrow> (\<exists>e. project_doc (contacts_db s) nd = Inr e \<and> e = ce)"
  proof (cases "project_doc (contacts_db s) nd")
    case (Inl err)
    have "projection ?s' = all_ok (map Inr evs @ [Inl err])"
      using pr Inl by (simp add: projection_def sh cdb)
    also have "\<dots> = None" by (induction evs) auto
    finally have "projection ?s' = None" .
    then show ?thesis using Inl by (simp add: synced_def)
  next
    case (Inr e)
    have "projection ?s' = all_ok (map Inr evs @ [Inr e] :: (js_error + cal_event) list)"
      using pr Inr by (simp add: projection_def sh cdb)
    also have "\<dots> = Some (evs @ [e])" by (induction evs) auto
    finally have "projection ?s' = Some (evs @ [e])" .
    then have "synced ?s' \<longleftrightarrow> mset (events s) + {#ce#} = mset evs + {#e#}"
      by (simp add: synced_def st')
    also have "\<dots> \<longleftrightarrow> e = ce" using ms by auto
    finally show ?thesis using Inr by auto
  qed
  also have "\<dots> \<longleftrightarrow> title \<noteq> [] \<and> (ad \<or> et \<noteq> [])"
  proof (cases "title = []")
    case True
    then show ?thesis using project_new_doc_untitled [of "contacts_db s" s start en c dl tk ty nt]
      by (auto simp: nd_def ce_def)
  next
    case False
    have "project_doc (contacts_db s) nd = Inr \<lparr>ev_id = i_id nd, ev_title = title, ev_start = start,
        ev_end = en, ev_allDay = (en = None)\<rparr>"
      using False by (simp add: project_doc_def event_of_doc_def nd_def new_doc_def)
    then show ?thesis using False by (auto simp: ce_def en_def)
  qed
  finally show ?thesis .
qed

text \<open>C8. The event the creation adds is the projection of the new document, so a synchronised
  widget stays synchronised, exactly when the title is non-empty and the event is all-day or
  has an end time; otherwise the widget shows an event the next load would show differently.\<close>
theorem create_synced_iff:
  assumes "synced s"
  shows "synced (resolve (length (tasks s)) (createNewEventDate title sd st et ad c dl tk ty nt s))
         \<longleftrightarrow> title \<noteq> [] \<and> (ad \<or> et \<noteq> [])"
  using assms by (rule synced_after_create_iff)

subsection \<open>Time parsing, editing, and a race with the initial load\<close>

lemma time_clip_ok: "\<bar>t\<bar> \<le> 8640000000000000 \<Longrightarrow> time_clip t = JsDate t"
  by (simp add: time_clip_def)

text \<open>C9. An \<open>HH:MM\<close> string, as a time input produces it, is read back exactly: the
  instant is the start of the chosen day plus those hours and minutes, and it stays within
  that day.\<close>
theorem clock_time_format:
  assumes "h < 24" and "m < 60"
    and "\<bar>day_start t + int h * 3600000 + int m * 60000\<bar> \<le> 8640000000000000"
  shows "clock_time (JsDate t) (format_hhmm h m) = JsDate (day_start t + int h * 3600000 + int m * 60000)
    \<and> day_start (day_start t + int h * 3600000 + int m * 60000) = day_start t"
proof -
  have p: "clock_time (JsDate t) (format_hhmm h m) = time_clip (day_start t + int h * 3600000 + int m * 60000)"
    by (simp add: clock_time_def parse_format_hhmm day_start_def js_index_def)
  have "int h * 3600000 + int m * 60000 < ms_per_day" using assms(1,2) by (simp add: ms_per_day_def)
  then have "day_start (day_start t + (int h * 3600000 + int m * 60000)) = day_start t"
    by (intro day_start_shift) simp_all
  then show ?thesis using p assms(3) by (simp add: time_clip_ok add.assoc)
qed

lemma set_hours_nan_min [simp]: "set_hours d h None = InvalidDate"
  by (cases d; cases h) simp_all

text \<open>C10. A time string without a colon (\<open>"0900"\<close>, \<open>"9"\<close>) has no minutes part:
  \<open>setHours\<close> receives \<open>undefined\<close>, and the instant is the invalid date; no error is
  reported.\<close>
theorem clock_time_no_colon:
  "CHR '':'' \<notin> set str \<Longrightarrow> clock_time d str = InvalidDate"
  by (simp add: clock_time_def split_on_free js_index_def)

text \<open>C12. Creating an interaction while the mount's fetch is still in flight shows it
  twice: when the creation settles before the load (whatever the organisation and the
  titled interaction), the creation's \<open>.then\<close> adds its event, the load then queues an
  \<open>addEvent\<close> for the new document too, and settling that call gives the widget a
  second event with the same id.\<close>

theorem create_during_load_duplicates:
  assumes "tasks s = []" and "title \<noteq> []"
  shows "\<not> distinct (map ev_id (events (resolve (length (shown_docs s))
           (cal_run (mount s) [SubmitCreate title sd st et ad c dl tk ty nt, Resolve 1, Resolve 0]))))"
  using assms
  by (simp add: mount_def clearEvents_def createNewEventDate_def resolve_def createThen_def
      createNewInteraction_def coll_add_def loadEvents_then_def getInteractionsByOrg_def shown_docs_def
      addEvent_then_def project_doc_def event_of_doc_def nth_append Let_def)

lemma edit_settled_state:
  assumes ed: "editDoc s = Some d" and shown: "i_id d \<in> ev_id ` set (events s)"
    and st: "i_id d \<in> i_id ` set (interactions s)" and dist: "distinct (map i_id (interactions s))"
    and pr: "project_doc (contacts_db s) (d'\<lparr>i_id := i_id d\<rparr>) = Inr e"
  shows "resolve (length (tasks s)) (resolve (length (tasks s)) (popupSave d' s)) =
         s\<lparr>interactions := map (\<lambda>x. if i_id x = i_id d then d'\<lparr>i_id := i_id d\<rparr> else x) (interactions s),
           events := remove_first ev_id (i_id d) (events s) @ [e]\<rparr>"
proof -
  let ?k = "i_id d"
  define db where "db = map (\<lambda>x. if i_id x = ?k then d'\<lparr>i_id := ?k\<rparr> else x) (interactions s)"
  have up: "updateInteraction (interactions s) ?k (EditDocument d') = Inr db"
    using updateInteraction_ok [OF st, of "EditDocument d'"] by (simp add: db_def cong: if_cong)
  have get: "getInteraction db ?k = Some (d'\<lparr>i_id := ?k\<rparr>)"
  proof -
    have "getInteraction (interactions s) ?k \<noteq> None"
      using st by (simp add: getInteraction_def coll_get_def)
    then obtain x where "getInteraction (interactions s) ?k = Some x" by blast
    moreover have "i_id x = ?k" using calculation
      by (auto simp: getInteraction_def coll_get_def dest: find_key_Some)
    ultimately show ?thesis using updateInteraction_get [OF dist up, of ?k] by simp
  qed
  let ?s1 = "s\<lparr>interactions := db, events := remove_first ev_id ?k (events s),
                tasks := tasks s @ [AfterUpdateFetch ?k]\<rparr>"
  have s1: "popupSave d' s = ?s1"
    using ed up shown by (simp add: popupSave_def afterUpdate_def)
  have s2: "resolve (length (tasks s)) ?s1 =
            s\<lparr>interactions := db, events := remove_first ev_id ?k (events s),
              tasks := tasks s @ [AddEvent (d'\<lparr>i_id := ?k\<rparr>)]\<rparr>"
    using get by (simp add: resolve_def afterUpdate_then_def)
  have "resolve (length (tasks s)) (resolve (length (tasks s)) (popupSave d' s)) =
        resolve (length (tasks s)) (s\<lparr>interactions := db, events := remove_first ev_id ?k (events s),
              tasks := tasks s @ [AddEvent (d'\<lparr>i_id := ?k\<rparr>)]\<rparr>)"
    by (simp only: s1 s2)
  then show ?thesis
    using pr by (simp add: resolve_def addEvent_then_def db_def)
qed

text \<open>C11. After an edit, \<open>afterUpdate\<close> removes the event and adds back the projection of
  the edited document without looking at \<open>remindMe\<close>.\<close>
theorem edit_readds_unfiltered:
  assumes ed: "editDoc s = Some d" and shown: "i_id d \<in> ev_id ` set (events s)"
    and st: "i_id d \<in> i_id ` set (interactions s)" and dist: "distinct (map i_id (interactions s))"
    and pr: "project_doc (contacts_db s) (d'\<lparr>i_id := i_id d\<rparr>) = Inr e"
  shows "events (resolve (length (tasks s)) (resolve (length (tasks s)) (popupSave d' s)))
         = remove_first ev_id (i_id d) (events s) @ [e]"
  using edit_settled_state [OF assms] by simp

text \<open>Consequence: an edit that clears \<open>remindMe\<close> leaves the interaction on the calendar,
  and the widget no longer matches the store.\<close>

theorem edit_dismissed_still_shown:
  "''a'' \<in> ev_id ` set (events (cal_run demo_synced [EditClick ''a'', Resolve 0,
      PopupSave (demo_doc\<lparr>remindMe := False\<rparr>), Resolve 0, Resolve 0])) \<and>
   \<not> remindMe (the (getInteraction (interactions (cal_run demo_synced [EditClick ''a'', Resolve 0,
      PopupSave (demo_doc\<lparr>remindMe := False\<rparr>), Resolve 0, Resolve 0])) ''a'')) \<and>
   \<not> synced (cal_run demo_synced [EditClick ''a'', Resolve 0,
      PopupSave (demo_doc\<lparr>remindMe := False\<rparr>), Resolve 0, Resolve 0])"
  by code_simp

subsection \<open>Witnesses\<close>

theorem load_synced_witness:
  "projection demo_cal \<noteq> None \<and> tasks demo_cal = [] \<and>
   tasks (cal_run (mount demo_cal) (map Resolve [0, 1, 0])) = [] \<and>
   synced (cal_run (mount demo_cal) (map Resolve [0, 1, 0]))"
proof -
  have a: "projection demo_cal \<noteq> None" by code_simp
  have b: "tasks demo_cal = []" by code_simp
  have c: "tasks (cal_run (mount demo_cal) (map Resolve [0, 1, 0])) = []" by code_simp
  show ?thesis using a b c load_synced [OF a b c] by blast
qed

theorem load_drains_witness:
  "tasks demo_cal = [] \<and>
   tasks (cal_run (mount demo_cal) (replicate (Suc (length (shown_docs demo_cal))) (Resolve 0))) = []"
proof -
  have a: "tasks demo_cal = []" by code_simp
  show ?thesis using a load_drains [OF a] by blast
qed

theorem synced_events_shape_witness:
  "synced (cal_run (mount demo_cal) (map Resolve [0, 1, 0])) \<and>
   distinct (map i_id (interactions (cal_run (mount demo_cal) (map Resolve [0, 1, 0])))) \<and>
   distinct (map ev_id (events (cal_run (mount demo_cal) (map Resolve [0, 1, 0]))))"
proof -
  let ?s = "cal_run (mount demo_cal) (map Resolve [0, 1, 0])"
  have a: "synced ?s" by code_simp
  have b: "distinct (map i_id (interactions ?s))" by code_simp
  show ?thesis using a b synced_events_shape [OF a b] by blast
qed

theorem delete_event_soft_witness:
  "distinct (map ev_id (events demo_synced)) \<and> distinct (map i_id (interactions demo_synced)) \<and>
   getInteraction (interactions demo_synced) ''a'' = Some demo_doc \<and>
   ev_id ` set (events (deleteEvent ''a'' demo_synced)) = {''c''} \<and>
   getInteraction (interactions (resolve (length (tasks demo_synced)) (deleteEvent ''a'' demo_synced))) ''a''
     = Some (demo_doc\<lparr>remindMe := False\<rparr>)"
proof -
  have a: "distinct (map ev_id (events demo_synced))" by code_simp
  have b: "distinct (map i_id (interactions demo_synced))" by code_simp
  have c: "getInteraction (interactions demo_synced) ''a'' = Some demo_doc" by code_simp
  have e: "ev_id ` set (events demo_synced) - {''a''} = {''c''}" by code_simp
  show ?thesis using a b c e delete_event_soft [OF a b c] by simp
qed

theorem delete_keeps_synced_witness:
  "synced demo_synced \<and> distinct (map i_id (interactions demo_synced)) \<and>
   synced (resolve (length (tasks demo_synced)) (deleteEvent ''a'' demo_synced))"
proof -
  have a: "synced demo_synced" by code_simp
  have b: "distinct (map i_id (interactions demo_synced))" by code_simp
  show ?thesis using a b delete_keeps_synced [OF a b] by blast
qed

theorem drag_updates_only_times_witness:
  "distinct (map i_id (interactions demo_synced)) \<and>
   getInteraction (interactions demo_synced) ''c'' = Some (demo_doc\<lparr>i_id := ''c'', i_name := ''Sync'',
     meetingEnd := Some (JsDate 3600000)\<rparr>) \<and>
   getInteraction (interactions (resolve (length (tasks demo_synced))
       (updateEvent ''c'' (JsDate 7200000) (Some (JsDate 9000000)) False demo_synced))) ''c''
     = Some (demo_doc\<lparr>i_id := ''c'', i_name := ''Sync'', meetingStart := JsDate 7200000,
          meetingEnd := Some (JsDate 9000000)\<rparr>)"
proof -
  have a: "distinct (map i_id (interactions demo_synced))" by code_simp
  have b: "getInteraction (interactions demo_synced) ''c'' = Some (demo_doc\<lparr>i_id := ''c'',
     i_name := ''Sync'', meetingEnd := Some (JsDate 3600000)\<rparr>)" by code_simp
  show ?thesis using a b drag_updates_only_times [OF a b, of "JsDate 7200000" "Some (JsDate 9000000)" False]
    by simp
qed

theorem create_synced_iff_witness:
  "synced demo_synced \<and>
   \<not> synced (resolve (length (tasks demo_synced))
       (createNewEventDate [] (JsDate 0) ''09:00'' [] False [] [] [] [] [] demo_synced))"
proof -
  have a: "synced demo_synced" by code_simp
  show ?thesis using a create_synced_iff [OF a] by simp
qed

theorem clock_time_format_witness:
  "(9::nat) < 24 \<and> (0::nat) < 60 \<and>
   \<bar>day_start 1704844800000 + int 9 * 3600000 + int 0 * 60000\<bar> \<le> 8640000000000000 \<and>
   clock_time (JsDate 1704844800000) ''09:00'' = JsDate 1704877200000"
proof -
  have a: "(9::nat) < 24" "(0::nat) < 60" by simp_all
  have b: "\<bar>day_start 1704844800000 + int 9 * 3600000 + int 0 * 60000\<bar> \<le> 8640000000000000"
    by (simp add: day_start_def ms_per_day_def)
  have f: "format_hhmm 9 0 = ''09:00''" by code_simp
  have d: "day_start 1704844800000 = 1704844800000" by (simp add: day_start_def ms_per_day_def)
  show ?thesis using a b clock_time_format [OF a b] f d by simp
qed

theorem clock_time_no_colon_witness:
  "CHR '':'' \<notin> set ''0900'' \<and> clock_time (JsDate 0) ''0900'' = InvalidDate"
proof -
  have a: "CHR '':'' \<notin> set ''0900''" by simp
  show ?thesis using a clock_time_no_colon [OF a] by blast
qed

theorem edit_readds_unfiltered_witness:
  "editDoc (cal_run demo_synced [EditClick ''a'', Resolve 0]) = Some demo_doc \<and>
   events (resolve 0 (resolve 0 (popupSave (demo_doc\<lparr>remindMe := False\<rparr>)
     (cal_run demo_synced [EditClick ''a'', Resolve 0]))))
   = [\<lparr>ev_id = ''c'', ev_title = ''Sync'', ev_start = JsDate 0, ev_end = Some (JsDate 3600000),
       ev_allDay = False\<rparr>,
      \<lparr>ev_id = ''a'', ev_title = ''Meeting with Ann'', ev_start = JsDate 0, ev_end = None,
       ev_allDay = True\<rparr>]"
proof -
  let ?s = "cal_run demo_synced [EditClick ''a'', Resolve 0]"
  let ?e = "\<lparr>ev_id = ''a'', ev_title = ''Meeting with Ann'', ev_start = JsDate 0, ev_end = None,
       ev_allDay = True\<rparr>"
  have a: "editDoc ?s = Some demo_doc" by code_simp
  have b: "i_id demo_doc \<in> ev_id ` set (events ?s)" by code_simp
  have c: "i_id demo_doc \<in> i_id ` set (interactions ?s)" by code_simp
  have d: "distinct (map i_id (interactions ?s))" by code_simp
  have e: "project_doc (contacts_db ?s) (demo_doc\<lparr>remindMe := False\<rparr>\<lparr>i_id := i_id demo_doc\<rparr>) = Inr ?e"
    by code_simp
  have t: "length (tasks ?s) = 0" by code_simp
  have r: "remove_first ev_id (i_id demo_doc) (events ?s) = [\<lparr>ev_id = ''c'', ev_title = ''Sync'',
     ev_start = JsDate 0, ev_end = Some (JsDate 3600000), ev_allDay = False\<rparr>]" by code_simp
  show ?thesis using a edit_readds_unfiltered [OF a b c d e] t r by simp
qed

theorem create_during_load_duplicates_witness:
  "tasks demo_cal = [] \<and> ''T'' \<noteq> [] \<and>
   \<not> distinct (map ev_id (events (resolve (length (shown_docs demo_cal))
      (cal_run (mount demo_cal) [SubmitCreate ''T'' (JsDate 0) ''09:00'' ''10:00'' False [] [] [] [] [],
        Resolve 1, Resolve 0]))))"
proof -
  have a: "tasks demo_cal = []" by code_simp
  have b: "''T'' \<noteq> []" by simp
  show ?thesis using a b create_during_load_duplicates [OF a b] by blast
qed

end
