(* ===== verification/CalendarFetch.thy ===== *)
theory CalendarFetch
  imports Calendar
begin

text \<open>
  The autocomplete fetches of the calendar's mount effect (\<open>fetchContacts\<close>,
  \<open>fetchDeals\<close>, \<open>fetchTasks\<close> in \<open>calendarComponent.js\<close>, lines 52 to 73).  Their
  continuations own three fields of the state, the option lists the creation form offers;
  no other continuation reads or writes them, and no operation of the calendar writes the
  collections they read.  This theory shows that settling a fetch commutes with every
  other step of the event loop (so keeping the fetches in a queue of their own loses no
  interleaving of the single JavaScript event loop), and that once the mount's three
  fetches have settled, in any order and interleaved with anything but a second mount,
  each option list is the organisation's documents of its kind, labelled by their names.
\<close>

text \<open>The part of the state the fetches read and write.\<close>

definition fetch_view ::
  "cal_state \<Rightarrow> fetch_task list \<times> contact labelled list \<times> deal labelled list \<times> crm_task labelled list \<times>
                contact collection \<times> deal collection \<times> crm_task collection" where
  "fetch_view s = (fetches s, contactOpts s, dealOpts s, taskOpts s, contacts_db s, deals_db s, tasks_db s)"

text \<open>The inputs that act on the fetches: a mount starts them, a fetch settlement ends one.\<close>

fun touches_fetches :: "cal_input \<Rightarrow> bool" where
  "touches_fetches Mount = True"
| "touches_fetches (ResolveFetch n) = True"
| "touches_fetches _ = False"

text \<open>What the settled fetches promise: a settled fetch of a kind has left that kind's
  option list equal to the organisation's documents, labelled.\<close>

definition fetch_inv :: "cal_state \<Rightarrow> cal_state \<Rightarrow> bool" where
  "fetch_inv s0 s \<longleftrightarrow>
     contacts_db s = contacts_db s0 \<and> deals_db s = deals_db s0 \<and> tasks_db s = tasks_db s0 \<and>
     set (fetches s) \<subseteq> {FetchContacts (org_id s0), FetchDeals (org_id s0), FetchTasks (org_id s0)} \<and>
     (FetchContacts (org_id s0) \<notin> set (fetches s) \<longrightarrow>
        contactOpts s = label_all c_name (getContactsByOrg (contacts_db s0) (org_id s0))) \<and>
     (FetchDeals (org_id s0) \<notin> set (fetches s) \<longrightarrow>
        dealOpts s = label_all d_name (getDealsByOrg (deals_db s0) (org_id s0))) \<and>
     (FetchTasks (org_id s0) \<notin> set (fetches s) \<longrightarrow>
        taskOpts s = label_all t_name (getTasksByOrg (tasks_db s0) (org_id s0)))"

subsection \<open>The other steps leave the fetches' part alone\<close>

lemma run_task_fetch_view [simp]: "fetch_view (run_task t s) = fetch_view s"
  by (cases t) (simp_all add: fetch_view_def loadEvents_then_def addEvent_then_def createThen_def
      update_then_def editFetch_then_def afterUpdate_then_def split: sum.splits prod.splits option.splits)

lemma afterUpdate_fetch_view [simp]: "fetch_view (afterUpdate s) = fetch_view s"
  by (simp add: fetch_view_def afterUpdate_def split: option.splits)

lemma cal_step_fetch_view:
  "\<not> touches_fetches x \<Longrightarrow> fetch_view (cal_step s x) = fetch_view s"
proof (cases x)
  case (Resolve n)
  then show ?thesis by (simp add: resolve_def) (simp add: fetch_view_def)
next
  case (PopupSave d)
  then show ?thesis
    by (simp add: popupSave_def split: option.splits sum.splits)
       (simp add: fetch_view_def)
qed (simp_all add: fetch_view_def handleDateSelected_def createNewEventDate_def updateEvent_def
    deleteEvent_def handleEdit_def openCreate_def closeCreate_def closeEdit_def setDate_def)

text \<open>And they do not read it: updating the fetches' fields before a step is updating them
  after it.\<close>

lemma run_task_upd:
  "run_task t (s\<lparr>fetches := F, contactOpts := C, dealOpts := D, taskOpts := T\<rparr>) =
   (run_task t s)\<lparr>fetches := F, contactOpts := C, dealOpts := D, taskOpts := T\<rparr>"
  by (cases t) (simp_all add: loadEvents_then_def addEvent_then_def createThen_def getInteractionsByOrg_def
      update_then_def editFetch_then_def afterUpdate_then_def project_doc_def
      split: sum.splits prod.splits option.splits)

lemma afterUpdate_upd:
  "afterUpdate (s\<lparr>fetches := F, contactOpts := C, dealOpts := D, taskOpts := T\<rparr>) =
   (afterUpdate s)\<lparr>fetches := F, contactOpts := C, dealOpts := D, taskOpts := T\<rparr>"
  by (simp add: afterUpdate_def split: option.splits)

lemma resolve_upd:
  "resolve n (s\<lparr>fetches := F, contactOpts := C, dealOpts := D, taskOpts := T\<rparr>) =
   (resolve n s)\<lparr>fetches := F, contactOpts := C, dealOpts := D, taskOpts := T\<rparr>"
proof (cases "n < length (tasks s)")
  case True
  let ?X = "take n (tasks s) @ drop (Suc n) (tasks s)"
  have e: "s\<lparr>fetches := F, contactOpts := C, dealOpts := D, taskOpts := T, tasks := ?X\<rparr> =
           s\<lparr>tasks := ?X, fetches := F, contactOpts := C, dealOpts := D, taskOpts := T\<rparr>"
    by simp
  show ?thesis
    using True by (simp add: resolve_def e run_task_upd)
qed (simp add: resolve_def)

lemma popupSave_upd:
  "popupSave d (s\<lparr>fetches := F, contactOpts := C, dealOpts := D, taskOpts := T\<rparr>) =
   (popupSave d s)\<lparr>fetches := F, contactOpts := C, dealOpts := D, taskOpts := T\<rparr>"
proof (cases "editDoc s")
  case (Some e)
  show ?thesis
  proof (cases "updateInteraction (interactions s) (i_id e) (EditDocument d)")
    case (Inr db)
    have r: "s\<lparr>fetches := F, contactOpts := C, dealOpts := D, taskOpts := T, interactions := db\<rparr> =
             s\<lparr>interactions := db, fetches := F, contactOpts := C, dealOpts := D, taskOpts := T\<rparr>"
      by simp
    show ?thesis using Some Inr by (simp add: popupSave_def r afterUpdate_upd)
  qed (use Some in \<open>simp add: popupSave_def\<close>)
qed (simp add: popupSave_def)

lemma cal_step_upd:
  assumes "\<not> touches_fetches x"
  shows "cal_step (s\<lparr>fetches := F, contactOpts := C, dealOpts := D, taskOpts := T\<rparr>) x =
         (cal_step s x)\<lparr>fetches := F, contactOpts := C, dealOpts := D, taskOpts := T\<rparr>"
proof (cases x)
  case (Resolve n)
  then show ?thesis
    by (simp add: resolve_upd)
next
  case (PopupSave d)
  then show ?thesis
    by (simp add: popupSave_upd)
qed (use assms in \<open>simp_all add: handleDateSelected_def createNewEventDate_def updateEvent_def
    deleteEvent_def handleEdit_def openCreate_def closeCreate_def closeEdit_def setDate_def\<close>)

text \<open>A fetch settlement is an update of the fetches' fields by values computed from the
  fetches' part of the state alone.\<close>

lemma resolve_fetch_eta:
  "resolve_fetch m s = s\<lparr>fetches := fetches (resolve_fetch m s), contactOpts := contactOpts (resolve_fetch m s),
     dealOpts := dealOpts (resolve_fetch m s), taskOpts := taskOpts (resolve_fetch m s)\<rparr>"
proof (cases "m < length (fetches s)")
  case True
  then show ?thesis by (cases "fetches s ! m") (simp_all add: resolve_fetch_def)
qed (simp add: resolve_fetch_def)

lemma resolve_fetch_view_det:
  assumes "fetch_view t = fetch_view s"
  shows "fetches (resolve_fetch m t) = fetches (resolve_fetch m s)"
    and "contactOpts (resolve_fetch m t) = contactOpts (resolve_fetch m s)"
    and "dealOpts (resolve_fetch m t) = dealOpts (resolve_fetch m s)"
    and "taskOpts (resolve_fetch m t) = taskOpts (resolve_fetch m s)"
proof -
  have e: "fetches t = fetches s" "contactOpts t = contactOpts s" "dealOpts t = dealOpts s"
    "taskOpts t = taskOpts s" "contacts_db t = contacts_db s" "deals_db t = deals_db s"
    "tasks_db t = tasks_db s"
    using assms by (simp_all add: fetch_view_def)
  have "fetches (resolve_fetch m t) = fetches (resolve_fetch m s) \<and>
        contactOpts (resolve_fetch m t) = contactOpts (resolve_fetch m s) \<and>
        dealOpts (resolve_fetch m t) = dealOpts (resolve_fetch m s) \<and>
        taskOpts (resolve_fetch m t) = taskOpts (resolve_fetch m s)"
  proof (cases "m < length (fetches s)")
    case True
    then show ?thesis using e by (cases "fetches s ! m") (simp_all add: resolve_fetch_def)
  qed (simp add: resolve_fetch_def e)
  then show "fetches (resolve_fetch m t) = fetches (resolve_fetch m s)"
    and "contactOpts (resolve_fetch m t) = contactOpts (resolve_fetch m s)"
    and "dealOpts (resolve_fetch m t) = dealOpts (resolve_fetch m s)"
    and "taskOpts (resolve_fetch m t) = taskOpts (resolve_fetch m s)"
    by simp_all
qed

subsection \<open>Settling the fetches\<close>

lemma removed_is_nth:
  assumes "x \<in> set xs" and "x \<notin> set (take n xs @ drop (Suc n) xs)" and n: "n < length xs"
  shows "x = xs ! n"
proof -
  have "set xs = set (take n xs) \<union> insert (xs ! n) (set (drop (Suc n) xs))"
    using id_take_nth_drop [OF n] by (metis list.set(2) set_append)
  then show ?thesis using assms(1,2) by auto
qed

lemma set_take_drop_sub: "set (take n xs @ drop (Suc n) xs) \<subseteq> set xs"
  by (auto dest: in_set_takeD in_set_dropD)

lemma mount_fetch_inv: "fetches s = [] \<Longrightarrow> fetch_inv s (mount s)"
  by (simp add: fetch_inv_def mount_def clearEvents_def)

lemma resolve_fetch_inv:
  assumes inv: "fetch_inv s0 s"
  shows "fetch_inv s0 (resolve_fetch n s)"
proof (cases "n < length (fetches s)")
  case True
  define fs' where "fs' = take n (fetches s) @ drop (Suc n) (fetches s)"
  have sub: "set fs' \<subseteq> set (fetches s)" unfolding fs'_def by (rule set_take_drop_sub)
  have gone: "f \<in> set (fetches s) \<Longrightarrow> f \<notin> set fs' \<Longrightarrow> f = fetches s ! n" for f
    using removed_is_nth True by (simp add: fs'_def)
  have r: "resolve_fetch n s = fetch_then (fetches s ! n) (s\<lparr>fetches := fs'\<rparr>)"
    using True by (simp add: resolve_fetch_def fs'_def)
  have nth: "fetches s ! n \<in> {FetchContacts (org_id s0), FetchDeals (org_id s0), FetchTasks (org_id s0)}"
    using inv True nth_mem by (fastforce simp: fetch_inv_def)
  let ?C = "FetchContacts (org_id s0)" and ?D = "FetchDeals (org_id s0)" and ?T = "FetchTasks (org_id s0)"
  have old: "contacts_db s = contacts_db s0" "deals_db s = deals_db s0" "tasks_db s = tasks_db s0"
    "set (fetches s) \<subseteq> {?C, ?D, ?T}"
    "?C \<notin> set (fetches s) \<Longrightarrow> contactOpts s = label_all c_name (getContactsByOrg (contacts_db s0) (org_id s0))"
    "?D \<notin> set (fetches s) \<Longrightarrow> dealOpts s = label_all d_name (getDealsByOrg (deals_db s0) (org_id s0))"
    "?T \<notin> set (fetches s) \<Longrightarrow> taskOpts s = label_all t_name (getTasksByOrg (tasks_db s0) (org_id s0))"
    using inv by (simp_all add: fetch_inv_def)
  from nth consider (c) "fetches s ! n = ?C" | (d) "fetches s ! n = ?D" | (t) "fetches s ! n = ?T"
    by blast
  then show ?thesis
  proof cases
    case c
    then show ?thesis using old sub gone [of ?D] gone [of ?T] unfolding r fetch_inv_def by auto
  next
    case d
    then show ?thesis using old sub gone [of ?C] gone [of ?T] unfolding r fetch_inv_def by auto
  next
    case t
    then show ?thesis using old sub gone [of ?C] gone [of ?D] unfolding r fetch_inv_def by auto
  qed
qed (simp add: resolve_fetch_def inv)

lemma cal_step_fetch_inv:
  assumes "fetch_inv s0 s" and "Mount \<noteq> x"
  shows "fetch_inv s0 (cal_step s x)"
proof (cases "touches_fetches x")
  case True
  then obtain n where "x = ResolveFetch n" using assms(2) by (cases x) simp_all
  then show ?thesis using resolve_fetch_inv [OF assms(1)] by simp
next
  case False
  then have "fetch_view (cal_step s x) = fetch_view s" by (rule cal_step_fetch_view)
  then show ?thesis using assms(1) by (simp add: fetch_inv_def fetch_view_def)
qed

lemma cal_run_fetch_inv:
  "fetch_inv s0 s \<Longrightarrow> Mount \<notin> set xs \<Longrightarrow> fetch_inv s0 (cal_run s xs)"
  by (induction xs arbitrary: s) (simp_all add: cal_step_fetch_inv)

subsection \<open>The fetches are independent of the rest of the event loop\<close>

text \<open>Settling an autocomplete fetch commutes with every step other than a mount or
  another fetch settlement: user actions and the settlement of any other pending call give
  the same state whether the fetch settles before or after them.\<close>

lemma fetch_commutes:
  assumes "\<not> touches_fetches x"
  shows "resolve_fetch m (cal_step s x) = cal_step (resolve_fetch m s) x"
proof -
  let ?u = "resolve_fetch m s"
  have v: "fetch_view (cal_step s x) = fetch_view s" using assms by (rule cal_step_fetch_view)
  have "resolve_fetch m (cal_step s x) =
        (cal_step s x)\<lparr>fetches := fetches ?u, contactOpts := contactOpts ?u, dealOpts := dealOpts ?u,
           taskOpts := taskOpts ?u\<rparr>"
    by (subst resolve_fetch_eta) (simp only: resolve_fetch_view_det [OF v])
  also have "\<dots> = cal_step (s\<lparr>fetches := fetches ?u, contactOpts := contactOpts ?u, dealOpts := dealOpts ?u,
           taskOpts := taskOpts ?u\<rparr>) x"
    by (rule cal_step_upd [OF assms, symmetric])
  also have "\<dots> = cal_step ?u x" by (simp only: resolve_fetch_eta [symmetric])
  finally show ?thesis .
qed

text \<open>C20. Once the mount's three fetches have settled, whatever else happened in between
  (anything but a second mount) and in whatever order they settled, the creation form
  offers exactly the organisation's contacts, deals and tasks, each labelled by its name.\<close>

theorem fetches_settle:
  assumes "fetches s = []" and "Mount \<notin> set xs" and "fetches (cal_run (mount s) xs) = []"
  shows "contactOpts (cal_run (mount s) xs) = label_all c_name (getContactsByOrg (contacts_db s) (org_id s)) \<and>
         dealOpts (cal_run (mount s) xs) = label_all d_name (getDealsByOrg (deals_db s) (org_id s)) \<and>
         taskOpts (cal_run (mount s) xs) = label_all t_name (getTasksByOrg (tasks_db s) (org_id s))"
  using cal_run_fetch_inv [OF mount_fetch_inv [OF assms(1)] assms(2)] assms(3)
  by (simp add: fetch_inv_def)

text \<open>C31. The label the creation form shows for a contact comes back as the title of an
  untitled meeting created with it: the option's contact is the stored contact with that
  id (ids being unique), so projecting the new document titles it \<open>Meeting with\<close> and
  the label, as long as the store's contacts are those the fetch read.\<close>

theorem option_title_roundtrip:
  assumes "distinct (map c_id (contacts_db s))"
    and "(c, l) \<in> set (contactOpts (fetch_then (FetchContacts og) s))"
  shows "project_doc (contacts_db s) (new_doc s [] start en (c_id c) dl tk ty nt) =
           Inr \<lparr>ev_id = fresh_id (map i_id (interactions s)), ev_title = ''Meeting with '' @ l,
                ev_start = start, ev_end = en, ev_allDay = (en = None)\<rparr>"
proof -
  have c: "c \<in> set (contacts_db s)" and l: "l = c_name c"
    using assms(2) by (auto simp: label_all_def getContactsByOrg_def)
  have "getContact (contacts_db s) (c_id c) = Some c"
    using find_key_unique [OF assms(1) c] by (simp add: getContact_def coll_get_def)
  then show ?thesis using l by (simp add: project_doc_def event_of_doc_def new_doc_def)
qed

subsection \<open>Witnesses\<close>

theorem fetches_settle_witness:
  "fetches demo_cal = [] \<and> Mount \<notin> set [ResolveFetch 2, Resolve 0, ResolveFetch 0, ResolveFetch 0] \<and>
   fetches (cal_run (mount demo_cal) [ResolveFetch 2, Resolve 0, ResolveFetch 0, ResolveFetch 0]) = [] \<and>
   map snd (contactOpts (cal_run (mount demo_cal) [ResolveFetch 2, Resolve 0, ResolveFetch 0, ResolveFetch 0])) = [''Ann''] \<and>
   map snd (dealOpts (cal_run (mount demo_cal) [ResolveFetch 2, Resolve 0, ResolveFetch 0, ResolveFetch 0])) = [''Renewal''] \<and>
   taskOpts (cal_run (mount demo_cal) [ResolveFetch 2, Resolve 0, ResolveFetch 0, ResolveFetch 0]) = []"
proof -
  let ?xs = "[ResolveFetch 2, Resolve 0, ResolveFetch 0, ResolveFetch 0]"
  have a: "fetches demo_cal = []" by code_simp
  have b: "Mount \<notin> set ?xs" by simp
  have c: "fetches (cal_run (mount demo_cal) ?xs) = []" by code_simp
  have l: "map snd (label_all c_name (getContactsByOrg (contacts_db demo_cal) (org_id demo_cal))) = [''Ann'']"
    "map snd (label_all d_name (getDealsByOrg (deals_db demo_cal) (org_id demo_cal))) = [''Renewal'']"
    "label_all t_name (getTasksByOrg (tasks_db demo_cal) (org_id demo_cal)) = []"
    by code_simp+
  show ?thesis using a b c l fetches_settle [OF a b c] by simp
qed

theorem option_title_roundtrip_witness:
  "distinct (map c_id (contacts_db demo_cal)) \<and>
   (hd (contacts_db demo_cal), ''Ann'') \<in> set (contactOpts (fetch_then (FetchContacts ''o'') demo_cal)) \<and>
   ev_title (projr (project_doc (contacts_db demo_cal)
     (new_doc demo_cal [] (JsDate 0) None (c_id (hd (contacts_db demo_cal))) [] [] [] []))) = ''Meeting with Ann''"
proof -
  have a: "distinct (map c_id (contacts_db demo_cal))" by code_simp
  have b: "(hd (contacts_db demo_cal), ''Ann'') \<in> set (contactOpts (fetch_then (FetchContacts ''o'') demo_cal))"
    by code_simp
  show ?thesis using a b option_title_roundtrip [OF a b, where start = "JsDate 0" and en = None
      and dl = "[]" and tk = "[]" and ty = "[]" and nt = "[]"] by simp
qed

end
