(* ===== verification/CalendarProgress.thy ===== *)
theory CalendarProgress
  imports Calendar
begin

text \<open>
  Progress of the calendar's event loop (\<open>calendarComponent.js\<close>).  A pending call can
  leave further calls behind when it settles: \<open>loadEvents\<close> one \<open>addEvent\<close> per shown
  interaction, \<open>afterUpdate\<close>'s fetch one \<open>addEvent\<close>.  The measure \<open>cal_work\<close> counts
  the settlements still to come: one per pending call, one more for a pending
  \<open>afterUpdate\<close> fetch, and for a pending load one per document the store will hold when it
  settles (a pending creation adds one document).  Every settlement decreases it, so no
  schedule of settlements is longer than the measure, and settling the first pending call
  as many times as the measure says leaves nothing pending, from every state.
\<close>

fun is_create :: "cal_task \<Rightarrow> bool" where
  "is_create (CreateThen title st en ad c dl tk ty nt) = True"
| "is_create _ = False"

text \<open>The settlements a pending call may still cause, when the store holds at most
  \<open>n\<close> documents by the time it settles.\<close>

fun task_cost :: "nat \<Rightarrow> cal_task \<Rightarrow> nat" where
  "task_cost n LoadEvents = Suc n"
| "task_cost n (AfterUpdateFetch k) = 2"
| "task_cost n _ = 1"

definition work_of :: "nat \<Rightarrow> cal_task list \<Rightarrow> nat" where
  "work_of docs ts = sum_list (map (task_cost (docs + length (filter is_create ts))) ts)"

definition cal_work :: "cal_state \<Rightarrow> nat" where
  "cal_work s = work_of (length (interactions s)) (tasks s)"

text \<open>A schedule of settlements, each of a call pending at its turn.\<close>

fun valid_sched :: "cal_state \<Rightarrow> nat list \<Rightarrow> bool" where
  "valid_sched s [] = True"
| "valid_sched s (n # ns) = (n < length (tasks s) \<and> valid_sched (resolve n s) ns)"

subsection \<open>The measure\<close>

lemma sum_list_take_nth_drop:
  "n < length xs \<Longrightarrow>
   sum_list (map (f :: 'a \<Rightarrow> nat) xs) = f (xs ! n) + sum_list (map f (take n xs @ drop (Suc n) xs))"
  by (subst id_take_nth_drop [of n xs]) (simp_all add: ac_simps)

lemma filter_take_nth_drop:
  "n < length xs \<Longrightarrow>
   length (filter P xs) = (if P (xs ! n) then 1 else 0) + length (filter P (take n xs @ drop (Suc n) xs))"
  by (subst id_take_nth_drop [of n xs]) simp_all

lemma work_of_remove:
  assumes "n < length ts"
  shows "work_of docs ts = task_cost (docs + length (filter is_create ts)) (ts ! n) +
           work_of (docs + (if is_create (ts ! n) then 1 else 0)) (take n ts @ drop (Suc n) ts)"
proof -
  have "docs + length (filter is_create ts) =
        docs + (if is_create (ts ! n) then 1 else 0) + length (filter is_create (take n ts @ drop (Suc n) ts))"
    using filter_take_nth_drop [OF assms, of is_create] by simp
  then show ?thesis
    unfolding work_of_def using sum_list_take_nth_drop [OF assms] by metis
qed

lemma work_of_adds [simp]: "work_of docs (ts @ map AddEvent ds) = work_of docs ts + length ds"
proof -
  have "filter is_create (map AddEvent ds) = []" by (induction ds) simp_all
  moreover have "sum_list (map (task_cost m) (map AddEvent ds)) = length ds" for m
    by (induction ds) simp_all
  ultimately show ?thesis by (simp add: work_of_def)
qed

lemma work_of_add1 [simp]: "work_of docs (ts @ [AddEvent d]) = Suc (work_of docs ts)"
  using work_of_adds [of docs ts "[d]"] by simp

lemma task_cost_pos: "0 < task_cost m t"
  by (cases t) simp_all

lemma length_le_work_of: "length ts \<le> work_of docs ts"
proof -
  have "length ts \<le> sum_list (map (task_cost m) ts)" for m
  proof (induction ts)
    case (Cons t ts)
    then show ?case using task_cost_pos [of m t] by simp
  qed simp
  then show ?thesis by (simp add: work_of_def)
qed

lemma updateInteraction_length:
  "updateInteraction c k p = Inr c' \<Longrightarrow> length c' = length c"
  by (auto simp: updateInteraction_def coll_update_def split: if_splits)

lemma resolve_work:
  assumes n: "n < length (tasks s)"
  shows "cal_work (resolve n s) < cal_work s"
proof -
  define t where "t = tasks s ! n"
  define rest where "rest = take n (tasks s) @ drop (Suc n) (tasks s)"
  define L where "L = length (interactions s)"
  have r: "resolve n s = run_task t (s\<lparr>tasks := rest\<rparr>)"
    using n by (simp add: resolve_def t_def rest_def)
  have w: "cal_work s = task_cost (L + length (filter is_create (tasks s))) t +
                        work_of (L + (if is_create t then 1 else 0)) rest"
    using work_of_remove [OF n, of L] by (simp add: cal_work_def t_def rest_def L_def)
  show ?thesis
  proof (cases t)
    case LoadEvents
    have "length (filter remindMe (getInteractionsByOrg (interactions s) (org_id s))) \<le> L"
      unfolding getInteractionsByOrg_def L_def by (metis length_filter_le order_trans)
    then show ?thesis using w r LoadEvents
      by (simp add: cal_work_def loadEvents_then_def L_def)
  next
    case (AddEvent d)
    then show ?thesis using w r by (simp add: cal_work_def L_def)
  next
    case (CreateThen title st en ad c dl tk ty nt)
    then show ?thesis using w r
      by (simp add: cal_work_def createThen_def createNewInteraction_def coll_add_def Let_def L_def)
  next
    case (UpdateCall k p)
    then show ?thesis using w r
      by (simp add: cal_work_def update_then_def L_def updateInteraction_length split: sum.splits)
  next
    case (EditFetch k)
    then show ?thesis using w r by (simp add: cal_work_def editFetch_then_def L_def)
  next
    case (AfterUpdateFetch k)
    then show ?thesis using w r
      by (simp add: cal_work_def afterUpdate_then_def L_def split: option.splits)
  qed
qed

lemma drain_first:
  "cal_work s \<le> k \<Longrightarrow> tasks (cal_run s (replicate k (Resolve 0))) = []"
proof (induction k arbitrary: s)
  case 0
  then show ?case using length_le_work_of [of "tasks s" "length (interactions s)"]
    by (simp add: cal_work_def)
next
  case (Suc k)
  show ?case
  proof (cases "tasks s = []")
    case True
    then have "resolve 0 s = s" by simp
    moreover have "cal_work s \<le> k" using True by (simp add: cal_work_def work_of_def)
    ultimately show ?thesis using Suc.IH by simp
  next
    case False
    then have "cal_work (resolve 0 s) \<le> k" using resolve_work [of 0 s] Suc.prems by simp
    then show ?thesis using Suc.IH by simp
  qed
qed

subsection \<open>Bounded settlement and draining\<close>

text \<open>C21. No schedule of settlements is longer than the pending work: from a state whose
  measure is \<open>w\<close>, at most \<open>w\<close> pending calls can settle one after another before
  nothing is left to settle, whatever order they settle in.\<close>

theorem settlements_bounded:
  "valid_sched s ns \<Longrightarrow> length ns \<le> cal_work s"
proof (induction ns arbitrary: s)
  case (Cons n ns)
  then have "n < length (tasks s)" and "length ns \<le> cal_work (resolve n s)" by simp_all
  then show ?case using resolve_work [of n s] by simp
qed simp

text \<open>From every state, every pending call eventually settles: settling the first
  pending call as many times as the pending work says leaves no call pending, whatever
  loads, creations, updates and edits were in flight.\<close>

lemma pending_calls_drain:
  "tasks (cal_run s (replicate (cal_work s) (Resolve 0))) = []"
  by (rule drain_first) simp

theorem settlements_bounded_witness:
  "valid_sched (mount demo_cal) [0, 1, 0] \<and> length [0::nat, 1, 0] \<le> cal_work (mount demo_cal)"
proof -
  have a: "valid_sched (mount demo_cal) [0, 1, 0]" by code_simp
  show ?thesis using a settlements_bounded [OF a] by simp
qed

end
