(* ===== verification/CalendarReach.thy ===== *)
theory CalendarReach
  imports CalendarFetch
begin

text \<open>
  The calendar as a transition system.  The event loop \<open>cal_step\<close> accepts every input;
  the widget and the pop-ups only deliver some: a detail renderer's delete and edit
  callbacks and a drag belong to a displayed event (\<open>renderEventContent\<close>), the creation
  form submits only while it is open, the interaction pop-up saves only while it is open,
  and only pending calls settle.  \<open>cal_trans\<close> has one rule per such transition, and
  \<open>cal_reach s0\<close> holds of the states reachable from the mount of \<open>s0\<close>.  The invariant
  \<open>cal_wf\<close> (unique document ids; every displayed event, every pending call and the
  document under edit refer to a stored interaction; an open edit pop-up has a document;
  only the two errors below have been raised) holds in every reachable state, by rule
  induction.  So the calendar never sends an update the store rejects and never re-reads a
  missing document: the only uncaught errors are a missing contact in \<open>addEvent\<close> and
  \<open>getEventById\<close> answering \<open>null\<close> in \<open>afterUpdate\<close>.
\<close>

inductive cal_trans :: "cal_state \<Rightarrow> cal_state \<Rightarrow> bool" where
  date_click: "cal_trans s (handleDateSelected d s)"
| open_create: "cal_trans s (openCreate s)"
| close_create: "cal_trans s (closeCreate s)"
| form_date: "isOpen s \<Longrightarrow> cal_trans s (setDate d s)"
| submit: "isOpen s \<Longrightarrow> cal_trans s (createNewEventDate title sd st et ad c dl tk ty nt s)"
| drag: "ev \<in> set (events s) \<Longrightarrow> cal_trans s (updateEvent (ev_id ev) st en ad s)"
| delete: "ev \<in> set (events s) \<Longrightarrow> cal_trans s (fst (renderEventContent ev) s)"
| edit: "ev \<in> set (events s) \<Longrightarrow> cal_trans s (snd (renderEventContent ev) s)"
| save: "isOpenEdit s \<Longrightarrow> cal_trans s (popupSave d s)"
| close_edit: "cal_trans s (closeEdit s)"
| settle: "n < length (tasks s) \<Longrightarrow> cal_trans s (resolve n s)"
| settle_fetch: "n < length (fetches s) \<Longrightarrow> cal_trans s (resolve_fetch n s)"

inductive cal_reach :: "cal_state \<Rightarrow> cal_state \<Rightarrow> bool" for s0 :: cal_state where
  mounted: "cal_reach s0 (mount s0)"
| step: "cal_reach s0 s \<Longrightarrow> cal_trans s t \<Longrightarrow> cal_reach s0 t"

text \<open>The inputs the environment can deliver in a state, as a function, so that a run of
  the event loop can be checked to be one of the transition system.\<close>

fun legal :: "cal_state \<Rightarrow> cal_input \<Rightarrow> bool" where
  "legal s Mount = False"
| "legal s (SubmitCreate title sd st et ad c dl tk ty nt) = isOpen s"
| "legal s (FormDate d) = isOpen s"
| "legal s (EventChange k st en ad) = (k \<in> ev_id ` set (events s))"
| "legal s (DeleteClick k) = (k \<in> ev_id ` set (events s))"
| "legal s (EditClick k) = (k \<in> ev_id ` set (events s))"
| "legal s (PopupSave d) = isOpenEdit s"
| "legal s (Resolve n) = (n < length (tasks s))"
| "legal s (ResolveFetch n) = (n < length (fetches s))"
| "legal s _ = True"

fun legal_run :: "cal_state \<Rightarrow> cal_input list \<Rightarrow> bool" where
  "legal_run s [] = True"
| "legal_run s (x # xs) = (legal s x \<and> legal_run (cal_step s x) xs)"

text \<open>What a pending call refers to in the store.\<close>

fun task_ok :: "doc_id set \<Rightarrow> cal_task \<Rightarrow> bool" where
  "task_ok ids (AddEvent d) = (i_id d \<in> ids)"
| "task_ok ids (UpdateCall k p) = (k \<in> ids)"
| "task_ok ids (EditFetch k) = (k \<in> ids)"
| "task_ok ids (AfterUpdateFetch k) = (k \<in> ids)"
| "task_ok ids _ = True"

text \<open>The document under edit, if any, is stored.\<close>

fun edit_ok :: "doc_id set \<Rightarrow> interaction option \<Rightarrow> bool" where
  "edit_ok ids None = True"
| "edit_ok ids (Some d) = (i_id d \<in> ids)"

definition benign :: "js_error \<Rightarrow> bool" where
  "benign e \<longleftrightarrow> e = TypeError ''contact is undefined'' \<or> e = TypeError ''getEventById returned null''"

definition cal_wf :: "cal_state \<Rightarrow> bool" where
  "cal_wf s \<longleftrightarrow>
     distinct (map i_id (interactions s)) \<and>
     ev_id ` set (events s) \<subseteq> i_id ` set (interactions s) \<and>
     list_all (task_ok (i_id ` set (interactions s))) (tasks s) \<and>
     edit_ok (i_id ` set (interactions s)) (editDoc s) \<and>
     (isOpenEdit s \<longrightarrow> editDoc s \<noteq> None) \<and>
     list_all benign (errors s)"

text \<open>A run of the demo organisation: load, open the edit pop-up on the unnamed meeting,
  and save the pop-up twice before the re-fetch of the first save settles.\<close>

definition double_save :: "cal_input list" where
  "double_save = [Resolve 0, Resolve 0, Resolve 0, EditClick ''a'', Resolve 0,
     PopupSave (demo_doc\<lparr>i_name := ''Kickoff''\<rparr>), PopupSave (demo_doc\<lparr>i_name := ''Kickoff''\<rparr>)]"

subsection \<open>The transition system and the event loop agree\<close>

lemma legal_cal_trans: "legal s x \<Longrightarrow> cal_trans s (cal_step s x)"
proof (cases x)
  case (EventChange k st en ad)
  assume "legal s x"
  then obtain ev where "ev \<in> set (events s)" "k = ev_id ev" using EventChange by auto
  then show ?thesis using EventChange cal_trans.drag by simp
next
  case (DeleteClick k)
  assume "legal s x"
  then obtain ev where "ev \<in> set (events s)" "k = ev_id ev" using DeleteClick by auto
  then show ?thesis using DeleteClick cal_trans.delete by (simp add: renderEventContent_def)
next
  case (EditClick k)
  assume "legal s x"
  then obtain ev where "ev \<in> set (events s)" "k = ev_id ev" using EditClick by auto
  then show ?thesis using EditClick cal_trans.edit by (simp add: renderEventContent_def)
qed (auto intro: cal_trans.intros)

lemma cal_trans_legal: "cal_trans s t \<Longrightarrow> \<exists>x. legal s x \<and> t = cal_step s x"
proof (induction rule: cal_trans.induct)
  case (date_click s d)
  show ?case by (rule exI [of _ "DateClick d"]) simp
next
  case (open_create s)
  show ?case by (rule exI [of _ CreateButton]) simp
next
  case (close_create s)
  show ?case by (rule exI [of _ CloseCreate]) simp
next
  case (form_date s d)
  then show ?case by (intro exI [of _ "FormDate d"]) simp
next
  case (submit s title sd st et ad c dl tk ty nt)
  then show ?case by (intro exI [of _ "SubmitCreate title sd st et ad c dl tk ty nt"]) simp
next
  case (drag ev s st en ad)
  then show ?case by (intro exI [of _ "EventChange (ev_id ev) st en ad"]) simp
next
  case (delete ev s)
  then show ?case by (intro exI [of _ "DeleteClick (ev_id ev)"]) (simp add: renderEventContent_def)
next
  case (edit ev s)
  then show ?case by (intro exI [of _ "EditClick (ev_id ev)"]) (simp add: renderEventContent_def)
next
  case (save s d)
  then show ?case by (intro exI [of _ "PopupSave d"]) simp
next
  case (close_edit s)
  show ?case by (rule exI [of _ CloseEdit]) simp
next
  case (settle n s)
  then show ?case by (intro exI [of _ "Resolve n"]) simp
next
  case (settle_fetch n s)
  then show ?case by (intro exI [of _ "ResolveFetch n"]) simp
qed

lemma legal_run_reach:
  "cal_reach s0 s \<Longrightarrow> legal_run s xs \<Longrightarrow> cal_reach s0 (cal_run s xs)"
proof (induction xs arbitrary: s)
  case (Cons x xs)
  then have "cal_reach s0 (cal_step s x)" by (auto intro: cal_reach.step legal_cal_trans)
  then show ?case using Cons by simp
qed simp

subsection \<open>The invariant holds in every reachable state\<close>

lemma task_ok_mono: "ids \<subseteq> ids' \<Longrightarrow> task_ok ids t \<Longrightarrow> task_ok ids' t"
  by (cases t) auto

lemma remove_first_subset: "set (remove_first key k xs) \<subseteq> set xs"
  by (induction xs) auto

lemma patch_comp: "i_id \<circ> (\<lambda>d. if i_id d = k then apply_patch p d else d) = i_id"
  by (rule ext) simp

lemma patch_ids [simp]:
  "i_id ` (\<lambda>d. if i_id d = k then apply_patch p d else d) ` A = i_id ` A"
  "map i_id (map (\<lambda>d. if i_id d = k then apply_patch p d else d) c) = map i_id c"
  by (simp_all only: image_comp map_map patch_comp)

lemma getInteraction_Some:
  assumes "k \<in> i_id ` set c"
  obtains d where "getInteraction c k = Some d" and "i_id d = k" and "d \<in> set c"
proof -
  obtain d where "find_key i_id k c = Some d" using assms by (cases "find_key i_id k c") simp_all
  then show ?thesis using that find_key_Some by (fastforce simp: getInteraction_def coll_get_def)
qed

lemma project_doc_Inl: "project_doc c d = Inl e \<Longrightarrow> e = TypeError ''contact is undefined''"
  by (auto simp: project_doc_def event_of_doc_def split: if_splits option.splits)

lemma widget_move_comp:
  "ev_id \<circ> (\<lambda>e. if ev_id e = k then e\<lparr>ev_start := st, ev_end := en, ev_allDay := ad\<rparr> else e) = ev_id"
  by (rule ext) simp

lemma widget_move_ids [simp]: "ev_id ` set (widget_move k st en ad evs) = ev_id ` set evs"
  unfolding widget_move_def by (simp only: set_map image_comp widget_move_comp)

lemma updateInteraction_Inr:
  assumes "k \<in> i_id ` set c"
  obtains c' where "updateInteraction c k p = Inr c'" and "map i_id c' = map i_id c"
    and "i_id ` set c' = i_id ` set c"
proof -
  obtain c' where u: "updateInteraction c k p = Inr c'" using updateInteraction_ok [OF assms] by blast
  then have m: "map i_id c' = map i_id c" by (rule updateInteraction_ids)
  then have "i_id ` set c' = i_id ` set c" by (metis set_map)
  with u m show ?thesis using that by blast
qed

lemma wf_run_task:
  assumes wf: "cal_wf s" and ok: "task_ok (i_id ` set (interactions s)) t"
  shows "cal_wf (run_task t s)"
proof (cases t)
  case LoadEvents
  then show ?thesis using wf
    by (auto simp: cal_wf_def loadEvents_then_def getInteractionsByOrg_def list_all_iff)
next
  case (AddEvent d)
  then show ?thesis using wf ok
    by (auto simp: cal_wf_def addEvent_then_def benign_def dest: project_doc_Inl project_doc_shape
        split: sum.splits)
next
  case (CreateThen title st en ad c dl tk ty nt)
  let ?ids = "i_id ` set (interactions s)"
  let ?k = "fresh_id (map i_id (interactions s))"
  have ids: "i_id ` set (interactions (run_task t s)) = insert ?k ?ids"
    and ev: "events (run_task t s) = events s @ [\<lparr>ev_id = ?k, ev_title = title, ev_start = st,
                                                  ev_end = en, ev_allDay = ad\<rparr>]"
    and rest: "tasks (run_task t s) = tasks s" "errors (run_task t s) = errors s"
      "editDoc (run_task t s) = editDoc s" "isOpenEdit (run_task t s) = isOpenEdit s"
    using CreateThen by (simp_all add: createThen_def createNewInteraction_def coll_add_def Let_def)
  have "distinct (map i_id (interactions (run_task t s)))"
    using wf run_task_ids by (simp add: cal_wf_def)
  moreover have "list_all (task_ok (insert ?k ?ids)) (tasks s)"
    using wf by (auto simp: cal_wf_def list_all_iff intro: task_ok_mono [rotated])
  moreover have "edit_ok (insert ?k ?ids) (editDoc s)"
    using wf by (cases "editDoc s") (auto simp: cal_wf_def)
  ultimately show ?thesis using wf ids ev rest
    by (auto simp: cal_wf_def)
next
  case (UpdateCall k p)
  then obtain db where u: "updateInteraction (interactions s) k p = Inr db"
    and m: "map i_id db = map i_id (interactions s)" and i: "i_id ` set db = i_id ` set (interactions s)"
    using ok UpdateCall updateInteraction_Inr [of k "interactions s" p] by auto
  then show ?thesis using wf UpdateCall by (simp add: cal_wf_def update_then_def)
next
  case (EditFetch k)
  then obtain d where "getInteraction (interactions s) k = Some d" "i_id d = k"
    using ok getInteraction_Some [of k "interactions s"] by auto
  then show ?thesis using wf ok EditFetch by (simp add: cal_wf_def editFetch_then_def)
next
  case (AfterUpdateFetch k)
  then obtain d where "getInteraction (interactions s) k = Some d" "i_id d = k"
    using ok getInteraction_Some [of k "interactions s"] by auto
  then show ?thesis using wf ok AfterUpdateFetch by (simp add: cal_wf_def afterUpdate_then_def)
qed

lemma wf_resolve:
  assumes wf: "cal_wf s"
  shows "cal_wf (resolve n s)"
proof (cases "n < length (tasks s)")
  case True
  let ?rest = "take n (tasks s) @ drop (Suc n) (tasks s)"
  have "set ?rest \<subseteq> set (tasks s)" by (auto dest: in_set_takeD in_set_dropD)
  then have "cal_wf (s\<lparr>tasks := ?rest\<rparr>)" using wf by (auto simp: cal_wf_def list_all_iff)
  moreover have "task_ok (i_id ` set (interactions s)) (tasks s ! n)"
    using wf True by (simp add: cal_wf_def list_all_iff)
  ultimately show ?thesis using True wf_run_task by (simp add: resolve_def)
qed (simp add: wf)

lemma wf_popupSave:
  assumes wf: "cal_wf s" and op: "isOpenEdit s"
  shows "cal_wf (popupSave d' s)"
proof -
  obtain d where ed: "editDoc s = Some d" and k: "i_id d \<in> i_id ` set (interactions s)"
    using wf op by (auto simp: cal_wf_def split: option.splits)
  obtain db where u: "updateInteraction (interactions s) (i_id d) (EditDocument d') = Inr db"
    and m: "map i_id db = map i_id (interactions s)" and i: "i_id ` set db = i_id ` set (interactions s)"
    using k updateInteraction_Inr by metis
  have p: "popupSave d' s = afterUpdate (s\<lparr>interactions := db\<rparr>)"
    using ed u by (simp add: popupSave_def)
  have "cal_wf (s\<lparr>interactions := db\<rparr>)" using wf m i by (simp add: cal_wf_def)
  then show ?thesis unfolding p using ed remove_first_subset [of ev_id "i_id d" "events s"]
    by (auto simp: cal_wf_def afterUpdate_def benign_def)
qed

lemma wf_trans: "cal_trans s t \<Longrightarrow> cal_wf s \<Longrightarrow> cal_wf t"
proof (induction rule: cal_trans.induct)
  case (delete ev s)
  then show ?case using remove_first_subset [of ev_id "ev_id ev" "events s"]
    by (auto simp: cal_wf_def renderEventContent_def deleteEvent_def)
next
  case (edit ev s)
  then show ?case by (auto simp: cal_wf_def renderEventContent_def handleEdit_def)
next
  case (drag ev s st en ad)
  then show ?case by (auto simp: cal_wf_def updateEvent_def)
next
  case (save s d)
  then show ?case using wf_popupSave by blast
next
  case (settle n s)
  then show ?case using wf_resolve by blast
next
  case (settle_fetch n s)
  then show ?case by (simp add: cal_wf_def)
qed (simp_all add: cal_wf_def handleDateSelected_def openCreate_def closeCreate_def closeEdit_def setDate_def
    createNewEventDate_def)

lemma reach_wf: "cal_reach s0 s \<Longrightarrow> cal_wf s0 \<Longrightarrow> cal_wf s"
proof (induction rule: cal_reach.induct)
  case mounted
  then show ?case by (simp add: cal_wf_def mount_def clearEvents_def)
next
  case (step s t)
  then show ?case using wf_trans by blast
qed

subsection \<open>Properties of the reachable states\<close>

text \<open>C22. In every state reachable from the mount of a well-formed state (user actions
  the widget and pop-ups can deliver, settlements in any order), the Interaction ids are
  unique, every displayed event is the event of a stored interaction, and every pending
  call refers to a stored interaction.\<close>

theorem reachable_refs:
  assumes "cal_reach s0 s" and "cal_wf s0"
  shows "distinct (map i_id (interactions s)) \<and> ev_id ` set (events s) \<subseteq> i_id ` set (interactions s) \<and>
         list_all (task_ok (i_id ` set (interactions s))) (tasks s)"
  using reach_wf [OF assms] by (simp add: cal_wf_def)

text \<open>C23. In every reachable state the only uncaught errors are a missing contact in
  \<open>addEvent\<close> and \<open>getEventById\<close> answering \<open>null\<close> in \<open>afterUpdate\<close>: no
  \<open>updateInteraction\<close> the calendar sends is rejected, no fetched document is missing,
  and the edit pop-up never saves a null document.\<close>

theorem reachable_errors:
  assumes "cal_reach s0 s" and "cal_wf s0"
  shows "set (errors s) \<subseteq> {TypeError ''contact is undefined'', TypeError ''getEventById returned null''}"
  using reach_wf [OF assms] by (auto simp: cal_wf_def benign_def list_all_iff)

text \<open>The transition system is the event loop restricted to the inputs the
  environment can deliver: a transition is exactly a step of \<open>cal_step\<close> on a legal
  input.\<close>

lemma cal_trans_iff_step:
  "cal_trans s t \<longleftrightarrow> (\<exists>x. legal s x \<and> t = cal_step s x)"
  using cal_trans_legal legal_cal_trans by blast

subsection \<open>Witnesses\<close>

lemma double_save_reach: "cal_reach demo_cal (cal_run (mount demo_cal) double_save)"
proof -
  have "legal_run (mount demo_cal) double_save" by code_simp
  then show ?thesis by (rule legal_run_reach [OF cal_reach.mounted])
qed

theorem reachable_refs_witness:
  "cal_reach demo_cal (cal_run (mount demo_cal) double_save) \<and> cal_wf demo_cal \<and>
   distinct (map i_id (interactions (cal_run (mount demo_cal) double_save))) \<and>
   ev_id ` set (events (cal_run (mount demo_cal) double_save)) \<subseteq>
     i_id ` set (interactions (cal_run (mount demo_cal) double_save)) \<and>
   list_all (task_ok (i_id ` set (interactions (cal_run (mount demo_cal) double_save))))
     (tasks (cal_run (mount demo_cal) double_save))"
proof -
  have w: "cal_wf demo_cal" by code_simp
  show ?thesis using double_save_reach w reachable_refs [OF double_save_reach w] by simp
qed

theorem reachable_errors_witness:
  "cal_reach demo_cal (cal_run (mount demo_cal) double_save) \<and> cal_wf demo_cal \<and>
   set (errors (cal_run (mount demo_cal) double_save)) \<subseteq>
     {TypeError ''contact is undefined'', TypeError ''getEventById returned null''} \<and>
   errors (cal_run (mount demo_cal) double_save) = [TypeError ''getEventById returned null'']"
proof -
  have w: "cal_wf demo_cal" by code_simp
  have e: "errors (cal_run (mount demo_cal) double_save) = [TypeError ''getEventById returned null'']"
    by code_simp
  show ?thesis using double_save_reach w e reachable_errors [OF double_save_reach w] by simp
qed

end
