(* ===== verification/CalendarWidget.thy ===== *)
theory CalendarWidget
  imports Calendar
begin

text \<open>
  A drag of a displayed event (\<open>calendarComponent.js\<close>, \<open>updateEvent\<close> and the
  widget's own move of the event it hands to \<open>eventChange\<close>).  \<open>updateEvent\<close> writes
  the new start and end but not the widget's all-day flag, so a drag keeps the widget
  equal to the projection of the store exactly when the widget's flag is what the
  projection derives from the end.
\<close>

subsection \<open>A drag and the projection\<close>

lemma distinct_widget_move [simp]:
  "map ev_id (widget_move k st en ad evs) = map ev_id evs"
  by (induction evs) (simp_all add: widget_move_def)

lemma project_doc_move:
  "project_doc cdb d = Inr e \<Longrightarrow>
   project_doc cdb (d\<lparr>meetingStart := st, meetingEnd := en\<rparr>) =
     Inr (e\<lparr>ev_start := st, ev_end := en, ev_allDay := (en = None)\<rparr>)"
  by (auto simp: project_doc_def event_of_doc_def split: if_splits option.splits)

lemma project_map_move:
  "map (project_doc cdb) ds = map Inr evs \<Longrightarrow>
   map (project_doc cdb) (map (\<lambda>d. if i_id d = k then d\<lparr>meetingStart := st, meetingEnd := en\<rparr> else d) ds)
     = map Inr (widget_move k st en (en = None) evs)"
proof (induction ds arbitrary: evs)
  case (Cons d ds)
  then obtain e evs' where "evs = e # evs'" by (cases evs) auto
  with Cons show ?case by (auto simp: widget_move_def project_doc_move dest: project_doc_shape)
qed (simp add: widget_move_def)

lemma shown_after_move:
  "filter (\<lambda>d. i_org d = og \<and> remindMe d)
      (map (\<lambda>d. if i_id d = k then d\<lparr>meetingStart := st, meetingEnd := en\<rparr> else d) c)
   = map (\<lambda>d. if i_id d = k then d\<lparr>meetingStart := st, meetingEnd := en\<rparr> else d)
      (filter (\<lambda>d. i_org d = og \<and> remindMe d) c)"
  by (induction c) auto

lemma mset_widget_move: "mset (widget_move k st en ad xs) =
  image_mset (\<lambda>e. if ev_id e = k then e\<lparr>ev_start := st, ev_end := en, ev_allDay := ad\<rparr> else e) (mset xs)"
  by (simp add: widget_move_def)

text \<open>Moving with two different flags gives different multisets as soon as an event has
  the id.\<close>

lemma move_flags_differ:
  assumes "k \<in> ev_id ` set xs" and "ad \<noteq> b"
  shows "mset (widget_move k st en ad xs) \<noteq> mset (widget_move k st en b xs)"
proof
  let ?f = "\<lambda>a e. if ev_id e = k then e\<lparr>ev_start := st, ev_end := en, ev_allDay := a\<rparr> else e"
  obtain e0 where e0: "e0 \<in> set xs" "ev_id e0 = k" using assms(1) by blast
  assume "mset (widget_move k st en ad xs) = mset (widget_move k st en b xs)"
  then have "set (widget_move k st en ad xs) = set (widget_move k st en b xs)"
    by (metis set_mset_mset)
  moreover have "?f ad e0 \<in> set (widget_move k st en ad xs)"
    using e0 by (simp add: widget_move_def)
  moreover have "?f ad e0 \<notin> set (widget_move k st en b xs)"
    using e0 assms(2) by (auto simp: widget_move_def dest: arg_cong [where f = ev_allDay])
  ultimately show False by blast
qed

subsection \<open>Properties\<close>

lemma synced_after_drag_iff:
  assumes sy: "synced s" and di: "distinct (map i_id (interactions s))"
    and k: "k \<in> ev_id ` set (events s)"
  shows "synced (resolve (length (tasks s)) (updateEvent k st en ad s)) \<longleftrightarrow> (ad \<longleftrightarrow> en = None)"
proof -
  obtain evs where pr: "map (project_doc (contacts_db s)) (shown_docs s) = map Inr evs"
    and ms: "mset (events s) = mset evs" using synced_projection [OF sy] by blast
  have kk: "k \<in> i_id ` set (interactions s)"
    using k synced_ids [OF sy] by (auto simp: shown_docs_def getInteractionsByOrg_def)
  let ?f = "\<lambda>d. if i_id d = k then d\<lparr>meetingStart := st, meetingEnd := en\<rparr> else d"
  let ?s' = "s\<lparr>events := widget_move k st en ad (events s), interactions := map ?f (interactions s)\<rparr>"
  have r: "resolve (length (tasks s)) (updateEvent k st en ad s) = ?s'"
    using updateInteraction_ok [OF kk, of "SetMeeting st en"]
    by (simp add: updateEvent_def resolve_def update_then_def)
  have sh: "shown_docs ?s' = map ?f (shown_docs s)"
    by (simp add: shown_docs_def getInteractionsByOrg_def shown_after_move)
  have "projection ?s' = Some (widget_move k st en (en = None) evs)"
    using project_map_move [OF pr, where k = k and st = st and en = en] by (simp add: projection_def sh)
  then have "synced ?s' \<longleftrightarrow> mset (widget_move k st en ad evs) = mset (widget_move k st en (en = None) evs)"
    using ms by (simp add: synced_def mset_widget_move)
  moreover have "k \<in> ev_id ` set evs" using k ms by (metis set_mset_mset)
  then have "ad \<noteq> (en = None) \<Longrightarrow>
             mset (widget_move k st en ad evs) \<noteq> mset (widget_move k st en (en = None) evs)"
    by (rule move_flags_differ)
  ultimately show ?thesis unfolding r by (cases "ad = (en = None)") simp_all
qed

text \<open>C26. A drag of a displayed event keeps a synchronised widget synchronised, once its
  update settles, exactly when the all-day flag the widget gives the moved event is the
  one the projection derives from the new end (all-day when there is no end):
  \<open>updateEvent\<close> stores the start and the end but not the flag.\<close>

theorem drag_synced_iff:
  assumes sy: "synced s" and di: "distinct (map i_id (interactions s))"
    and k: "k \<in> ev_id ` set (events s)"
  shows "synced (resolve (length (tasks s)) (updateEvent k st en ad s)) \<longleftrightarrow> (ad \<longleftrightarrow> en = None)"
  using assms by (rule synced_after_drag_iff)

subsection \<open>Witnesses\<close>

text \<open>The timed meeting \<open>c\<close>, dragged into a timed slot without an end (the widget keeps
  it timed), is shown timed but is stored as an all-day meeting.\<close>

theorem drag_synced_iff_witness:
  "synced demo_synced \<and> distinct (map i_id (interactions demo_synced)) \<and>
   ''c'' \<in> ev_id ` set (events demo_synced) \<and>
   \<not> synced (resolve (length (tasks demo_synced)) (updateEvent ''c'' (JsDate 7200000) None False demo_synced))"
proof -
  have a: "synced demo_synced" by code_simp
  have b: "distinct (map i_id (interactions demo_synced))" by code_simp
  have c: "''c'' \<in> ev_id ` set (events demo_synced)" by code_simp
  show ?thesis using a b c drag_synced_iff [OF a b c, of "JsDate 7200000" None False] by simp
qed

end
