(* ===== verification/CalendarSession.thy ===== *)
theory CalendarSession
  imports CalendarWidget
begin

text \<open>
  The core contract of the calendar (spec, section 3): the displayed events are the
  projection of the organisation's \<open>remindMe\<close> interactions.  This theory follows a
  session of the calendar page in which every user action's remote call settles before
  the next action (\<open>settle\<close>: the action, then the settlements of the calls it started),
  and says which actions keep a synchronised widget synchronised: date clicks, the
  creation form's date changes, the pop-up buttons, opening the edit pop-up, the autocomplete fetches, deleting an event,
  creating a titled interaction that is all-day or has an end time, dragging a shown
  event when the widget's all-day flag is the one its new end implies, and saving the
  edit pop-up on a shown document that stays shown and projectable (\<open>keeps_sync\<close>).
  The excluded actions are those the theorems of \<open>Calendar\<close> and \<open>CalendarWidget\<close> show
  can break the contract (an untitled or end-less creation, a drag that changes the flag
  alone, an edit that clears \<open>remindMe\<close>); a remount reloads, and \<open>Calendar.load_synced\<close>
  covers it.
\<close>

text \<open>How many settlements the calls an action starts take: one for the update, creation
  and fetch calls, two for the edit pop-up's save (the re-fetch of \<open>afterUpdate\<close>, then
  the \<open>addEvent\<close> it calls), none for the others.\<close>

fun calls :: "cal_input \<Rightarrow> nat" where
  "calls (SubmitCreate title sd st et ad c dl tk ty nt) = Suc 0"
| "calls (EventChange k st en ad) = Suc 0"
| "calls (DeleteClick k) = Suc 0"
| "calls (EditClick k) = Suc 0"
| "calls (PopupSave d) = Suc (Suc 0)"
| "calls x = 0"

definition settle :: "cal_state \<Rightarrow> cal_input \<Rightarrow> cal_state" where
  "settle s x = (resolve (length (tasks s)) ^^ calls x) (cal_step s x)"

text \<open>A save of the edit pop-up keeps the contract when the document under edit is shown,
  and the saved document stays in the organisation, keeps \<open>remindMe\<close> and can be
  projected.\<close>

fun edit_keeps :: "cal_state \<Rightarrow> interaction \<Rightarrow> interaction option \<Rightarrow> bool" where
  "edit_keeps s d' None = False"
| "edit_keeps s d' (Some d) =
     (i_id d \<in> ev_id ` set (events s) \<and> remindMe d' \<and> i_org d' = org_id s \<and>
      \<not> isl (project_doc (contacts_db s) (d'\<lparr>i_id := i_id d\<rparr>)))"

fun keeps_sync :: "cal_state \<Rightarrow> cal_input \<Rightarrow> bool" where
  "keeps_sync s Mount = False"
| "keeps_sync s (DateClick d) = True"
| "keeps_sync s (SubmitCreate title sd st et ad c dl tk ty nt) = (title \<noteq> [] \<and> (ad \<or> et \<noteq> []))"
| "keeps_sync s (EventChange k st en ad) = (k \<in> ev_id ` set (events s) \<and> ad = (en = None))"
| "keeps_sync s (DeleteClick k) = True"
| "keeps_sync s (EditClick k) = True"
| "keeps_sync s (PopupSave d') = edit_keeps s d' (editDoc s)"
| "keeps_sync s CreateButton = True"
| "keeps_sync s (FormDate d) = True"
| "keeps_sync s CloseCreate = True"
| "keeps_sync s CloseEdit = True"
| "keeps_sync s (Resolve n) = False"
| "keeps_sync s (ResolveFetch n) = True"

fun session_ok :: "cal_state \<Rightarrow> cal_input list \<Rightarrow> bool" where
  "session_ok s [] = True"
| "session_ok s (x # xs) = (keeps_sync s x \<and> session_ok (settle s x) xs)"

definition session :: "cal_state \<Rightarrow> cal_input list \<Rightarrow> cal_state" where
  "session s xs = foldl settle s xs"

subsection \<open>One settled action\<close>

lemma shown_after_edit:
  "P y \<Longrightarrow> (\<And>x. x \<in> set c \<Longrightarrow> i_id x = k \<Longrightarrow> P x) \<Longrightarrow>
   filter P (map (\<lambda>x. if i_id x = k then y else x) c) = map (\<lambda>x. if i_id x = k then y else x) (filter P c)"
  by (induction c) auto

lemma project_map_edit:
  "map (project_doc cdb) ds = map Inr evs \<Longrightarrow> project_doc cdb y = Inr e \<Longrightarrow>
   map (project_doc cdb) (map (\<lambda>x. if i_id x = k then y else x) ds)
     = map Inr (map (\<lambda>ev. if ev_id ev = k then e else ev) evs)"
proof (induction ds arbitrary: evs)
  case (Cons d ds)
  then obtain e' evs' where "evs = e' # evs'" by (cases evs) auto
  with Cons show ?case by (auto dest: project_doc_shape)
qed simp

lemma mset_replace_key:
  "distinct (map key xs) \<Longrightarrow> x \<in> set xs \<Longrightarrow> key x = k \<Longrightarrow>
   mset (map (\<lambda>e. if key e = k then y else e) xs) = mset xs - {#x#} + {#y#}"
proof (induction xs)
  case (Cons a xs)
  show ?case
  proof (cases "a = x")
    case True
    then have "\<forall>e\<in>set xs. key e \<noteq> k" using Cons.prems by (auto simp: image_iff)
    then have "map (\<lambda>e. if key e = k then y else e) xs = xs" by (auto intro: map_idI)
    then show ?thesis using True Cons.prems by simp
  next
    case False
    then have "x \<in> set xs" and "key a \<noteq> k" using Cons.prems by auto
    then show ?thesis using Cons by (simp add: add_mset_commute)
  qed
qed simp

lemma resolve_none [simp]: "tasks s = [] \<Longrightarrow> resolve 0 s = s"
  by (simp add: resolve_def)

lemma resolve_pow_ids:
  "distinct (map i_id (interactions s)) \<Longrightarrow> distinct (map i_id (interactions ((resolve n ^^ m) s)))"
proof (induction m)
  case (Suc m)
  then show ?case using cal_step_ids [of "(resolve n ^^ m) s" "Resolve n"] by simp
qed simp

lemma settle_ids:
  "distinct (map i_id (interactions s)) \<Longrightarrow> distinct (map i_id (interactions (settle s x)))"
  using resolve_pow_ids cal_step_ids by (simp add: settle_def)

lemma settle_synced:
  assumes sy: "synced s" and di: "distinct (map i_id (interactions s))" and nt: "tasks s = []"
    and ok: "keeps_sync s x"
  shows "synced (settle s x) \<and> tasks (settle s x) = []"
proof (cases x)
  case (SubmitCreate title sd st et ad c dl tk ty nt')
  have "synced (settle s x)"
    using synced_after_create_iff [OF sy] ok SubmitCreate by (simp add: settle_def)
  moreover have "tasks (resolve (length (tasks s)) (createNewEventDate title sd st et ad c dl tk ty nt' s)) = tasks s"
    by (simp add: create_settled_state Let_def)
  then have "tasks (settle s x) = []" using nt SubmitCreate by (simp add: settle_def)
  ultimately show ?thesis ..
next
  case (EventChange k st en ad)
  have "k \<in> ev_id ` set (events s)" and "ad = (en = None)" using ok EventChange by simp_all
  then have "synced (settle s x)"
    using synced_after_drag_iff [OF sy di] EventChange by (simp add: settle_def)
  moreover have "tasks (settle s x) = []"
    using nt EventChange by (simp add: settle_def updateEvent_def resolve_def update_then_def split: sum.splits)
  ultimately show ?thesis ..
next
  case (DeleteClick k)
  have "synced (settle s x)" using synced_after_delete [OF sy di] DeleteClick by (simp add: settle_def)
  moreover have "tasks (settle s x) = []"
    using nt DeleteClick by (simp add: settle_def deleteEvent_def resolve_def update_then_def split: sum.splits)
  ultimately show ?thesis ..
next
  case (EditClick k)
  then have "settle s x = s\<lparr>editDoc := getInteraction (interactions s) k, isOpenEdit := True\<rparr>"
    using nt by (simp add: settle_def handleEdit_def resolve_def editFetch_then_def)
  then show ?thesis using sy nt by (simp add: synced_def projection_def shown_docs_def split: option.splits)
next
  case (PopupSave d')
  obtain d where ed: "editDoc s = Some d" using ok PopupSave by (cases "editDoc s") auto
  let ?k = "i_id d" and ?y = "d'\<lparr>i_id := i_id d\<rparr>"
  let ?f = "\<lambda>x. if i_id x = ?k then ?y else x"
  have shown: "?k \<in> ev_id ` set (events s)" and rm: "remindMe d'" and og: "i_org d' = org_id s"
    and ni: "\<not> isl (project_doc (contacts_db s) ?y)" using ok PopupSave ed by simp_all
  obtain e where pr: "project_doc (contacts_db s) ?y = Inr e" using ni by (cases "project_doc (contacts_db s) ?y") auto
  have ks: "?k \<in> i_id ` set (shown_docs s)" using shown synced_ids [OF sy] by simp
  have st: "?k \<in> i_id ` set (interactions s)" using ks by (auto simp: shown_docs_def getInteractionsByOrg_def)
  have eq: "settle s x = s\<lparr>interactions := map ?f (interactions s),
                           events := remove_first ev_id ?k (events s) @ [e]\<rparr>"
    using edit_settled_state [OF ed shown st di pr] PopupSave by (simp add: settle_def)
  obtain evs where pr0: "map (project_doc (contacts_db s)) (shown_docs s) = map Inr evs"
    and ms: "mset (events s) = mset evs" using synced_projection [OF sy] by blast
  obtain x0 where x0: "x0 \<in> set (shown_docs s)" "i_id x0 = ?k" using ks by auto
  have keep: "i_org x = org_id s \<and> remindMe x" if "x \<in> set (interactions s)" "i_id x = ?k" for x
  proof -
    have x0i: "x0 \<in> set (interactions s)" using x0 by (simp add: shown_docs_def getInteractionsByOrg_def)
    have inj: "inj_on i_id (set (interactions s))" using di by (simp add: distinct_map)
    have "x = x0" by (rule inj_onD [OF inj]) (simp_all add: that x0(2) x0i)
    then show ?thesis using x0(1) by (simp add: shown_docs_def getInteractionsByOrg_def)
  qed
  have "shown_docs (settle s x) = map ?f (shown_docs s)"
    using shown_after_edit [where P = "\<lambda>x. i_org x = org_id s \<and> remindMe x" and y = ?y and k = ?k]
      keep rm og by (simp add: eq shown_docs_def getInteractionsByOrg_def)
  then have pe: "map (project_doc (contacts_db (settle s x))) (shown_docs (settle s x))
            = map Inr (map (\<lambda>ev. if ev_id ev = ?k then e else ev) evs)"
    using project_map_edit [OF pr0 pr] by (simp add: eq)
  have dshown: "distinct (map i_id (shown_docs s))"
    using di by (simp add: shown_docs_def getInteractionsByOrg_def distinct_map_filter)
  then have devs: "distinct (map ev_id evs)" using map_Inr_shape [OF pr0] by simp
  have "ev_id ` set evs = i_id ` set (shown_docs s)"
    using map_Inr_shape [OF pr0] by (metis list.set_map)
  then have "?k \<in> ev_id ` set evs" using ks by simp
  then obtain e0 where e0: "e0 \<in> set evs" "ev_id e0 = ?k" by (metis imageE)
  have "set (events s) = set evs" using ms by (metis set_mset_mset)
  then have "find_key ev_id (ev_id e0) (events s) = Some e0"
    using find_key_unique [OF synced_distinct_events [OF sy di]] e0(1) by simp
  then have "find_key ev_id ?k (events s) = Some e0" using e0(2) by simp
  then have "mset (events (settle s x)) = mset (events s) - {#e0#} + {#e#}"
    by (simp add: eq mset_remove_first)
  also have "\<dots> = mset (map (\<lambda>ev. if ev_id ev = ?k then e else ev) evs)"
    using mset_replace_key [OF devs e0] ms by simp
  finally have "synced (settle s x)" using pe synced_intro by metis
  moreover have "tasks (settle s x) = []" using nt by (simp add: eq)
  ultimately show ?thesis ..
qed (use sy nt ok in \<open>simp_all add: settle_def handleDateSelected_def openCreate_def closeCreate_def
       closeEdit_def setDate_def synced_def projection_def shown_docs_def split: option.splits\<close>)

lemma session_Cons [simp]: "session s (x # xs) = session (settle s x) xs"
  by (simp add: session_def)

lemma session_Nil [simp]: "session s [] = s"
  by (simp add: session_def)

subsection \<open>Sessions keep the widget synchronised\<close>

text \<open>C30. In a session of the calendar page where every action's call settles before the
  next action, a synchronised widget over a store with unique ids and nothing pending
  stays synchronised, with nothing pending, through every sequence of date clicks,
  pop-up buttons, edit pop-up openings, autocomplete settlements, deletions, creations
  of titled interactions that are all-day or have an end time, drags of shown events
  whose all-day flag is the one their new end implies, and saves of the edit pop-up that
  keep the edited document shown and projectable.\<close>

theorem session_synced:
  assumes "synced s" and "distinct (map i_id (interactions s))" and "tasks s = []"
    and "session_ok s xs"
  shows "synced (session s xs) \<and> tasks (session s xs) = []"
  using assms
proof (induction xs arbitrary: s)
  case (Cons x xs)
  then have "synced (settle s x) \<and> tasks (settle s x) = []" using settle_synced by simp
  moreover have "distinct (map i_id (interactions (settle s x)))" using Cons.prems(2) by (rule settle_ids)
  ultimately show ?case using Cons by simp
qed simp

subsection \<open>Witnesses\<close>

theorem session_synced_witness:
  "synced demo_synced \<and> distinct (map i_id (interactions demo_synced)) \<and> tasks demo_synced = [] \<and>
   session_ok demo_synced [DateClick (JsDate 0), CreateButton,
     SubmitCreate ''Call'' (JsDate 0) ''09:00'' ''10:00'' False ''c1'' [] [] [] [], CloseCreate,
     DeleteClick ''a'', EventChange ''c'' (JsDate 7200000) (Some (JsDate 10800000)) False,
     EditClick ''c'', PopupSave (demo_doc\<lparr>i_name := ''Review'', meetingEnd := Some (JsDate 3600000)\<rparr>),
     CloseEdit, ResolveFetch 0] \<and>
   synced (session demo_synced [DateClick (JsDate 0), CreateButton,
     SubmitCreate ''Call'' (JsDate 0) ''09:00'' ''10:00'' False ''c1'' [] [] [] [], CloseCreate,
     DeleteClick ''a'', EventChange ''c'' (JsDate 7200000) (Some (JsDate 10800000)) False,
     EditClick ''c'', PopupSave (demo_doc\<lparr>i_name := ''Review'', meetingEnd := Some (JsDate 3600000)\<rparr>),
     CloseEdit, ResolveFetch 0])"
proof -
  have a: "synced demo_synced" by code_simp
  have b: "distinct (map i_id (interactions demo_synced))" by code_simp
  have c: "tasks demo_synced = []" by code_simp
  have d: "session_ok demo_synced [DateClick (JsDate 0), CreateButton,
     SubmitCreate ''Call'' (JsDate 0) ''09:00'' ''10:00'' False ''c1'' [] [] [] [], CloseCreate,
     DeleteClick ''a'', EventChange ''c'' (JsDate 7200000) (Some (JsDate 10800000)) False,
     EditClick ''c'', PopupSave (demo_doc\<lparr>i_name := ''Review'', meetingEnd := Some (JsDate 3600000)\<rparr>),
     CloseEdit, ResolveFetch 0]" by code_simp
  show ?thesis using a b c d session_synced [OF a b c d] by blast
qed

end
