(* ===== verification/Contacts.thy ===== *)
theory Contacts
  imports RemoteStore
begin

text \<open>
  The contacts table controller, \<open>ContactsPage\<close> in \<open>src/src/pages/contacts.js\<close>.
  Its state is the React state \<open>contactList\<close> (the rows the grid renders), the remote
  Contact collection, the notifications shown, the timers the row handlers schedule with
  \<open>setTimeout(..., 1000)\<close>, and the outcome of every row promise the handlers hand back
  to the grid (resolved: the grid keeps its optimistic row change; rejected: it reverts
  it).  A handler is a closure over the \<open>contactList\<close> of the render that created it:
  its timer keeps that snapshot and builds the next list from it.  The mount effect's
  fetch is pending until the event loop settles it.
\<close>

subsection \<open>State\<close>

text \<open>A row of the grid: the columns of the table (lines 148 to 204).  A row the page
  loaded carries the document id; a row the user adds has none (\<open>undefined\<close>).\<close>

record contact_row =
  row_id :: "doc_id option"
  row_name :: string
  row_company :: string
  row_position :: string
  row_email :: string
  row_phoneNumber :: string
  row_notes :: string

datatype row_timer =
    AddTimer "contact_row list" contact_row
  | DeleteTimer "contact_row list" int "doc_id option"

datatype grid_outcome = RowResolved | RowRejected

record ct_state =
  contacts_store :: "contact collection"
  contactList :: "contact_row list"
  ct_toasts :: "string list"
  timers :: "row_timer list"
  grid :: "grid_outcome list"
  ct_errors :: "store_error list"
  load_pending :: bool
  popup_value :: "contact_row option"
  popup_open :: bool
  ct_org :: string

subsection \<open>Loading (the mount effect, lines 104 to 109)\<close>

definition row_of_contact :: "contact \<Rightarrow> contact_row" where
  "row_of_contact c =
     \<lparr>row_id = Some (c_id c), row_name = c_name c, row_company = c_company c,
      row_position = c_position c, row_email = c_email c, row_phoneNumber = c_phoneNumber c,
      row_notes = c_notes c\<rparr>"

definition ct_mount :: "ct_state \<Rightarrow> ct_state" where
  "ct_mount s = s\<lparr>load_pending := True\<rparr>"

text \<open>\<open>promise.then(val => setContactList(val))\<close>.\<close>

definition load_then :: "ct_state \<Rightarrow> ct_state" where
  "load_then s =
     (if load_pending s
      then s\<lparr>contactList := map row_of_contact (getContactsByOrg (contacts_store s) (ct_org s)),
             load_pending := False\<rparr>
      else s)"

subsection \<open>Row handlers (lines 206 to 255)\<close>

text \<open>
  \<open>onRowAdd(newData)\<close>: the timer is scheduled with the closure's list, and
  \<open>promise.then(toast({...}))\<close> calls \<open>toast\<close> at once, while building the argument
  of \<open>then\<close>: the notification is shown before, and whatever, the timer decides.
\<close>

definition onRowAdd :: "contact_row \<Rightarrow> ct_state \<Rightarrow> ct_state" where
  "onRowAdd newData s =
     s\<lparr>timers := timers s @ [AddTimer (contactList s) newData],
       ct_toasts := ct_toasts s @ [''New Contact Added'']\<rparr>"

definition onRowDelete :: "contact_row \<Rightarrow> int \<Rightarrow> ct_state \<Rightarrow> ct_state" where
  "onRowDelete oldData tableIndex s =
     s\<lparr>timers := timers s @ [DeleteTimer (contactList s) tableIndex (row_id oldData)],
       ct_toasts := ct_toasts s @ [''Contact Successfully Deleted'']\<rparr>"

text \<open>\<open>Array.prototype.splice(start, 1)\<close>: a negative start counts from the end (and is
  clamped at 0), a start past the end is clamped to the length; one element is removed if
  there is one at the start position.\<close>

definition js_splice1 :: "'a list \<Rightarrow> int \<Rightarrow> 'a list" where
  "js_splice1 xs start =
     (let len = int (length xs);
          st = (if start < 0 then max (len + start) 0 else min start len)
      in take (nat st) xs @ drop (nat st + 1) xs)"

text \<open>The body of the add timer: \<open>createNewContact\<close> is called with the row's fields (not
  its notes); a truthy id appends the row as the user typed it to the closure's list and
  resolves the grid's promise, a falsy one rejects it.  \<open>accepted\<close> is the store's answer.\<close>

definition add_timer_fires :: "bool \<Rightarrow> contact_row list \<Rightarrow> contact_row \<Rightarrow> ct_state \<Rightarrow> ct_state" where
  "add_timer_fires accepted snapshot newData s =
     (let (contactID, db) = createNewContact accepted (contacts_store s) (ct_org s) (row_name newData)
                              (row_company newData) (row_email newData) (row_phoneNumber newData)
                              (row_position newData)
      in if contactID \<noteq> None
         then s\<lparr>contacts_store := db, contactList := snapshot @ [newData], grid := grid s @ [RowResolved]\<rparr>
         else s\<lparr>contacts_store := db, grid := grid s @ [RowRejected]\<rparr>)"

text \<open>The body of the delete timer: splice the closure's list at the grid's row index, set
  it, delete the document by the row's id (a rejected deletion is unhandled), resolve.\<close>

definition delete_timer_fires :: "contact_row list \<Rightarrow> int \<Rightarrow> doc_id option \<Rightarrow> ct_state \<Rightarrow> ct_state" where
  "delete_timer_fires snapshot index oldId s =
     (let s1 = s\<lparr>contactList := js_splice1 snapshot index\<rparr>;
          s2 = (case deleteContact (contacts_store s1) oldId of
                  Inl e \<Rightarrow> s1\<lparr>ct_errors := ct_errors s1 @ [e]\<rparr>
                | Inr db \<Rightarrow> s1\<lparr>contacts_store := db\<rparr>)
      in s2\<lparr>grid := grid s2 @ [RowResolved]\<rparr>)"

fun fire_timer :: "bool \<Rightarrow> row_timer \<Rightarrow> ct_state \<Rightarrow> ct_state" where
  "fire_timer accepted (AddTimer snap nd) s = add_timer_fires accepted snap nd s"
| "fire_timer accepted (DeleteTimer snap i k) s = delete_timer_fires snap i k s"

definition fire :: "nat \<Rightarrow> bool \<Rightarrow> ct_state \<Rightarrow> ct_state" where
  "fire n accepted s =
     (if n < length (timers s)
      then fire_timer accepted (timers s ! n) (s\<lparr>timers := take n (timers s) @ drop (Suc n) (timers s)\<rparr>)
      else s)"

text \<open>\<open>handlePopUp(rowData)\<close>, the edit icon of a row.\<close>

definition handlePopUp :: "contact_row \<Rightarrow> ct_state \<Rightarrow> ct_state" where
  "handlePopUp v s = s\<lparr>popup_value := Some v, popup_open := True\<rparr>"

text \<open>The pop-up's \<open>onClose\<close>, the \<open>useDisclosure\<close> hook's close handed to
  \<open><ContactPopUp ... onClose={onClose} />\<close>; the pop-up keeps its \<open>value\<close>.\<close>

definition closePopUp :: "ct_state \<Rightarrow> ct_state" where
  "closePopUp s = s\<lparr>popup_open := False\<rparr>"

subsection \<open>The event loop\<close>

datatype ct_input =
    CtMount
  | CtLoadSettles
  | RowAdd contact_row
  | RowDelete contact_row int
  | EditIcon contact_row
  | PopUpClose
  | TimerFires nat bool

fun ct_step :: "ct_state \<Rightarrow> ct_input \<Rightarrow> ct_state" where
  "ct_step s CtMount = ct_mount s"
| "ct_step s CtLoadSettles = load_then s"
| "ct_step s (RowAdd nd) = onRowAdd nd s"
| "ct_step s (RowDelete od i) = onRowDelete od i s"
| "ct_step s (EditIcon v) = handlePopUp v s"
| "ct_step s PopUpClose = closePopUp s"
| "ct_step s (TimerFires n ok) = fire n ok s"

definition ct_run :: "ct_state \<Rightarrow> ct_input list \<Rightarrow> ct_state" where
  "ct_run s inputs = foldl ct_step s inputs"

subsection \<open>Reference deletion and a small organisation for the witnesses\<close>

text \<open>Deleting the element at a position, by recursion on the list.\<close>

fun del_at :: "nat \<Rightarrow> 'a list \<Rightarrow> 'a list" where
  "del_at n [] = []"
| "del_at 0 (x # xs) = xs"
| "del_at (Suc n) (x # xs) = x # del_at n xs"

definition demo_contact :: contact where
  "demo_contact = \<lparr>c_id = ''c1'', c_org = ''o'', c_name = ''Ann'', c_company = ''Acme'',
     c_position = ''CTO'', c_email = ''ann@acme.io'', c_phoneNumber = ''555'', c_notes = []\<rparr>"

definition demo_ct :: ct_state where
  "demo_ct = \<lparr>contacts_store = [demo_contact, demo_contact\<lparr>c_id := ''c2'', c_name := ''Bob''\<rparr>],
     contactList = [], ct_toasts = [], timers = [], grid = [], ct_errors = [], load_pending = True,
     popup_value = None, popup_open = False, ct_org = ''o''\<rparr>"

definition demo_row :: contact_row where
  "demo_row = \<lparr>row_id = None, row_name = ''Cy'', row_company = [], row_position = [],
     row_email = [], row_phoneNumber = [], row_notes = []\<rparr>"

subsection \<open>Row operations: functional behaviour, notifications, interleavings\<close>

lemma del_at_take_drop: "del_at n xs = take n xs @ drop (Suc n) xs"
  by (induction n xs rule: del_at.induct) auto

lemma del_at_length: "n < length xs \<Longrightarrow> length (del_at n xs) = length xs - 1"
  by (simp add: del_at_take_drop)

lemma del_at_beyond: "length xs \<le> n \<Longrightarrow> del_at n xs = xs"
  by (simp add: del_at_take_drop)

lemma mset_del_at: "n < length xs \<Longrightarrow> mset (del_at n xs) = mset xs - {#xs ! n#}"
proof -
  assume n: "n < length xs"
  have "mset xs = mset (take n xs @ xs ! n # drop (Suc n) xs)"
    using id_take_nth_drop [OF n] by simp
  then show ?thesis by (simp add: del_at_take_drop)
qed

lemma fire_last:
  "fire (length (timers s)) ok (s\<lparr>timers := timers s @ [t]\<rparr>) = fire_timer ok t s"
  by (simp add: fire_def)

text \<open>C13. An added row whose create returns an id is appended to the list, exactly as
  submitted; the store gains one contact with the row's fields; the grid's promise
  resolves.\<close>

theorem add_accepted:
  "contactList (fire (length (timers s)) True (onRowAdd nd s)) = contactList s @ [nd] \<and>
   contacts_store (fire (length (timers s)) True (onRowAdd nd s)) = contacts_store s @
     [\<lparr>c_id = fresh_id (map c_id (contacts_store s)), c_org = ct_org s, c_name = row_name nd,
       c_company = row_company nd, c_position = row_position nd, c_email = row_email nd,
       c_phoneNumber = row_phoneNumber nd, c_notes = []\<rparr>] \<and>
   grid (fire (length (timers s)) True (onRowAdd nd s)) = grid s @ [RowResolved]"
  by (simp add: onRowAdd_def fire_def add_timer_fires_def createNewContact_def coll_add_def Let_def)

text \<open>C14. An added row whose create returns a falsy id leaves the list and the store as they
  were and rejects the grid's promise (the grid reverts the row).\<close>

theorem add_rejected:
  "contactList (fire (length (timers s)) False (onRowAdd nd s)) = contactList s \<and>
   contacts_store (fire (length (timers s)) False (onRowAdd nd s)) = contacts_store s \<and>
   grid (fire (length (timers s)) False (onRowAdd nd s)) = grid s @ [RowRejected]"
  by (simp add: onRowAdd_def fire_def add_timer_fires_def createNewContact_def)

text \<open>C15. The success notification of a row add is shown whatever the create answers,
  including when the add is rejected.\<close>

theorem add_toast_regardless:
  "ct_toasts (fire (length (timers s)) ok (onRowAdd nd s)) = ct_toasts s @ [''New Contact Added'']"
  by (cases ok) (simp_all add: onRowAdd_def fire_def add_timer_fires_def createNewContact_def
      coll_add_def Let_def)

text \<open>C16. A row added before the mount's fetch settles, whose timer fires after it, sets the
  list to the pre-load list plus the new row: the loaded rows disappear from the table.\<close>

theorem add_before_load_overwrites:
  "timers s = [] \<Longrightarrow>
   contactList (ct_run s [RowAdd nd, CtLoadSettles, TimerFires 0 True]) = contactList s @ [nd]"
  by (simp add: ct_run_def onRowAdd_def load_then_def fire_def add_timer_fires_def
      createNewContact_def coll_add_def Let_def)

lemma js_splice1_nonneg: "0 \<le> i \<Longrightarrow> js_splice1 xs i = del_at (nat i) xs"
  by (cases "i \<le> int (length xs)") (auto simp: js_splice1_def del_at_take_drop min_def nat_le_iff Let_def)

text \<open>What a fired row delete leaves in the store: the store without the row's document,
  or the store unchanged when the row has no id.\<close>

lemma delete_fires_store:
  "0 \<le> i \<Longrightarrow> contacts_store (fire (length (timers s)) ok (onRowDelete od i s)) =
     (case row_id od of None \<Rightarrow> contacts_store s | Some k \<Rightarrow> filter (\<lambda>d. c_id d \<noteq> k) (contacts_store s))"
  by (simp add: onRowDelete_def fire_def delete_timer_fires_def deleteContact_def coll_delete_def
      Let_def split: option.splits)

text \<open>C17. Deleting the row at index \<open>i\<close> (the grid passes that row and its index) removes
  exactly that row from the list and its document, and only it, from the store.\<close>

theorem delete_aligned:
  assumes "0 \<le> i" and "nat i < length (contactList s)" and "row_id (contactList s ! nat i) = Some k"
  shows "contactList (fire (length (timers s)) ok (onRowDelete (contactList s ! nat i) i s))
           = del_at (nat i) (contactList s)
    \<and> length (contactList (fire (length (timers s)) ok (onRowDelete (contactList s ! nat i) i s)))
           = length (contactList s) - 1
    \<and> k \<notin> c_id ` set (contacts_store (fire (length (timers s)) ok (onRowDelete (contactList s ! nat i) i s)))
    \<and> (\<forall>k'. k' \<noteq> k \<longrightarrow> getContact (contacts_store
           (fire (length (timers s)) ok (onRowDelete (contactList s ! nat i) i s))) k'
           = getContact (contacts_store s) k')"
proof -
  let ?s' = "fire (length (timers s)) ok (onRowDelete (contactList s ! nat i) i s)"
  have st: "contacts_store ?s' = filter (\<lambda>d. c_id d \<noteq> k) (contacts_store s)"
    and cl: "contactList ?s' = del_at (nat i) (contactList s)"
    using assms by (simp_all add: onRowDelete_def fire_def delete_timer_fires_def deleteContact_def
        coll_delete_def js_splice1_nonneg Let_def)
  have "coll_delete c_id (Some k) (contacts_store s) = Inr (contacts_store ?s')"
    using st by (simp add: coll_delete_def)
  then have "\<forall>k'. k' \<noteq> k \<longrightarrow> getContact (contacts_store ?s') k' = getContact (contacts_store s) k'"
    by (simp add: getContact_def coll_delete_get)
  then show ?thesis using st cl assms(2) by (auto simp: del_at_length)
qed

text \<open>C18. A row added in this session carries no id, so deleting it removes it from the list
  but the delete call is rejected and the created contact stays in the store.\<close>

theorem unsaved_row_delete_keeps_contact:
  assumes "timers s = []" and "row_id nd = None"
  shows "contactList (ct_run s [RowAdd nd, TimerFires 0 True, RowDelete nd (int (length (contactList s))),
            TimerFires 0 ok]) = contactList s
    \<and> contacts_store (ct_run s [RowAdd nd, TimerFires 0 True, RowDelete nd (int (length (contactList s))),
            TimerFires 0 ok])
        = contacts_store (ct_run s [RowAdd nd, TimerFires 0 True])
    \<and> length (contacts_store (ct_run s [RowAdd nd, TimerFires 0 True])) = Suc (length (contacts_store s))
    \<and> ct_errors (ct_run s [RowAdd nd, TimerFires 0 True, RowDelete nd (int (length (contactList s))),
            TimerFires 0 ok]) = ct_errors s @ [UndefinedId]"
  using assms
  by (simp add: ct_run_def onRowAdd_def onRowDelete_def fire_def add_timer_fires_def delete_timer_fires_def
      createNewContact_def coll_add_def deleteContact_def coll_delete_def js_splice1_nonneg
      del_at_take_drop Let_def)

subsection \<open>Witnesses\<close>

theorem add_before_load_overwrites_witness:
  "timers demo_ct = [] \<and>
   contactList (ct_run demo_ct [RowAdd demo_row, CtLoadSettles, TimerFires 0 True]) = [demo_row] \<and>
   length (contacts_store (ct_run demo_ct [RowAdd demo_row, CtLoadSettles, TimerFires 0 True])) = 3"
proof -
  have a: "timers demo_ct = []" by code_simp
  have b: "contactList demo_ct = []" by code_simp
  have c: "length (contacts_store (ct_run demo_ct [RowAdd demo_row, CtLoadSettles, TimerFires 0 True])) = 3"
    by code_simp
  show ?thesis using a b c add_before_load_overwrites [OF a, of demo_row] by simp
qed

theorem delete_aligned_witness:
  "0 \<le> (0::int) \<and> nat 0 < length (contactList (load_then demo_ct)) \<and>
   row_id (contactList (load_then demo_ct) ! nat 0) = Some ''c1'' \<and>
   ''c1'' \<notin> c_id ` set (contacts_store (fire (length (timers (load_then demo_ct))) True
      (onRowDelete (contactList (load_then demo_ct) ! nat 0) 0 (load_then demo_ct))))"
proof -
  have a: "0 \<le> (0::int)" by simp
  have b: "nat 0 < length (contactList (load_then demo_ct))" by code_simp
  have c: "row_id (contactList (load_then demo_ct) ! nat 0) = Some ''c1''" by code_simp
  show ?thesis using a b c delete_aligned [OF a b c, of True] by blast
qed

theorem unsaved_row_delete_keeps_contact_witness:
  "timers (load_then demo_ct) = [] \<and> row_id demo_row = None \<and>
   ''Cy'' \<in> c_name ` set (contacts_store (ct_run (load_then demo_ct) [RowAdd demo_row, TimerFires 0 True,
      RowDelete demo_row (int (length (contactList (load_then demo_ct)))), TimerFires 0 True]))"
proof -
  have a: "timers (load_then demo_ct) = []" by code_simp
  have b: "row_id demo_row = None" by code_simp
  have c: "''Cy'' \<in> c_name ` set (contacts_store (ct_run (load_then demo_ct) [RowAdd demo_row, TimerFires 0 True]))"
    by code_simp
  show ?thesis using a b c unsaved_row_delete_keeps_contact [OF a b, of True] by simp
qed

end
