(* ===== verification/ContactsSerial.thy ===== *)
theory ContactsSerial
  imports Contacts
begin

text \<open>
  The contacts table (\<open>src/src/pages/contacts.js\<close>) as a transition system.  The grid
  hands \<open>onRowDelete\<close> the row it shows at position \<open>tableData.id\<close>, and a row the user
  adds carries no id.  While a row promise is pending the grid shows its loading overlay,
  so the user starts a row operation only when no timer is pending: \<open>ct_serial\<close> has that
  guard, \<open>ct_conc\<close> has not (the handlers themselves do not enforce it).  The mount's
  fetch may settle at any time in both.

  Under serialised row operations every row that carries an id names a stored contact,
  and no two rows carry the same id (\<open>ct_inv\<close>, by rule induction).  Without the
  guard, two deletes whose timers share the same captured list bring a deleted contact
  back into the table: the second timer splices the stale list.
\<close>

fun id_stored :: "contact collection \<Rightarrow> doc_id option \<Rightarrow> bool" where
  "id_stored db None = True"
| "id_stored db (Some k) = (k \<in> c_id ` set db)"

text \<open>The ids the rows carry, in order.\<close>

fun row_ids :: "contact_row list \<Rightarrow> doc_id list" where
  "row_ids [] = []"
| "row_ids (r # rs) = (case row_id r of None \<Rightarrow> row_ids rs | Some k \<Rightarrow> k # row_ids rs)"

definition rows_ok :: "contact collection \<Rightarrow> contact_row list \<Rightarrow> bool" where
  "rows_ok db rows \<longleftrightarrow> list_all (\<lambda>r. id_stored db (row_id r)) rows \<and> distinct (row_ids rows)"

text \<open>A pending timer's captured list is consistent with the store, an add timer's row
  has no id, and a delete timer's id is that of the row at its index.\<close>

fun timer_ok :: "contact collection \<Rightarrow> row_timer \<Rightarrow> bool" where
  "timer_ok db (AddTimer snap nd) = (rows_ok db snap \<and> row_id nd = None)"
| "timer_ok db (DeleteTimer snap i k) =
     (rows_ok db snap \<and> 0 \<le> i \<and> nat i < length snap \<and> k = row_id (snap ! nat i))"

definition ct_inv :: "ct_state \<Rightarrow> bool" where
  "ct_inv s \<longleftrightarrow>
     distinct (map c_id (contacts_store s)) \<and> rows_ok (contacts_store s) (contactList s) \<and>
     length (timers s) \<le> 1 \<and> list_all (timer_ok (contacts_store s)) (timers s)"

inductive ct_serial :: "ct_state \<Rightarrow> ct_state \<Rightarrow> bool" where
  load: "ct_serial s (load_then s)"
| add: "timers s = [] \<Longrightarrow> row_id nd = None \<Longrightarrow> ct_serial s (onRowAdd nd s)"
| delete: "timers s = [] \<Longrightarrow> 0 \<le> i \<Longrightarrow> nat i < length (contactList s) \<Longrightarrow>
     ct_serial s (onRowDelete (contactList s ! nat i) i s)"
| edit: "ct_serial s (handlePopUp v s)"
| close: "ct_serial s (closePopUp s)"
| fire: "n < length (timers s) \<Longrightarrow> ct_serial s (fire n ok s)"

inductive ct_conc :: "ct_state \<Rightarrow> ct_state \<Rightarrow> bool" where
  load: "ct_conc s (load_then s)"
| add: "row_id nd = None \<Longrightarrow> ct_conc s (onRowAdd nd s)"
| delete: "0 \<le> i \<Longrightarrow> nat i < length (contactList s) \<Longrightarrow> ct_conc s (onRowDelete (contactList s ! nat i) i s)"
| edit: "ct_conc s (handlePopUp v s)"
| close: "ct_conc s (closePopUp s)"
| fire: "n < length (timers s) \<Longrightarrow> ct_conc s (fire n ok s)"

inductive serial_reach :: "ct_state \<Rightarrow> ct_state \<Rightarrow> bool" for s0 :: ct_state where
  mounted: "serial_reach s0 (ct_mount s0)"
| step: "serial_reach s0 s \<Longrightarrow> ct_serial s t \<Longrightarrow> serial_reach s0 t"

inductive conc_reach :: "ct_state \<Rightarrow> ct_state \<Rightarrow> bool" for s0 :: ct_state where
  mounted: "conc_reach s0 (ct_mount s0)"
| step: "conc_reach s0 s \<Longrightarrow> ct_conc s t \<Longrightarrow> conc_reach s0 t"

text \<open>The inputs the grid can deliver in a state, serialised or not.\<close>

fun ct_legal :: "bool \<Rightarrow> ct_state \<Rightarrow> ct_input \<Rightarrow> bool" where
  "ct_legal ser s CtMount = False"
| "ct_legal ser s CtLoadSettles = True"
| "ct_legal ser s (RowAdd nd) = ((ser \<longrightarrow> timers s = []) \<and> row_id nd = None)"
| "ct_legal ser s (RowDelete od i) =
     ((ser \<longrightarrow> timers s = []) \<and> 0 \<le> i \<and> nat i < length (contactList s) \<and> od = contactList s ! nat i)"
| "ct_legal ser s (EditIcon v) = True"
| "ct_legal ser s PopUpClose = True"
| "ct_legal ser s (TimerFires n ok) = (n < length (timers s))"

fun ct_legal_run :: "bool \<Rightarrow> ct_state \<Rightarrow> ct_input list \<Rightarrow> bool" where
  "ct_legal_run ser s [] = True"
| "ct_legal_run ser s (x # xs) = (ct_legal ser s x \<and> ct_legal_run ser (ct_step s x) xs)"

subsection \<open>Runs of the event loop are runs of the transition systems\<close>

lemma ct_legal_serial: "ct_legal True s x \<Longrightarrow> ct_serial s (ct_step s x)"
  by (cases x) (auto intro: ct_serial.intros)

lemma ct_legal_conc: "ct_legal False s x \<Longrightarrow> ct_conc s (ct_step s x)"
  by (cases x) (auto intro: ct_conc.intros)

lemma ct_run_Cons [simp]: "ct_run s (x # xs) = ct_run (ct_step s x) xs"
  by (simp add: ct_run_def)

lemma ct_run_Nil [simp]: "ct_run s [] = s"
  by (simp add: ct_run_def)

lemma serial_legal_run:
  "serial_reach s0 s \<Longrightarrow> ct_legal_run True s xs \<Longrightarrow> serial_reach s0 (ct_run s xs)"
  by (induction xs arbitrary: s) (auto intro: serial_reach.step ct_legal_serial)

lemma conc_legal_run:
  "conc_reach s0 s \<Longrightarrow> ct_legal_run False s xs \<Longrightarrow> conc_reach s0 (ct_run s xs)"
  by (induction xs arbitrary: s) (auto intro: conc_reach.step ct_legal_conc)

subsection \<open>The invariant under serialised row operations\<close>

lemma row_ids_append [simp]: "row_ids (xs @ ys) = row_ids xs @ row_ids ys"
  by (induction xs) (simp_all split: option.splits)

lemma set_row_ids: "k \<in> set (row_ids rs) \<longleftrightarrow> (\<exists>r \<in> set rs. row_id r = Some k)"
  by (induction rs) (auto split: option.splits)

lemma row_ids_take_nth_drop:
  "j < length xs \<Longrightarrow>
   row_ids xs = row_ids (take j xs) @ row_ids [xs ! j] @ row_ids (drop (Suc j) xs)"
  by (subst id_take_nth_drop [of j xs]) (simp_all split: option.splits)

lemma rows_ok_mono:
  "c_id ` set db \<subseteq> c_id ` set db' \<Longrightarrow> rows_ok db rows \<Longrightarrow> rows_ok db' rows"
proof -
  assume sub: "c_id ` set db \<subseteq> c_id ` set db'" and ok: "rows_ok db rows"
  have "id_stored db k \<Longrightarrow> id_stored db' k" for k using sub by (cases k) auto
  then show ?thesis using ok by (auto simp: rows_ok_def list_all_iff)
qed

lemma rows_ok_del:
  assumes ok: "rows_ok db xs" and j: "j < length xs"
  shows "rows_ok (case row_id (xs ! j) of None \<Rightarrow> db | Some k \<Rightarrow> filter (\<lambda>c. c_id c \<noteq> k) db)
                 (take j xs @ drop (Suc j) xs)"
proof -
  let ?R = "take j xs @ drop (Suc j) xs"
  have sub: "set ?R \<subseteq> set xs" by (auto dest: in_set_takeD in_set_dropD)
  have d: "distinct (row_ids xs)" using ok by (simp add: rows_ok_def)
  have dR: "distinct (row_ids ?R)" and nk: "set (row_ids [xs ! j]) \<inter> set (row_ids ?R) = {}"
    using d row_ids_take_nth_drop [OF j] by auto
  show ?thesis
  proof (cases "row_id (xs ! j)")
    case None
    then show ?thesis using ok sub dR by (auto simp: rows_ok_def list_all_iff)
  next
    case (Some k)
    have "id_stored (filter (\<lambda>c. c_id c \<noteq> k) db) (row_id r)" if r: "r \<in> set ?R" for r
    proof (cases "row_id r")
      case (Some k')
      then have "k' \<in> set (row_ids ?R)" using r set_row_ids by blast
      then have "k' \<noteq> k" using nk \<open>row_id (xs ! j) = Some k\<close> by auto
      moreover have "r \<in> set xs" using r sub by blast
      then have "k' \<in> c_id ` set db"
        using ok Some by (auto simp: rows_ok_def list_all_iff)
      ultimately show ?thesis using Some by auto
    qed simp
    then show ?thesis using Some dR by (simp add: rows_ok_def list_all_iff)
  qed
qed

lemma rows_ok_load:
  "distinct (map c_id db) \<Longrightarrow> rows_ok db (map row_of_contact (getContactsByOrg db og))"
proof -
  assume d: "distinct (map c_id db)"
  have "row_ids (map row_of_contact xs) = map c_id xs" for xs
    by (induction xs) (simp_all add: row_of_contact_def)
  moreover have "distinct (map c_id (filter (\<lambda>c. c_org c = og) db))"
    using d by (simp add: distinct_map_filter)
  ultimately show ?thesis
    by (auto simp: rows_ok_def list_all_iff getContactsByOrg_def row_of_contact_def)
qed

lemma row_ids_no_id [simp]: "row_id nd = None \<Longrightarrow> row_ids (xs @ [nd]) = row_ids xs"
  by simp

lemma inv_load: "ct_inv s \<Longrightarrow> ct_inv (load_then s)"
  by (auto simp: ct_inv_def load_then_def rows_ok_load)

lemma inv_add: "ct_inv s \<Longrightarrow> timers s = [] \<Longrightarrow> row_id nd = None \<Longrightarrow> ct_inv (onRowAdd nd s)"
  by (simp add: ct_inv_def onRowAdd_def)

lemma inv_delete:
  "ct_inv s \<Longrightarrow> timers s = [] \<Longrightarrow> 0 \<le> i \<Longrightarrow> nat i < length (contactList s) \<Longrightarrow>
   ct_inv (onRowDelete (contactList s ! nat i) i s)"
  by (simp add: ct_inv_def onRowDelete_def)

lemma inv_add_fires:
  assumes "ct_inv s" and "timer_ok (contacts_store s) (AddTimer snap nd)" and "timers s = []"
  shows "ct_inv (add_timer_fires ok snap nd s)"
proof (cases ok)
  case True
  let ?db = "contacts_store s" and ?k = "fresh_id (map c_id (contacts_store s))"
  define c where "c = \<lparr>c_id = ?k, c_org = ct_org s, c_name = row_name nd,
           c_company = row_company nd, c_position = row_position nd, c_email = row_email nd,
           c_phoneNumber = row_phoneNumber nd, c_notes = []\<rparr>"
  have snap: "rows_ok ?db snap" and nd: "row_id nd = None" using assms(2) by simp_all
  have "c_id ` set ?db \<subseteq> c_id ` set (?db @ [c])" by auto
  then have "rows_ok (?db @ [c]) snap" using snap by (rule rows_ok_mono)
  then have "rows_ok (?db @ [c]) (snap @ [nd])" using nd by (simp add: rows_ok_def)
  moreover have "?k \<notin> set (map c_id ?db)" by (rule fresh_id_fresh)
  ultimately show ?thesis using True assms(1,3)
    by (simp add: ct_inv_def add_timer_fires_def createNewContact_def coll_add_def Let_def c_def)
next
  case False
  then show ?thesis using assms(1,3) by (simp add: ct_inv_def add_timer_fires_def createNewContact_def)
qed

lemma inv_delete_fires:
  assumes "ct_inv s" and "timer_ok (contacts_store s) (DeleteTimer snap i k)" and "timers s = []"
  shows "ct_inv (delete_timer_fires snap i k s)"
proof -
  have snap: "rows_ok (contacts_store s) snap" and i: "0 \<le> i" "nat i < length snap"
    and k: "k = row_id (snap ! nat i)" using assms(2) by simp_all
  have sp: "js_splice1 snap i = take (nat i) snap @ drop (Suc (nat i)) snap"
    using i by (simp add: js_splice1_nonneg del_at_take_drop)
  have r: "rows_ok (case k of None \<Rightarrow> contacts_store s | Some k' \<Rightarrow> filter (\<lambda>c. c_id c \<noteq> k') (contacts_store s))
                   (js_splice1 snap i)"
    using rows_ok_del [OF snap i(2)] k sp by simp
  have d: "distinct (map c_id (contacts_store s))" using assms(1) by (simp add: ct_inv_def)
  show ?thesis
  proof (cases k)
    case None
    then show ?thesis using r assms(3) d
      by (simp add: ct_inv_def delete_timer_fires_def deleteContact_def coll_delete_def)
  next
    case (Some k')
    then show ?thesis using r assms(3) d
      by (simp add: ct_inv_def delete_timer_fires_def deleteContact_def coll_delete_def distinct_map_filter)
  qed
qed

lemma inv_fire:
  assumes inv: "ct_inv s" and n: "n < length (timers s)"
  shows "ct_inv (fire n ok s)"
proof -
  obtain t where ts: "timers s = [t]" and ok: "timer_ok (contacts_store s) t"
    using inv n by (cases "timers s") (auto simp: ct_inv_def)
  then have n0: "n = 0" using n by simp
  have f: "fire n ok s = fire_timer ok t (s\<lparr>timers := []\<rparr>)" using ts n0 by (simp add: fire_def)
  have inv': "ct_inv (s\<lparr>timers := []\<rparr>)" using inv by (simp add: ct_inv_def)
  show ?thesis
  proof (cases t)
    case (AddTimer snap nd)
    then show ?thesis using f inv_add_fires [OF inv'] ok by simp
  next
    case (DeleteTimer snap i k)
    then show ?thesis using f inv_delete_fires [OF inv'] ok by simp
  qed
qed

lemma serial_inv: "ct_serial s t \<Longrightarrow> ct_inv s \<Longrightarrow> ct_inv t"
proof (induction rule: ct_serial.induct)
  case (edit s v)
  then show ?case by (simp add: ct_inv_def handlePopUp_def)
next
  case (close s)
  then show ?case by (simp add: ct_inv_def closePopUp_def)
qed (simp_all add: inv_load inv_add inv_delete inv_fire)

lemma serial_reach_inv: "serial_reach s0 s \<Longrightarrow> ct_inv s0 \<Longrightarrow> ct_inv s"
proof (induction rule: serial_reach.induct)
  case mounted
  then show ?case by (simp add: ct_inv_def ct_mount_def)
next
  case (step s t)
  then show ?case using serial_inv by blast
qed

subsection \<open>Rows and documents agree when row operations are serialised\<close>

text \<open>C24. When the grid lets only one row operation be pending at a time, every state
  reachable from the mount of a consistent state shows rows whose ids all name stored
  contacts, no two rows with the same id, whatever the order of the load and the row
  operations.\<close>

theorem serial_rows_stored:
  assumes "serial_reach s0 s" and "ct_inv s0"
  shows "list_all (\<lambda>r. id_stored (contacts_store s) (row_id r)) (contactList s) \<and> distinct (row_ids (contactList s))"
  using serial_reach_inv [OF assms] by (simp add: ct_inv_def rows_ok_def)

lemma nth_in_del_at: "m < length l \<Longrightarrow> m \<noteq> n \<Longrightarrow> l ! m \<in> set (del_at n l)"
proof (cases "m < n")
  case True
  assume "m < length l"
  then have "l ! m \<in> set (take n l)" using True by (metis in_set_conv_nth length_take min_less_iff_conj nth_take)
  then show ?thesis by (simp add: del_at_take_drop)
next
  case False
  assume m: "m < length l" "m \<noteq> n"
  then have "l ! m = drop (Suc n) l ! (m - Suc n)" using False by simp
  moreover have "m - Suc n < length (drop (Suc n) l)" using m False by simp
  ultimately have "l ! m \<in> set (drop (Suc n) l)" by (metis nth_mem)
  then show ?thesis by (simp add: del_at_take_drop)
qed

text \<open>C25. The handlers do not serialise row operations themselves: whenever two rows
  the table shows are deleted one after the other before either timer fires (inputs the
  grid accepts without the loading overlay, and not with it), the first deleted contact
  is gone from the store but its row is back in the table, because the second timer
  splices the list its closure captured.\<close>

theorem concurrent_deletes_resurrect:
  assumes "timers s = []" and "0 \<le> i" and "0 \<le> j" and "nat i < length (contactList s)"
    and "nat j < length (contactList s)" and "i \<noteq> j" and "row_id (contactList s ! nat i) = Some k"
  shows "ct_legal_run False s [RowDelete (contactList s ! nat i) i, RowDelete (contactList s ! nat j) j,
           TimerFires 0 True, TimerFires 0 True] \<and>
         \<not> ct_legal_run True s [RowDelete (contactList s ! nat i) i, RowDelete (contactList s ! nat j) j,
           TimerFires 0 True, TimerFires 0 True] \<and>
         contactList s ! nat i \<in> set (contactList (ct_run s [RowDelete (contactList s ! nat i) i,
           RowDelete (contactList s ! nat j) j, TimerFires 0 True, TimerFires 0 True])) \<and>
         k \<notin> c_id ` set (contacts_store (ct_run s [RowDelete (contactList s ! nat i) i,
           RowDelete (contactList s ! nat j) j, TimerFires 0 True, TimerFires 0 True]))"
proof -
  let ?l = "contactList s"
  have ij: "nat i \<noteq> nat j" using assms(2,3,6) by simp
  have l: "contactList (ct_run s [RowDelete (?l ! nat i) i, RowDelete (?l ! nat j) j,
             TimerFires 0 True, TimerFires 0 True]) = del_at (nat j) ?l"
    using assms by (simp add: onRowDelete_def fire_def delete_timer_fires_def js_splice1_nonneg Let_def
        split: sum.splits)
  have "?l ! nat i \<in> set (del_at (nat j) ?l)" using nth_in_del_at [OF assms(4) ij] .
  moreover have "k \<notin> c_id ` set (contacts_store (ct_run s [RowDelete (?l ! nat i) i,
           RowDelete (?l ! nat j) j, TimerFires 0 True, TimerFires 0 True]))"
    using assms by (auto simp: onRowDelete_def fire_def delete_timer_fires_def deleteContact_def
        coll_delete_def Let_def split: option.splits)
  moreover have "ct_legal_run False s [RowDelete (?l ! nat i) i, RowDelete (?l ! nat j) j,
           TimerFires 0 True, TimerFires 0 True] \<and>
         \<not> ct_legal_run True s [RowDelete (?l ! nat i) i, RowDelete (?l ! nat j) j,
           TimerFires 0 True, TimerFires 0 True]"
    using assms by (simp add: onRowDelete_def fire_def delete_timer_fires_def Let_def split: sum.splits)
  ultimately show ?thesis unfolding l by blast
qed

theorem serial_rows_stored_witness:
  "serial_reach demo_ct (ct_run (ct_mount demo_ct) [CtLoadSettles, RowDelete (row_of_contact demo_contact) 0,
      TimerFires 0 True, RowAdd demo_row, TimerFires 0 True]) \<and> ct_inv demo_ct \<and>
   list_all (\<lambda>r. id_stored (contacts_store (ct_run (ct_mount demo_ct) [CtLoadSettles,
      RowDelete (row_of_contact demo_contact) 0, TimerFires 0 True, RowAdd demo_row, TimerFires 0 True])) (row_id r))
     (contactList (ct_run (ct_mount demo_ct) [CtLoadSettles, RowDelete (row_of_contact demo_contact) 0,
      TimerFires 0 True, RowAdd demo_row, TimerFires 0 True])) \<and>
   distinct (row_ids (contactList (ct_run (ct_mount demo_ct) [CtLoadSettles, RowDelete (row_of_contact demo_contact) 0,
      TimerFires 0 True, RowAdd demo_row, TimerFires 0 True])))"
proof -
  let ?xs = "[CtLoadSettles, RowDelete (row_of_contact demo_contact) 0, TimerFires 0 True, RowAdd demo_row, TimerFires 0 True]"
  have i: "ct_inv demo_ct" by code_simp
  have l: "ct_legal_run True (ct_mount demo_ct) ?xs" by code_simp
  have r: "serial_reach demo_ct (ct_run (ct_mount demo_ct) ?xs)"
    by (rule serial_legal_run [OF serial_reach.mounted l])
  show ?thesis using r i serial_rows_stored [OF r i] by simp
qed


theorem concurrent_deletes_resurrect_witness:
  "timers (ct_run (ct_mount demo_ct) [CtLoadSettles]) = [] \<and> 0 \<le> (0::int) \<and> 0 \<le> (1::int) \<and>
   nat 0 < length (contactList (ct_run (ct_mount demo_ct) [CtLoadSettles])) \<and>
   nat 1 < length (contactList (ct_run (ct_mount demo_ct) [CtLoadSettles])) \<and> (0::int) \<noteq> 1 \<and>
   row_id (contactList (ct_run (ct_mount demo_ct) [CtLoadSettles]) ! nat 0) = Some ''c1'' \<and>
   ''c1'' \<notin> c_id ` set (contacts_store (ct_run (ct_run (ct_mount demo_ct) [CtLoadSettles])
     [RowDelete (contactList (ct_run (ct_mount demo_ct) [CtLoadSettles]) ! nat 0) 0,
      RowDelete (contactList (ct_run (ct_mount demo_ct) [CtLoadSettles]) ! nat 1) 1,
      TimerFires 0 True, TimerFires 0 True]))"
proof -
  let ?s = "ct_run (ct_mount demo_ct) [CtLoadSettles]"
  have a: "timers ?s = []" by code_simp
  have b: "0 \<le> (0::int)" "0 \<le> (1::int)" "(0::int) \<noteq> 1" by simp_all
  have c: "nat 0 < length (contactList ?s)" "nat 1 < length (contactList ?s)" by code_simp+
  have d: "row_id (contactList ?s ! nat 0) = Some ''c1''" by code_simp
  show ?thesis using a b c d concurrent_deletes_resurrect [OF a b(1,2) c b(3) d] by blast
qed

end
