(* ===== verification/ContactsTable.thy ===== *)
theory ContactsTable
  imports ContactsSerial
begin

text \<open>
  What the contacts table shows, against what the store holds.  The abstraction of a
  state of \<open>ContactsPage\<close> (\<open>src/src/pages/contacts.js\<close>) is the organisation's list of
  contacts in the store, \<open>getContactsByOrg\<close>; the table refines it when its rows are,
  position by position, those contacts' columns, and a row that carries an id carries
  the id of the contact at its position (\<open>table_shows\<close>).  The relation holds in every
  state reached through \<open>tidy\<close> inputs: row operations one at a time (the grid's
  loading overlay), started once the mount's fetch has settled, and deletes only of rows
  the page loaded.  The two exclusions are the two ways the code loses the
  correspondence: an add whose closure captured the list before the load (theorem
  \<open>Contacts.add_before_load_overwrites\<close>) and the delete of a row added in the session,
  which has no id (\<open>Contacts.unsaved_row_delete_keeps_contact\<close>).
\<close>

definition row_view :: "contact_row \<Rightarrow> string \<times> string \<times> string \<times> string \<times> string" where
  "row_view r = (row_name r, row_company r, row_position r, row_email r, row_phoneNumber r)"

definition contact_view :: "contact \<Rightarrow> string \<times> string \<times> string \<times> string \<times> string" where
  "contact_view c = (c_name c, c_company c, c_position c, c_email c, c_phoneNumber c)"

fun names_doc :: "doc_id option \<Rightarrow> doc_id \<Rightarrow> bool" where
  "names_doc None k = True"
| "names_doc (Some k') k = (k' = k)"

definition shows_contact :: "contact_row \<Rightarrow> contact \<Rightarrow> bool" where
  "shows_contact r c \<longleftrightarrow> row_view r = contact_view c \<and> names_doc (row_id r) (c_id c)"

definition table_shows :: "ct_state \<Rightarrow> bool" where
  "table_shows s \<longleftrightarrow>
     list_all2 shows_contact (contactList s) (getContactsByOrg (contacts_store s) (ct_org s))"

text \<open>A pending timer was started on the current list, and a pending delete names a
  document.\<close>

fun timer_current :: "contact_row list \<Rightarrow> row_timer \<Rightarrow> bool" where
  "timer_current l (AddTimer snap nd) = (snap = l)"
| "timer_current l (DeleteTimer snap i k) = (snap = l \<and> k \<noteq> None)"

definition tab_ok :: "ct_state \<Rightarrow> bool" where
  "tab_ok s \<longleftrightarrow> ct_inv s \<and>
     (if load_pending s then timers s = []
      else table_shows s \<and> list_all (timer_current (contactList s)) (timers s))"

fun tidy :: "ct_state \<Rightarrow> ct_input \<Rightarrow> bool" where
  "tidy s CtMount = False"
| "tidy s CtLoadSettles = True"
| "tidy s (RowAdd nd) = (\<not> load_pending s \<and> timers s = [] \<and> row_id nd = None)"
| "tidy s (RowDelete od i) =
     (\<not> load_pending s \<and> timers s = [] \<and> 0 \<le> i \<and> nat i < length (contactList s) \<and>
      od = contactList s ! nat i \<and> row_id od \<noteq> None)"
| "tidy s (EditIcon v) = True"
| "tidy s PopUpClose = True"
| "tidy s (TimerFires n ok) = (n < length (timers s))"

fun tidy_run :: "ct_state \<Rightarrow> ct_input list \<Rightarrow> bool" where
  "tidy_run s [] = True"
| "tidy_run s (x # xs) = (tidy s x \<and> tidy_run (ct_step s x) xs)"

subsection \<open>Lists related position by position\<close>

lemma list_all2_del_at: "list_all2 P xs ys \<Longrightarrow> list_all2 P (del_at i xs) (del_at i ys)"
  by (induction i xs arbitrary: ys rule: del_at.induct) (auto simp: list_all2_Cons1)

lemma filter_id_del_at:
  "distinct (map c_id xs) \<Longrightarrow> i < length xs \<Longrightarrow> filter (\<lambda>d. c_id d \<noteq> c_id (xs ! i)) xs = del_at i xs"
proof (induction xs arbitrary: i)
  case (Cons x xs)
  show ?case
  proof (cases i)
    case 0
    have "\<forall>d \<in> set xs. c_id d \<noteq> c_id x" using Cons.prems(1) by (auto simp: image_iff)
    then show ?thesis using 0 by (simp add: filter_id_conv)
  next
    case (Suc j)
    then have "c_id x \<noteq> c_id (xs ! j)" using Cons.prems by (auto simp: nth_mem)
    then show ?thesis using Suc Cons by simp
  qed
qed simp

lemma getContactsByOrg_filter_id:
  "getContactsByOrg (filter (\<lambda>d. c_id d \<noteq> k) db) og = filter (\<lambda>d. c_id d \<noteq> k) (getContactsByOrg db og)"
  by (simp add: getContactsByOrg_def conj_commute)

lemma shows_contact_id:
  "list_all2 shows_contact rs cs \<Longrightarrow> i < length rs \<Longrightarrow> row_id (rs ! i) = Some k \<Longrightarrow>
   k = c_id (cs ! i) \<and> i < length cs"
  by (auto simp: shows_contact_def dest: list_all2_nthD list_all2_lengthD)

lemma shows_loaded: "list_all2 shows_contact (map row_of_contact cs) cs"
  by (simp add: list.rel_map list_all2_same shows_contact_def row_view_def contact_view_def
      row_of_contact_def)

subsection \<open>Every tidy step keeps the table faithful\<close>

lemma tab_ok_popup_value [simp]: "tab_ok (s\<lparr>popup_value := v\<rparr>) = tab_ok s"
  by (simp add: tab_ok_def ct_inv_def table_shows_def)

lemma tab_ok_popup_open [simp]: "tab_ok (s\<lparr>popup_open := b\<rparr>) = tab_ok s"
  by (simp add: tab_ok_def ct_inv_def table_shows_def)

lemma tab_load:
  assumes ok: "tab_ok s" shows "tab_ok (load_then s)"
proof (cases "load_pending s")
  case True
  have "ct_inv (load_then s)" and "timers s = []" using ok inv_load True by (simp_all add: tab_ok_def)
  then show ?thesis using True by (simp add: tab_ok_def load_then_def table_shows_def shows_loaded)
qed (simp add: load_then_def ok)

lemma table_add_fires:
  assumes tb: "table_shows s" and nd: "row_id nd = None"
  shows "table_shows (add_timer_fires ok (contactList s) nd s)"
proof (cases ok)
  case True
  let ?c = "\<lparr>c_id = fresh_id (map c_id (contacts_store s)), c_org = ct_org s, c_name = row_name nd,
           c_company = row_company nd, c_position = row_position nd, c_email = row_email nd,
           c_phoneNumber = row_phoneNumber nd, c_notes = []\<rparr>"
  have "shows_contact nd ?c" using nd by (simp add: shows_contact_def row_view_def contact_view_def)
  then have "list_all2 shows_contact (contactList s @ [nd])
               (getContactsByOrg (contacts_store s) (ct_org s) @ [?c])"
    using tb by (simp add: table_shows_def list_all2_appendI)
  then show ?thesis using True
    by (simp add: table_shows_def add_timer_fires_def createNewContact_def coll_add_def
        getContactsByOrg_def Let_def)
next
  case False
  then show ?thesis using tb by (simp add: table_shows_def add_timer_fires_def createNewContact_def)
qed

lemma table_delete_fires:
  assumes tb: "table_shows s" and d: "distinct (map c_id (contacts_store s))"
    and i: "0 \<le> i" "nat i < length (contactList s)" and k: "row_id (contactList s ! nat i) = Some k"
  shows "table_shows (delete_timer_fires (contactList s) i (Some k) s)"
proof -
  let ?cs = "getContactsByOrg (contacts_store s) (ct_org s)"
  have rel: "list_all2 shows_contact (contactList s) ?cs" using tb by (simp add: table_shows_def)
  have kc: "k = c_id (?cs ! nat i)" and ic: "nat i < length ?cs"
    using shows_contact_id [OF rel i(2) k] by simp_all
  have "distinct (map c_id ?cs)" using d by (simp add: getContactsByOrg_def distinct_map_filter)
  then have "filter (\<lambda>d. c_id d \<noteq> k) ?cs = del_at (nat i) ?cs"
    using kc ic filter_id_del_at by blast
  then have "getContactsByOrg (filter (\<lambda>d. c_id d \<noteq> k) (contacts_store s)) (ct_org s) = del_at (nat i) ?cs"
    by (simp add: getContactsByOrg_filter_id)
  moreover have "list_all2 shows_contact (del_at (nat i) (contactList s)) (del_at (nat i) ?cs)"
    using rel by (rule list_all2_del_at)
  ultimately show ?thesis using i
    by (simp add: table_shows_def delete_timer_fires_def deleteContact_def coll_delete_def
        js_splice1_nonneg Let_def)
qed

lemma tab_fire:
  assumes ok: "tab_ok s" and n: "n < length (timers s)"
  shows "tab_ok (fire n ok' s)"
proof -
  have inv: "ct_inv (fire n ok' s)" using ok n inv_fire by (simp add: tab_ok_def)
  obtain t where ts: "timers s = [t]" using ok n by (cases "timers s") (auto simp: tab_ok_def ct_inv_def)
  then have n0: "n = 0" using n by simp
  have np: "\<not> load_pending s" and tb: "table_shows s" and cur: "timer_current (contactList s) t"
    and tok: "timer_ok (contacts_store s) t" and d: "distinct (map c_id (contacts_store s))"
    using ok ts by (auto simp: tab_ok_def ct_inv_def split: if_splits)
  let ?s0 = "s\<lparr>timers := []\<rparr>"
  have f: "fire n ok' s = fire_timer ok' t ?s0" using ts n0 by (simp add: fire_def)
  have tb0: "table_shows ?s0" using tb by (simp add: table_shows_def)
  have "table_shows (fire_timer ok' t ?s0) \<and> timers (fire_timer ok' t ?s0) = [] \<and>
        \<not> load_pending (fire_timer ok' t ?s0)"
  proof (cases t)
    case (AddTimer snap nd)
    then have "snap = contactList ?s0" and "row_id nd = None" using cur tok by simp_all
    then show ?thesis using AddTimer table_add_fires [OF tb0] np
      by (simp add: add_timer_fires_def createNewContact_def coll_add_def Let_def)
  next
    case (DeleteTimer snap i k)
    then obtain k' where k': "k = Some k'" and sn: "snap = contactList ?s0" using cur by auto
    have i: "0 \<le> i" "nat i < length (contactList ?s0)" and kk: "row_id (contactList ?s0 ! nat i) = Some k'"
      using tok DeleteTimer k' sn by auto
    have "table_shows (delete_timer_fires (contactList ?s0) i (Some k') ?s0)"
      using table_delete_fires [OF tb0 _ i kk] d by simp
    then show ?thesis using DeleteTimer k' sn np
      by (simp add: delete_timer_fires_def deleteContact_def coll_delete_def Let_def)
  qed
  then show ?thesis using inv f by (simp add: tab_ok_def)
qed

lemma tab_step: "tab_ok s \<Longrightarrow> tidy s x \<Longrightarrow> tab_ok (ct_step s x)"
proof (cases x)
  case (RowAdd nd)
  assume "tab_ok s" "tidy s x"
  then show ?thesis using RowAdd inv_add
    by (auto simp: tab_ok_def onRowAdd_def table_shows_def)
next
  case (RowDelete od i)
  assume "tab_ok s" "tidy s x"
  then show ?thesis using RowDelete inv_delete
    by (auto simp: tab_ok_def onRowDelete_def table_shows_def)
next
  case (EditIcon v)
  assume "tab_ok s"
  then show ?thesis using EditIcon by (simp add: handlePopUp_def)
next
  case PopUpClose
  assume "tab_ok s"
  then show ?thesis using PopUpClose by (simp add: closePopUp_def)
qed (simp_all add: tab_load tab_fire)

lemma tab_run: "tab_ok s \<Longrightarrow> tidy_run s xs \<Longrightarrow> tab_ok (ct_run s xs)"
  by (induction xs arbitrary: s) (simp_all add: tab_step)

lemma tab_mount: "ct_inv s \<Longrightarrow> timers s = [] \<Longrightarrow> tab_ok (ct_mount s)"
  by (simp add: tab_ok_def ct_inv_def ct_mount_def)

lemma shows_views: "list_all2 shows_contact rs cs \<Longrightarrow> map row_view rs = map contact_view cs"
  by (induction rule: list_all2_induct) (simp_all add: shows_contact_def)

subsection \<open>The table refines the store\<close>

text \<open>C28. From the mount of a consistent state with no timer pending, through any tidy
  sequence of loads, row operations, pop-up actions and timer firings, once the mount's
  fetch has settled the table refines the store: its rows are, in order, the columns of
  the organisation's contacts, and a row's id is that of the contact at its position.\<close>

theorem table_refines_store:
  assumes "ct_inv s0" and "timers s0 = []" and "tidy_run (ct_mount s0) xs"
    and "\<not> load_pending (ct_run (ct_mount s0) xs)"
  shows "table_shows (ct_run (ct_mount s0) xs) \<and>
         map row_view (contactList (ct_run (ct_mount s0) xs)) =
           map contact_view (getContactsByOrg (contacts_store (ct_run (ct_mount s0) xs))
                                              (ct_org (ct_run (ct_mount s0) xs)))"
proof -
  have "tab_ok (ct_run (ct_mount s0) xs)" using tab_run [OF tab_mount [OF assms(1,2)] assms(3)] .
  then have "table_shows (ct_run (ct_mount s0) xs)" using assms(4) by (simp add: tab_ok_def)
  then show ?thesis by (simp add: table_shows_def shows_views)
qed

subsection \<open>Witnesses\<close>

theorem table_refines_store_witness:
  "ct_inv demo_ct \<and> timers demo_ct = [] \<and>
   tidy_run (ct_mount demo_ct) [CtLoadSettles, RowDelete (row_of_contact demo_contact) 0,
     TimerFires 0 True, RowAdd demo_row, TimerFires 0 True, EditIcon demo_row] \<and>
   \<not> load_pending (ct_run (ct_mount demo_ct) [CtLoadSettles, RowDelete (row_of_contact demo_contact) 0,
     TimerFires 0 True, RowAdd demo_row, TimerFires 0 True, EditIcon demo_row]) \<and>
   table_shows (ct_run (ct_mount demo_ct) [CtLoadSettles, RowDelete (row_of_contact demo_contact) 0,
     TimerFires 0 True, RowAdd demo_row, TimerFires 0 True, EditIcon demo_row])"
proof -
  have a: "ct_inv demo_ct" by code_simp
  have b: "timers demo_ct = []" by code_simp
  have c: "tidy_run (ct_mount demo_ct) [CtLoadSettles, RowDelete (row_of_contact demo_contact) 0,
     TimerFires 0 True, RowAdd demo_row, TimerFires 0 True, EditIcon demo_row]" by code_simp
  have d: "\<not> load_pending (ct_run (ct_mount demo_ct) [CtLoadSettles, RowDelete (row_of_contact demo_contact) 0,
     TimerFires 0 True, RowAdd demo_row, TimerFires 0 True, EditIcon demo_row])" by code_simp
  show ?thesis using a b c d table_refines_store [OF a b c d] by blast
qed

end
