(* ===== verification/System.thy ===== *)
theory System
  imports Calendar Contacts
begin

text \<open>
  The two pages together.  The calendar (\<open>calendarComponent.js\<close>) and the contacts table
  (\<open>pages/contacts.js\<close>) run in one browser session against one store; the only
  collection both use is the organisation's Contact collection, which the table writes
  (\<open>createNewContact\<close>, \<open>deleteContact\<close>) and the calendar reads (\<open>getContact\<close> in
  \<open>addEvent\<close>, \<open>getContactsByOrg\<close> in the autocomplete fetch).  The system state pairs
  the two page states, and a step of either page passes the Contact collection it leaves
  on to the other page's view of the store.  Every step of a page is one of its own event
  loop (\<open>cal_step\<close>, \<open>ct_step\<close>); the system interleaves them in any order.
\<close>

record crm =
  sys_cal :: cal_state
  sys_ct :: ct_state

datatype sys_input = OnCal cal_input | OnCt ct_input

fun sys_step :: "crm \<Rightarrow> sys_input \<Rightarrow> crm" where
  "sys_step S (OnCal x) =
     (let c = cal_step (sys_cal S) x in S\<lparr>sys_cal := c, sys_ct := (sys_ct S)\<lparr>contacts_store := contacts_db c\<rparr>\<rparr>)"
| "sys_step S (OnCt y) =
     (let t = ct_step (sys_ct S) y in S\<lparr>sys_ct := t, sys_cal := (sys_cal S)\<lparr>contacts_db := contacts_store t\<rparr>\<rparr>)"

definition sys_run :: "crm \<Rightarrow> sys_input list \<Rightarrow> crm" where
  "sys_run S xs = foldl sys_step S xs"

text \<open>Both pages see the same Contact collection and belong to the same organisation.\<close>

definition shared :: "crm \<Rightarrow> bool" where
  "shared S \<longleftrightarrow> contacts_db (sys_cal S) = contacts_store (sys_ct S) \<and> org_id (sys_cal S) = ct_org (sys_ct S)"

text \<open>The demo organisation on both pages, the table's store being the calendar's.\<close>

definition demo_sys :: crm where
  "demo_sys = \<lparr>sys_cal = demo_cal\<lparr>contacts_db := contacts_store demo_ct\<rparr>, sys_ct = demo_ct\<rparr>"

text \<open>Both pages of the demo organisation open: the table's load and the calendar's
  contacts fetch have settled (its event load is still pending).\<close>

definition demo_sys_open :: crm where
  "demo_sys_open = sys_run demo_sys [OnCt CtLoadSettles, OnCal Mount, OnCal (ResolveFetch 0)]"

subsection \<open>Steps of the system\<close>

lemma sys_run_Nil [simp]: "sys_run S [] = S"
  by (simp add: sys_run_def)

lemma sys_run_Cons [simp]: "sys_run S (x # xs) = sys_run (sys_step S x) xs"
  by (simp add: sys_run_def)

lemma sys_run_append: "sys_run S (xs @ ys) = sys_run (sys_run S xs) ys"
  by (simp add: sys_run_def)

lemma run_task_contacts [simp]: "contacts_db (run_task t s) = contacts_db s"
  by (cases t) (simp_all add: loadEvents_then_def addEvent_then_def createThen_def update_then_def
      editFetch_then_def afterUpdate_then_def split: sum.splits prod.splits option.splits)

lemma cal_step_contacts [simp]: "contacts_db (cal_step s x) = contacts_db s"
  by (cases x) (simp_all add: mount_def clearEvents_def handleDateSelected_def createNewEventDate_def
      updateEvent_def deleteEvent_def handleEdit_def openCreate_def closeCreate_def closeEdit_def setDate_def
      resolve_def popupSave_def afterUpdate_def Let_def split: option.splits sum.splits)

lemma fire_timer_org [simp]: "ct_org (fire_timer ok tm t) = ct_org t"
  by (cases tm) (simp_all add: add_timer_fires_def delete_timer_fires_def Let_def
      split: prod.splits sum.splits)

lemma ct_step_org [simp]: "ct_org (ct_step t y) = ct_org t"
  by (cases y) (simp_all add: ct_mount_def load_then_def onRowAdd_def onRowDelete_def handlePopUp_def
      closePopUp_def fire_def)

lemma run_task_org [simp]: "org_id (run_task tk s) = org_id s"
  by (cases tk) (simp_all add: loadEvents_then_def addEvent_then_def createThen_def update_then_def
      editFetch_then_def afterUpdate_then_def split: sum.splits prod.splits option.splits)

lemma cal_step_org [simp]: "org_id (cal_step s x) = org_id s"
  by (cases x) (simp_all add: mount_def clearEvents_def handleDateSelected_def createNewEventDate_def
      updateEvent_def deleteEvent_def handleEdit_def openCreate_def closeCreate_def closeEdit_def setDate_def
      resolve_def popupSave_def afterUpdate_def Let_def split: option.splits sum.splits)

lemma all_ok_Inl: "x \<in> set xs \<Longrightarrow> f x = Inl e \<Longrightarrow> all_ok (map f xs) = None"
proof (induction xs)
  case Nil then show ?case by simp
next
  case (Cons y ys)
  then show ?case by (cases "f y") auto
qed

text \<open>A row delete the table fires leaves the calendar's view of the store without the
  row's contact, and touches nothing else of the calendar.\<close>

lemma sys_delete_fires_cal:
  assumes "shared S" and "timers (sys_ct S) = []" and "0 \<le> i"
    and "row_id (contactList (sys_ct S) ! nat i) = Some k"
  shows "sys_cal (sys_run S [OnCt (RowDelete (contactList (sys_ct S) ! nat i) i), OnCt (TimerFires 0 ok)])
           = (sys_cal S)\<lparr>contacts_db := filter (\<lambda>d. c_id d \<noteq> k) (contacts_db (sys_cal S))\<rparr>"
proof -
  have "contacts_store (fire 0 ok (onRowDelete (contactList (sys_ct S) ! nat i) i (sys_ct S)))
          = filter (\<lambda>d. c_id d \<noteq> k) (contacts_store (sys_ct S))"
    using delete_fires_store [OF assms(3), of "sys_ct S" ok] assms(2,4) by simp
  then show ?thesis using assms(1) by (simp add: shared_def onRowDelete_def Let_def)
qed

subsection \<open>Properties of the two pages together\<close>

text \<open>C27. A contact the table adds (and the store accepts) is offered by the calendar's
  creation form once the calendar page is opened and its contacts fetch settles: the
  option is the stored contact, labelled with the name typed into the table.\<close>

theorem contact_added_offered:
  assumes "shared S" and "timers (sys_ct S) = []" and "fetches (sys_cal S) = []"
  shows "(\<lparr>c_id = fresh_id (map c_id (contacts_store (sys_ct S))), c_org = ct_org (sys_ct S),
           c_name = row_name nd, c_company = row_company nd, c_position = row_position nd,
           c_email = row_email nd, c_phoneNumber = row_phoneNumber nd, c_notes = []\<rparr>, row_name nd)
         \<in> set (contactOpts (sys_cal (sys_run S
              [OnCt (RowAdd nd), OnCt (TimerFires 0 True), OnCal Mount, OnCal (ResolveFetch 0)])))"
  using assms
  by (simp add: shared_def onRowAdd_def fire_def add_timer_fires_def createNewContact_def coll_add_def
      mount_def clearEvents_def resolve_fetch_def label_all_def getContactsByOrg_def Let_def)

text \<open>C29. The creation form offers the contacts of the calendar's last mount.  A contact
  the table deletes afterwards (in another tab, or another user of the organisation) is
  still offered; a meeting created with it and without a
  title is stored with a contact the store no longer has, so the organisation's shown
  interactions cannot all be projected any more: no synchronised widget exists until
  the meeting is edited or dismissed.\<close>

theorem stale_option_unprojectable:
  assumes sh: "shared S" and tm: "timers (sys_ct S) = []"
    and opt: "(c, l) \<in> set (contactOpts (sys_cal S))"
    and i: "0 \<le> i" and row: "row_id (contactList (sys_ct S) ! nat i) = Some (c_id c)"
  shows "(c, l) \<in> set (contactOpts (sys_cal (sys_run S
            [OnCt (RowDelete (contactList (sys_ct S) ! nat i) i), OnCt (TimerFires 0 ok),
             OnCal (SubmitCreate [] sd st et ad (c_id c) dl tk ty nt),
             OnCal (Resolve (length (tasks (sys_cal S))))]))) \<and>
         getContact (contacts_db (sys_cal (sys_run S
            [OnCt (RowDelete (contactList (sys_ct S) ! nat i) i), OnCt (TimerFires 0 ok),
             OnCal (SubmitCreate [] sd st et ad (c_id c) dl tk ty nt),
             OnCal (Resolve (length (tasks (sys_cal S))))]))) (c_id c) = None \<and>
         projection (sys_cal (sys_run S
            [OnCt (RowDelete (contactList (sys_ct S) ! nat i) i), OnCt (TimerFires 0 ok),
             OnCal (SubmitCreate [] sd st et ad (c_id c) dl tk ty nt),
             OnCal (Resolve (length (tasks (sys_cal S))))])) = None"
proof -
  let ?del = "[OnCt (RowDelete (contactList (sys_ct S) ! nat i) i), OnCt (TimerFires 0 ok)]"
  let ?mk = "[OnCal (SubmitCreate [] sd st et ad (c_id c) dl tk ty nt), OnCal (Resolve (length (tasks (sys_cal S))))]"
  let ?c1 = "(sys_cal S)\<lparr>contacts_db := filter (\<lambda>d. c_id d \<noteq> c_id c) (contacts_db (sys_cal S))\<rparr>"
  have s1: "sys_cal (sys_run S ?del) = ?c1" using sys_delete_fires_cal [OF sh tm i row] .
  let ?start = "clock_time sd st" and ?end = "if et \<noteq> [] \<and> \<not> ad then Some (clock_time sd et) else None"
  let ?nd = "new_doc ?c1 [] ?start ?end (c_id c) dl tk ty nt"
  have s2: "sys_cal (sys_run S (?del @ ?mk)) =
     ?c1\<lparr>interactions := interactions ?c1 @ [?nd],
         events := events ?c1 @ [\<lparr>ev_id = i_id ?nd, ev_title = [], ev_start = ?start,
                                  ev_end = ?end, ev_allDay = ad\<rparr>],
         toasts := toasts ?c1 @ [''Interaction Successfully Added'']\<rparr>"
    using create_settled_state [of ?c1 "[]" sd st et ad "c_id c" dl tk ty nt] s1
    by (simp add: sys_run_append Let_def)
  have gc: "getContact (filter (\<lambda>d. c_id d \<noteq> c_id c) (contacts_db (sys_cal S))) (c_id c) = None"
    by (auto simp: getContact_def coll_get_def)
  then have "project_doc (filter (\<lambda>d. c_id d \<noteq> c_id c) (contacts_db (sys_cal S))) ?nd
               = Inl (TypeError ''contact is undefined'')"
    by (simp add: project_doc_def event_of_doc_def new_doc_def)
  moreover have "?nd \<in> set (shown_docs (sys_cal (sys_run S (?del @ ?mk))))"
    unfolding s2 by (simp add: shown_docs_def getInteractionsByOrg_def new_doc_def)
  ultimately have "projection (sys_cal (sys_run S (?del @ ?mk))) = None"
    unfolding projection_def using s2 by (simp add: all_ok_Inl)
  then show ?thesis using s2 opt gc by simp
qed

subsection \<open>Witnesses\<close>

theorem contact_added_offered_witness:
  "shared demo_sys \<and> timers (sys_ct demo_sys) = [] \<and> fetches (sys_cal demo_sys) = [] \<and>
   ''Cy'' \<in> snd ` set (contactOpts (sys_cal (sys_run demo_sys
      [OnCt (RowAdd demo_row), OnCt (TimerFires 0 True), OnCal Mount, OnCal (ResolveFetch 0)])))"
proof -
  have a: "shared demo_sys" by code_simp
  have b: "timers (sys_ct demo_sys) = []" by code_simp
  have c: "fetches (sys_cal demo_sys) = []" by code_simp
  have n: "row_name demo_row = ''Cy''" by (simp add: demo_row_def)
  have "''Cy'' \<in> snd ` set (contactOpts (sys_cal (sys_run demo_sys
      [OnCt (RowAdd demo_row), OnCt (TimerFires 0 True), OnCal Mount, OnCal (ResolveFetch 0)])))"
    using contact_added_offered [OF a b c, of demo_row] n by (metis image_eqI snd_conv)
  then show ?thesis using a b c by blast
qed

text \<open>Ann is offered after the table deleted her; the untitled meeting created with her
  cannot be projected.\<close>

theorem stale_option_unprojectable_witness:
  "shared demo_sys_open \<and> timers (sys_ct demo_sys_open) = [] \<and>
   (demo_contact, ''Ann'') \<in> set (contactOpts (sys_cal demo_sys_open)) \<and> 0 \<le> (0::int) \<and>
   row_id (contactList (sys_ct demo_sys_open) ! nat 0) = Some (c_id demo_contact) \<and>
   projection (sys_cal (sys_run demo_sys_open
     [OnCt (RowDelete (contactList (sys_ct demo_sys_open) ! nat 0) 0), OnCt (TimerFires 0 True),
      OnCal (SubmitCreate [] (JsDate 0) ''09:00'' ''10:00'' False (c_id demo_contact) [] [] [] []),
      OnCal (Resolve (length (tasks (sys_cal demo_sys_open))))])) = None"
proof -
  have a: "shared demo_sys_open" by code_simp
  have b: "timers (sys_ct demo_sys_open) = []" by code_simp
  have c: "(demo_contact, ''Ann'') \<in> set (contactOpts (sys_cal demo_sys_open))" by code_simp
  have d: "0 \<le> (0::int)" by simp
  have e: "row_id (contactList (sys_ct demo_sys_open) ! nat 0) = Some (c_id demo_contact)" by code_simp
  show ?thesis using a b c d e stale_option_unprojectable [OF a b c d e, where ok = True and sd = "JsDate 0"
      and st = "''09:00''" and et = "''10:00''" and ad = False and dl = "[]" and tk = "[]" and ty = "[]"
      and nt = "[]"] by blast
qed

end
