(* ===== verification/Spec2Isabelle.thy ===== *)
theory Spec2Isabelle
  imports CalendarFetch CalendarProgress CalendarReach CalendarSession CalendarWidget ContactsSerial ContactsTable System
begin

text \<open>
  \<^bold>\<open>RippleDEX: a verification development of its calendar and contacts pages.\<close>

  \<^bold>\<open>The program.\<close>  Two React pages of a small CRM, both clients of one remote
  document store (\<open>src/models/Interaction\<close>, \<open>src/models/Contact\<close>, not part of
  \<open>src/\<close>):
  \<^item> the calendar (\<open>src/src/components/calendar/calendarComponent.js\<close>,
    \<open>CalendarComponent\<close>) keeps a FullCalendar widget's event list consistent with the
    organisation's Interaction documents: the mount effect clears the widget and loads
    every \<open>remindMe\<close> interaction (\<open>loadEvents\<close>, \<open>addEvent\<close>); a date click and
    the creation form create an interaction (\<open>createNewEventDate\<close>); a drag updates its
    start and end (\<open>updateEvent\<close>); the delete action removes the event and clears
    \<open>remindMe\<close> (a soft delete); the edit action fetches the document for the edit
    pop-up, whose \<open>afterUpdate\<close> replaces the event by a fresh projection;
  \<^item> the contacts page (\<open>src/src/pages/contacts.js\<close>, \<open>ContactsPage\<close>) loads the
    organisation's contacts into the state \<open>contactList\<close> that a material-table grid
    renders, and adds and deletes rows through \<open>onRowAdd\<close> and \<open>onRowDelete\<close>, each a
    promise resolved by a one-second timer that calls the store.
  The pages interact only through the store: a contact the table deletes is the contact
  the calendar reads to title an interaction that has no name.

  \<^bold>\<open>Theories.\<close>
  \<^item> \<open>Prelude\<close>: the names of the model's types, the fact collections, and the list
    operations shared by the components (\<open>find_key\<close>, \<open>remove_first\<close>: a widget's
    \<open>getEventById\<close> and \<open>remove\<close>).
  \<^item> \<open>JsRuntime\<close>: the JavaScript built-ins the time parsing relies on
    (\<open>split\<close>, \<open>parseInt\<close>, reading past an array's end, \<open>Date.setHours\<close>,
    \<open>TimeClip\<close>), with the round trip of decimal printing through \<open>parseInt\<close> and of
    \<open>join\<close> through \<open>split\<close>.
  \<^item> \<open>RemoteStore\<close>: the store, modelled from the spec's external interfaces: records
    \<open>interaction\<close>, \<open>contact\<close>, \<open>deal\<close> and \<open>crm_task\<close>, collections as
    insertion-ordered lists, fresh ids, \<open>createNewInteraction\<close>, \<open>getInteraction\<close>,
    \<open>getInteractionsByOrg\<close>, \<open>updateInteraction\<close> with the patches the code sends,
    \<open>createNewContact\<close>, \<open>getContact\<close>, \<open>getContactsByOrg\<close>, \<open>deleteContact\<close>,
    \<open>getDealsByOrg\<close>, \<open>getTasksByOrg\<close>; failures are \<open>store_error\<close> values.
    Lemmas: freshness, insert/lookup, update/lookup and delete/lookup, unique ids.
  \<^item> \<open>Calendar\<close>: the state \<open>cal_state\<close> (widget events, React state including the
    three autocomplete option lists, store, pending continuations, unhandled errors,
    notifications); one definition per handler and per continuation (\<open>mount\<close> with
    \<open>fetch_then\<close> and \<open>label_all\<close>, \<open>loadEvents_then\<close>, \<open>addEvent_then\<close>,
    \<open>handleDateSelected\<close>, \<open>openCreate\<close>, \<open>closeCreate\<close>, \<open>clock_time\<close>,
    \<open>createNewEventDate\<close>, \<open>createThen\<close>, \<open>renderEventContent\<close> with
    \<open>deleteEvent\<close> and \<open>handleEdit\<close>, \<open>updateEvent\<close>, \<open>update_then\<close>,
    \<open>editFetch_then\<close>, \<open>popupSave\<close>, \<open>afterUpdate\<close>, \<open>afterUpdate_then\<close>,
    \<open>closeEdit\<close>, the creation form's \<open>setDate\<close>); the event loop \<open>cal_step\<close> over user inputs, \<open>Resolve n\<close> (the
    settlement of the \<open>n\<close>-th pending call, in any order) and \<open>ResolveFetch n\<close> (the
    same for the autocomplete fetches); the contract \<open>projection\<close> and \<open>synced\<close>
    (spec, sections 3 and 4.1).
  \<^item> \<open>CalendarFetch\<close>: the autocomplete fetches commute with every other step, once
    settled the option lists are the organisation's labelled documents, and an option's
    label comes back as the title of an untitled meeting created with it.
  \<^item> \<open>CalendarProgress\<close>: the pending-work measure \<open>cal_work\<close>; every settlement
    decreases it, schedules are bounded by it, and settling the first call that often
    drains everything.
  \<^item> \<open>CalendarReach\<close>: the calendar as a transition system \<open>cal_trans\<close> (the inputs
    the widget and the pop-ups can deliver), its reachable states \<open>cal_reach\<close>, and the
    invariant \<open>cal_wf\<close> proved by rule induction.
  \<^item> \<open>CalendarWidget\<close>: the effect of a drag on synchronisation (the widget's own
    move of the event, \<open>widget_move\<close>, and the update \<open>updateEvent\<close> sends).
  \<^item> \<open>CalendarSession\<close>: sessions in which every action's calls settle before the next
    action (\<open>settle\<close>, \<open>calls\<close>), the actions that keep the contract
    (\<open>keeps_sync\<close>, \<open>edit_keeps\<close>), and the invariance of \<open>synced\<close> along them.
  \<^item> \<open>Contacts\<close>: the state \<open>ct_state\<close> (rows, store, notifications, timers with
    the list snapshot their closure captured, grid promise outcomes); \<open>ct_mount\<close>,
    \<open>load_then\<close>, \<open>onRowAdd\<close>, \<open>onRowDelete\<close>, the timer bodies
    \<open>add_timer_fires\<close> and \<open>delete_timer_fires\<close>, \<open>js_splice1\<close>,
    \<open>handlePopUp\<close>, \<open>closePopUp\<close>, and the event loop \<open>ct_step\<close>.
  \<^item> \<open>ContactsSerial\<close>: the contacts page as two transition systems, with the grid's
    serialisation of row operations (\<open>ct_serial\<close>) and without it (\<open>ct_conc\<close>), and
    the invariant \<open>ct_inv\<close> of the serialised one.
  \<^item> \<open>ContactsTable\<close>: the table refines the store: the relation \<open>table_shows\<close>
    (\<open>list_all2\<close> of rows and the organisation's contacts) holds after the load along
    every \<open>tidy\<close> sequence of inputs (\<open>tab_ok\<close>, preserved by each step).
  \<^item> \<open>System\<close>: both pages in one session, a record \<open>crm\<close> of the two page states and
    a step \<open>sys_step\<close> that runs one page's event loop and passes the Contact
    collection it leaves to the other page's view of the store.
  \<^item> this theory: the projection of a shared interaction after a table delete.
  \<open>System\<close> imports both page families; the root imports every theory.

  \<^bold>\<open>What is proved.\<close>  Calendar: whatever order the mount's fetches settle in, the
  widget ends equal (as a multiset) to the projection of the \<open>remindMe\<close> interactions
  (invariant \<open>load_inv\<close> over settlement sequences), and settling the first pending
  call \<open>1 + #remindMe\<close> times ends the load; a synchronised widget has one event per
  interaction and \<open>allDay\<close> exactly when there is no end; delete is soft and keeps
  synchronisation; a drag changes only the start and end; a
  create appends exactly one document and one event, and keeps synchronisation exactly
  when the title is non-empty and the event is all-day or has an end time; an \<open>HH:MM\<close>
  string is read back exactly, within the day, and a string without a colon gives the
  invalid date; \<open>afterUpdate\<close> re-adds without the \<open>remindMe\<close> filter; in every
  organisation, a titled create that settles before the mount's load is shown twice.
  Once settled, the autocomplete fetches leave the labelled option lists.  No schedule
  of settlements is longer than the pending work.  In every
  reachable state every displayed event and every pending call refers to a stored
  interaction, and the only uncaught errors are a missing contact and a \<open>null\<close>
  \<open>getEventById\<close> (a second save of the edit pop-up reaches the latter).  A drag
  keeps the widget synchronised exactly when the widget's all-day flag is the one the
  new end implies.  Along every session whose calls settle before the next action, the
  widget stays synchronised through date clicks, pop-up buttons, form date changes,
  autocomplete settlements, deletions, titled creations with an end or all-day, drags
  whose flag matches the new end, and edit saves that keep the document shown and
  projectable.  A contact picked from the form is the stored contact of that id, and an
  untitled meeting with it is titled with the label the form showed.  Contacts: an
  accepted add appends the submitted row and stores its
  fields; a rejected add changes nothing but the notification is shown anyway; an add
  begun before the load settles discards the loaded rows; a delete removes exactly the
  row and its document; a row added in the session cannot be deleted from the store;
  with serialised row operations every row id names a stored contact, and without
  serialisation any two deletes of shown rows started before either timer fires bring
  the first deleted contact's row back.  Once the load has
  settled, row operations one at a time that delete only loaded rows keep the table a
  refinement of the store: row by row the organisation's contacts, each row id the id
  of the contact at its position.  Across pages: deleting
  a contact makes unnamed interactions that refer to it unprojectable, and the
  calendar's next load raises the missing-contact error on them; a contact the table
  adds is offered by the calendar's form after its next mount; the form's options are not
  refreshed, so a contact deleted after the calendar's mount is still offered, and an
  untitled meeting created with it cannot be projected.

  \<^bold>\<open>Bounds and fuel.\<close>  No loop of the code is unbounded and no definition uses fuel:
  schedules are explicit lists of inputs.  The mount's load drains in \<open>1 + n\<close>
  settlements for \<open>n\<close> shown interactions; in general the measure \<open>cal_work\<close> (one per
  pending call, one more per pending re-fetch of \<open>afterUpdate\<close>, and per pending load
  one per document the store can hold when it settles) bounds every schedule.  Time
  values are exact integers in milliseconds; \<open>TimeClip\<close> bounds them by \<open>8.64e15\<close>;
  local time is taken as UTC (no time-zone offset), and doubles are exact at the
  magnitudes met.

  \<^bold>\<open>Not modelled.\<close>  Rendering (JSX, widget options, table icons, theme, columns,
  \<open>Layout\<close>, \<open>Seo\<close>, the page wrapper \<open>Contacts\<close>); the pop-up components
  outside \<open>src/\<close> (their callbacks into the pages are modelled, and the edit pop-up's
  write is the whole-document patch); Firestore's own failures other than a missing
  document or an undefined id.  The store's id generator is a fresh-by-construction
  stand-in for Firestore's random ids, and each fetch returns fresh objects (the label
  assignment does not reach the store).  The page wrapper \<open>Contacts\<close> renders
  \<open><ContactsPage />\<close> inside \<open>Layout\<close>, which is not under \<open>src/\<close> and is where
  the page's props (\<open>user\<close>, \<open>org\<close>) come from; the page theories take the
  organisation as given.  The JavaScript built-in \<open>splice\<close> is modelled
  (\<open>js_splice1\<close>) but not separately verified.  A remount of
  the calendar is modelled only when nothing of an earlier visit is pending (late
  continuations of an unmounted instance are not modelled).

  \<^bold>\<open>Open ends.\<close>  The calendar's contract is shown for settled sessions and for
  the mount's load; with calls left pending across actions the widget can diverge (a
  create that settles before the load, a second edit save before the first re-fetch),
  and the theorems above name those schedules.  Late continuations of an unmounted
  calendar, and the pop-up components' own forms, remain outside the model.
\<close>

subsection \<open>The two pages share the Contact collection\<close>

text \<open>C19. Deleting a contact in the contacts table makes every shown interaction without a
  name that refers to it impossible to project: the calendar's next load throws in
  \<open>addEvent\<close> for it, and no synchronised widget exists for the organisation.\<close>

theorem contact_delete_breaks_projection:
  assumes "0 \<le> i" and "nat i < length (contactList ct)" and "row_id (contactList ct ! nat i) = Some k"
    and "d \<in> set (shown_docs cs)" and "i_name d = []" and "i_contact d = k"
  shows "projection (cs\<lparr>contacts_db := contacts_store
            (fire (length (timers ct)) ok (onRowDelete (contactList ct ! nat i) i ct))\<rparr>) = None"
proof -
  let ?db = "contacts_store (fire (length (timers ct)) ok (onRowDelete (contactList ct ! nat i) i ct))"
  have db: "?db = filter (\<lambda>c. c_id c \<noteq> k) (contacts_store ct)"
    using delete_fires_store [OF assms(1)] assms(3) by simp
  have "getContact ?db k = None"
    by (auto simp: db getContact_def coll_get_def)
  then have "project_doc ?db d = Inl (TypeError ''contact is undefined'')"
    using assms(5,6) by (simp add: project_doc_def event_of_doc_def)
  moreover have "d \<in> set (shown_docs (cs\<lparr>contacts_db := ?db\<rparr>))"
    using assms(4) by (simp add: shown_docs_def)
  ultimately show ?thesis
    by (simp add: projection_def all_ok_Inl)
qed

theorem contact_delete_breaks_projection_witness:
  "0 \<le> (0::int) \<and> nat 0 < length (contactList (load_then demo_ct)) \<and>
   row_id (contactList (load_then demo_ct) ! nat 0) = Some ''c1'' \<and>
   demo_doc \<in> set (shown_docs demo_cal) \<and> i_name demo_doc = [] \<and> i_contact demo_doc = ''c1'' \<and>
   projection (demo_cal\<lparr>contacts_db := contacts_store (fire (length (timers (load_then demo_ct))) True
      (onRowDelete (contactList (load_then demo_ct) ! nat 0) 0 (load_then demo_ct)))\<rparr>) = None"
proof -
  have a: "0 \<le> (0::int)" by simp
  have b: "nat 0 < length (contactList (load_then demo_ct))" by code_simp
  have c: "row_id (contactList (load_then demo_ct) ! nat 0) = Some ''c1''" by code_simp
  have d: "demo_doc \<in> set (shown_docs demo_cal)" by code_simp
  have e: "i_name demo_doc = []" "i_contact demo_doc = ''c1''" by (simp_all add: demo_doc_def)
  show ?thesis using a b c d e contact_delete_breaks_projection [where ok=True, OF a b c d e] by simp
qed

end
